(* ===== verification/MPLP_Prelude.thy ===== *)
theory MPLP_Prelude
  imports Complex_Main
begin

text \<open>
  Shared vocabulary of the MPLP development.  Variables, states and intersection
  handles are the C++ \<open>MPLPIndexType\<close> (an unsigned index), modelled as \<open>nat\<close>;
  the solver's \<open>double\<close> values are modelled as \<open>real\<close>, so every statement below
  is about exact arithmetic (the floating-point rounding of the C++ code is not
  modelled).  A joint state of an ordered list of variables is a \<open>nat list\<close> of the
  same length.  This theory also holds the generic facts on lists, sums and maxima
  that the component theories share.
\<close>

type_synonym var = nat
type_synonym assignment = "nat list"
type_synonym handle = nat

named_theorems index_simps "facts on flat indices and joint-state enumeration"

section \<open>Index arithmetic on lists\<close>

lemma concat_map_upt_blocks:
  "concat (map (\<lambda>x. [x * p..<x * p + p]) [0..<d]) = [0..<d * p]"
proof (induction d)
  case 0
  then show ?case by simp
next
  case (Suc d)
  have "[0..<Suc d * p] = [0..<d * p] @ [d * p..<d * p + p]"
    using upt_add_eq_append [of 0 "d * p" p] by (simp add: add.commute)
  with Suc show ?case by simp
qed

lemma map_nth_upt_eq:
  "length xs = n \<Longrightarrow> map ((!) xs) [0..<n] = xs"
  by (metis map_nth)

lemma map_nth_upt_comp:
  "map (\<lambda>i. f (xs ! i)) [0..<length xs] = map f xs"
proof -
  have "map (\<lambda>i. f (xs ! i)) [0..<length xs] = map f (map ((!) xs) [0..<length xs])"
    by (simp only: map_map comp_def)
  then show ?thesis by (simp only: map_nth)
qed

lemma zip_map_self:
  "zip xs (map g xs) = map (\<lambda>x. (x, g x)) xs"
  by (induction xs) auto

lemma map_plus_upt:
  "map (\<lambda>i. k + i) [0..<m] = [k..<k + m]"
  using map_add_upt [of k m] by (simp add: add.commute)

section \<open>Folds of conditional list updates\<close>

text \<open>A loop that writes \<open>d[p i] := v i\<close> for the indices \<open>i\<close> satisfying \<open>c i\<close>:
  the positions it never writes keep their value, and running it twice is
  running it once.\<close>

lemma fold_cond_update_length [simp]:
  "length (fold (\<lambda>i d. if c i then d[p i := v i] else d) xs d) = length d"
  by (induction xs arbitrary: d) auto

lemma fold_cond_update_other:
  "j \<notin> set (map p (filter c xs)) \<Longrightarrow> fold (\<lambda>i d. if c i then d[p i := v i] else d) xs d ! j = d ! j"
  by (induction xs arbitrary: d) auto

lemma fold_cond_update_agree:
  "length d = length e \<Longrightarrow> (\<And>j. j < length d \<Longrightarrow> j \<notin> set (map p (filter c xs)) \<Longrightarrow> d ! j = e ! j)
   \<Longrightarrow> fold (\<lambda>i d. if c i then d[p i := v i] else d) xs d = fold (\<lambda>i d. if c i then d[p i := v i] else d) xs e"
proof (induction xs arbitrary: d e)
  case Nil
  then show ?case by (simp add: list_eq_iff_nth_eq)
next
  case (Cons x xs)
  let ?f = "\<lambda>d. if c x then d[p x := v x] else d"
  have "?f d ! j = ?f e ! j" if "j < length (?f d)" "j \<notin> set (map p (filter c xs))" for j
    using Cons.prems that by (cases "c x \<and> j = p x") (auto simp: nth_list_update)
  then show ?case using Cons.IH [of "?f d" "?f e"] Cons.prems(1) by simp
qed

lemma fold_cond_update_idem:
  "fold (\<lambda>i d. if c i then d[p i := v i] else d) xs (fold (\<lambda>i d. if c i then d[p i := v i] else d) xs d)
   = fold (\<lambda>i d. if c i then d[p i := v i] else d) xs d"
  by (rule fold_cond_update_agree) (simp_all add: fold_cond_update_other)

lemma fold_update_upt:
  "k \<le> length d \<Longrightarrow> fold (\<lambda>i d. d[i := f i]) [0..<k] d = map (\<lambda>j. if j < k then f j else d ! j) [0..<length d]"
proof (induction k)
  case 0
  then show ?case by (simp add: map_nth_upt_eq)
next
  case (Suc k)
  then have "fold (\<lambda>i d. d[i := f i]) [0..<Suc k] d
      = (map (\<lambda>j. if j < k then f j else d ! j) [0..<length d])[k := f k]" by simp
  also have "\<dots> = map (\<lambda>j. if j < Suc k then f j else d ! j) [0..<length d]"
  proof (rule nth_equalityI)
    fix i assume "i < length ((map (\<lambda>j. if j < k then f j else d ! j) [0..<length d])[k := f k])"
    then show "(map (\<lambda>j. if j < k then f j else d ! j) [0..<length d])[k := f k] ! i
        = map (\<lambda>j. if j < Suc k then f j else d ! j) [0..<length d] ! i"
      by (cases "i = k") (simp_all add: nth_list_update)
  qed simp
  finally show ?case .
qed

section \<open>Folds of list updates at distinct positions\<close>

text \<open>A loop that writes \<open>d[p x] := f x (d[p x])\<close> for each \<open>x\<close> of a list whose
  positions are distinct: each written cell holds its own new value, computed
  from its old one, and every other cell is kept.  Nested loops over a grid of
  indices are one loop over the grid's pairs.\<close>

lemma fold_nested_product:
  "fold (\<lambda>i. fold (g i) ys) xs s = fold (\<lambda>(i, j). g i j) (List.product xs ys) s"
  by (induction xs arbitrary: s) (simp_all add: fold_map comp_def)

lemma fold_update_length [simp]:
  "length (fold (\<lambda>x d. d[p x := g x d]) xs d) = length d"
  by (induction xs arbitrary: d) auto

lemma fold_update_miss:
  "k \<notin> p ` set xs \<Longrightarrow> fold (\<lambda>x d. d[p x := f x (d ! p x)]) xs d ! k = d ! k"
  by (induction xs arbitrary: d) auto

lemma fold_update_hit:
  "distinct (map p xs) \<Longrightarrow> x \<in> set xs \<Longrightarrow> p x < length d \<Longrightarrow>
   fold (\<lambda>x d. d[p x := f x (d ! p x)]) xs d ! p x = f x (d ! p x)"
proof (induction xs arbitrary: d)
  case Nil
  then show ?case by simp
next
  case (Cons y xs)
  show ?case
  proof (cases "x = y")
    case True
    then have "p x \<notin> p ` set xs" using Cons.prems(1) by auto
    then show ?thesis using True Cons.prems(3) by (simp add: fold_update_miss)
  next
    case False
    then have x: "x \<in> set xs" using Cons.prems(2) by simp
    moreover have "p y \<notin> p ` set xs" using Cons.prems(1) by simp
    ultimately have "p x \<noteq> p y" by (metis image_eqI)
    then show ?thesis using Cons.IH [of "d[p y := f y (d ! p y)]"] x Cons.prems(1,3) by simp
  qed
qed

lemma flat_cell_inj:
  fixes i j c :: nat
  shows "j < c \<Longrightarrow> j' < c \<Longrightarrow> (i * c + j = i' * c + j') = (i = i' \<and> j = j')"
proof
  assume j: "j < c" "j' < c" and e: "i * c + j = i' * c + j'"
  have "(i * c + j) div c = i" "(i * c + j) mod c = j" "(i' * c + j') div c = i'" "(i' * c + j') mod c = j'"
    using j by simp_all
  then show "i = i' \<and> j = j'" using e by metis
qed simp

lemma flat_cell_bound:
  fixes i j c :: nat
  shows "i < r \<Longrightarrow> j < c \<Longrightarrow> i * c + j < r * c"
proof -
  assume "i < r" "j < c"
  have "i * c + j < i * c + c" using \<open>j < c\<close> by simp
  also have "\<dots> = Suc i * c" by simp
  also have "\<dots> \<le> r * c" using \<open>i < r\<close> by (intro mult_le_mono1) simp
  finally show ?thesis .
qed

lemma flat_cell_distinct:
  fixes r c :: nat
  shows "distinct (map (\<lambda>(i, j). i * c + j) (List.product [0..<r] [0..<c]))"
proof -
  have "inj_on (\<lambda>(i, j). i * c + j) (set (List.product [0..<r] [0..<c]))"
    by (rule inj_onI) (auto simp: flat_cell_inj)
  then show ?thesis by (simp add: distinct_map distinct_product)
qed

section \<open>Linear search\<close>

lemma find_append_none:
  "find P xs = None \<Longrightarrow> P x \<Longrightarrow> find P (xs @ [x]) = Some x"
  by (induction xs) auto

lemma find_append_some:
  "find P xs = Some y \<Longrightarrow> find P (xs @ ys) = Some y"
  by (induction xs) (auto split: if_splits)

lemma find_upt_cong:
  "(\<And>i. i < n \<Longrightarrow> P i = Q i) \<Longrightarrow> find P [0..<n] = find Q [0..<n]"
proof -
  have "(\<forall>x\<in>set xs. P x = Q x) \<Longrightarrow> find P xs = find Q xs" for xs
    by (induction xs) auto
  then show "(\<And>i. i < n \<Longrightarrow> P i = Q i) \<Longrightarrow> find P [0..<n] = find Q [0..<n]" by simp
qed

section \<open>Sums over index ranges\<close>

text \<open>
  The per-region proofs sum one quantity per shared intersection; these lemmas
  move between \<open>fold\<close> loops over \<open>[0..<n]\<close> and sums over \<open>{..<n}\<close>.
\<close>

lemma fold_upt_Suc:
  "fold f [0..<Suc n] s = f n (fold f [0..<n] s)"
  by simp

lemma sum_lessThan_le:
  fixes f g :: "nat \<Rightarrow> real"
  shows "(\<And>i. i < n \<Longrightarrow> f i \<le> g i) \<Longrightarrow> (\<Sum>i<n. f i) \<le> (\<Sum>i<n. g i)"
  by (rule sum_mono) simp

lemma sum_list_map_nth:
  fixes f :: "'a \<Rightarrow> real"
  shows "sum_list (map f xs) = (\<Sum>i<length xs. f (xs ! i))"
  by (simp add: sum_list_sum_nth atLeast0LessThan)

lemma sum_list_map_update_eq:
  fixes f :: "'a \<Rightarrow> real"
  assumes "i < length xs"
  shows "sum_list (map f (xs[i := x])) = sum_list (map f xs) - f (xs ! i) + f x"
proof -
  have "map f (xs[i := x]) = (map f xs)[i := f x]" by (simp add: map_update)
  moreover have "sum_list ((map f xs)[i := f x]) = sum_list (map f xs) - f (xs ! i) + f x"
    using assms by (induction xs arbitrary: i) (auto split: nat.splits)
  ultimately show ?thesis by simp
qed

lemma sum_list_split_at:
  fixes f :: "'a \<Rightarrow> real"
  assumes "p < length xs" "p \<notin> set is" "distinct is" "\<forall>j\<in>set is. j < length xs"
  shows "sum_list (map f xs) = (\<Sum>j\<in>{..<length xs} - insert p (set is). f (xs ! j))
           + (f (xs ! p) + (\<Sum>i<length is. f (xs ! (is ! i))))"
proof -
  let ?D = "insert p (set is)"
  have sub: "?D \<subseteq> {..<length xs}" using assms(1,4) by auto
  have "sum_list (map f xs) = (\<Sum>j<length xs. f (xs ! j))" by (rule sum_list_map_nth)
  also have "\<dots> = (\<Sum>j\<in>{..<length xs} - ?D. f (xs ! j)) + (\<Sum>j\<in>?D. f (xs ! j))"
    using sub by (simp add: sum.subset_diff)
  also have "(\<Sum>j\<in>?D. f (xs ! j)) = f (xs ! p) + (\<Sum>j\<in>set is. f (xs ! j))"
    using assms(2) by simp
  also have "(\<Sum>j\<in>set is. f (xs ! j)) = (\<Sum>i<length is. f (xs ! (is ! i)))"
    using assms(3) by (simp add: sum.distinct_set_conv_list sum_list_map_nth)
  finally show ?thesis .
qed

section \<open>Maxima of finite non-empty sets of reals\<close>

lemma Max_image_le_iff_all:
  fixes f :: "'a \<Rightarrow> real"
  assumes "finite A" "A \<noteq> {}"
  shows "Max (f ` A) \<le> c \<longleftrightarrow> (\<forall>x\<in>A. f x \<le> c)"
  using assms by simp

lemma Max_image_ge:
  fixes f :: "'a \<Rightarrow> real"
  assumes "finite A" "x \<in> A"
  shows "f x \<le> Max (f ` A)"
  using assms by (auto intro: Max_ge)

lemma Max_image_attained:
  fixes f :: "'a \<Rightarrow> real"
  assumes "finite A" "A \<noteq> {}"
  obtains x where "x \<in> A" "Max (f ` A) = f x"
proof -
  from assms have "Max (f ` A) \<in> f ` A" by (intro Max_in) auto
  then show ?thesis using that by blast
qed

lemma Max_image_add_const:
  fixes f :: "'a \<Rightarrow> real"
  assumes "finite A" "A \<noteq> {}"
  shows "Max ((\<lambda>x. c + f x) ` A) = c + Max (f ` A)"
proof -
  have "mono ((+) c :: real \<Rightarrow> real)" by (simp add: mono_def)
  then have "c + Max (f ` A) = Max ((+) c ` f ` A)"
    using assms by (simp add: mono_Max_commute)
  then show ?thesis by (simp add: image_image)
qed

lemma Max_image_mult_const:
  fixes f :: "'a \<Rightarrow> real"
  assumes "finite A" "A \<noteq> {}" "0 \<le> c"
  shows "Max ((\<lambda>x. f x * c) ` A) = Max (f ` A) * c"
proof -
  have "mono (\<lambda>v::real. v * c)" using assms(3) by (simp add: mono_def mult_right_mono)
  then have "Max (f ` A) * c = Max ((\<lambda>v. v * c) ` f ` A)"
    using assms(1,2) mono_Max_commute [of "\<lambda>v. v * c" "f ` A"] by simp
  then show ?thesis by (simp add: image_image)
qed

lemma Max_set_ge [intro]:
  fixes x :: real
  shows "x \<in> set xs \<Longrightarrow> x \<le> Max (set xs)"
  by (rule Max_ge) simp_all

end
