(* ===== verification/MulDimArr.thy ===== *)
theory MulDimArr
  imports MPLP_Prelude
begin

text \<open>
  The potential table (\<open>MulDimArr\<close>, a subclass of \<open>Vec\<close>): a dense array of
  doubles over the joint states of an ordered list of variables.  The element-wise
  operations of \<open>Vec\<close> are translated from \<open>src/src/matrix.cpp\<close>; the
  multi-dimensional operations (flat indexing, \<open>GetVal\<close>, \<open>ExpandAndAdd\<close>,
  \<open>ExpandAndSubtract\<close>, \<open>Max(max_at)\<close>, \<open>max_into_multiple_subsets_special\<close>) live
  in the header \<open>MPLP/matrix.h\<close>, which is not part of the sources, and are modelled
  from the specification (section 4.1): row-major flat order (the last variable
  changes fastest) and first-found tie-breaking.

  The lemmas give each operation its meaning on joint states (\<open>GetVal\<close> of the
  result), which is what the region and solver proofs use.
\<close>

section \<open>Tables and joint states\<close>

record mdarr =
  m_sizes :: "nat list"
  m_dat :: "real list"

text \<open>All joint states of variables with the given domain sizes, in flat order.\<close>

definition assignments :: "nat list \<Rightarrow> assignment list" where
  "assignments ds = product_lists (map (\<lambda>d. [0..<d]) ds)"

fun flat_index :: "nat list \<Rightarrow> assignment \<Rightarrow> nat" where
  "flat_index (d # ds) (x # xs) = x * prod_list ds + flat_index ds xs"
| "flat_index _ _ = 0"

text \<open>The joint state of a sub-combination: positions \<open>inds\<close> of \<open>x\<close>.\<close>

definition sub_assign :: "'a list \<Rightarrow> nat list \<Rightarrow> 'a list" where
  "sub_assign x inds = map ((!) x) inds"

definition mda_wf :: "mdarr \<Rightarrow> bool" where
  "mda_wf t \<longleftrightarrow> length (m_dat t) = prod_list (m_sizes t)"

text \<open>\<open>MulDimArr(sizes)\<close> followed by \<open>= 0\<close>: a table of zeros.\<close>

definition MulDimArr_zero :: "nat list \<Rightarrow> mdarr" where
  "MulDimArr_zero ds = \<lparr>m_sizes = ds, m_dat = replicate (prod_list ds) 0\<rparr>"

text \<open>\<open>MulDimArr()\<close>: the empty table (\<open>m_n_prodsize = 0\<close>).\<close>

definition MulDimArr_empty :: mdarr where
  "MulDimArr_empty = \<lparr>m_sizes = [], m_dat = []\<rparr>"

text \<open>Filling a freshly constructed table from a flat vector of values, as
  \<open>Init\<close> does with \<open>curr_lambda[i] = all_lambdas[ri][i]\<close>.\<close>

definition MulDimArr_of :: "nat list \<Rightarrow> real list \<Rightarrow> mdarr" where
  "MulDimArr_of ds vs = \<lparr>m_sizes = ds, m_dat = map (\<lambda>i. vs ! i) [0..<prod_list ds]\<rparr>"

section \<open>Element-wise operations of \<open>Vec\<close>\<close>

text \<open>Each loop runs over the receiver's own elements (\<open>p < m_ep\<close>) and reads the
  argument at the same offset.\<close>

definition vec_fill :: "mdarr \<Rightarrow> real \<Rightarrow> mdarr" where
  "vec_fill t v = t\<lparr>m_dat := replicate (length (m_dat t)) v\<rparr>"

definition vec_add :: "mdarr \<Rightarrow> mdarr \<Rightarrow> mdarr" where
  "vec_add a b = a\<lparr>m_dat := map (\<lambda>i. m_dat a ! i + m_dat b ! i) [0..<length (m_dat a)]\<rparr>"

definition vec_sub :: "mdarr \<Rightarrow> mdarr \<Rightarrow> mdarr" where
  "vec_sub a b = a\<lparr>m_dat := map (\<lambda>i. m_dat a ! i - m_dat b ! i) [0..<length (m_dat a)]\<rparr>"

definition vec_scale :: "mdarr \<Rightarrow> real \<Rightarrow> mdarr" where
  "vec_scale a c = a\<lparr>m_dat := map (\<lambda>v. v * c) (m_dat a)\<rparr>"

text \<open>\<open>Vec::Max\<close>: the running maximum, starting from the first element.\<close>

definition Vec_Max :: "real list \<Rightarrow> real" where
  "Vec_Max xs = fold (\<lambda>v m. if v > m then v else m) (tl xs) (hd xs)"

section \<open>Multi-dimensional operations\<close>

definition GetVal :: "mdarr \<Rightarrow> assignment \<Rightarrow> real" where
  "GetVal t x = m_dat t ! flat_index (m_sizes t) x"

text \<open>\<open>small.ExpandAndAdd(big, inds)\<close>: add \<open>small\<close>, broadcast along the
  dimensions of \<open>big\<close> not listed in \<open>inds\<close>, into \<open>big\<close>.\<close>

definition ExpandAndAdd :: "mdarr \<Rightarrow> mdarr \<Rightarrow> nat list \<Rightarrow> mdarr" where
  "ExpandAndAdd small big inds =
     big\<lparr>m_dat := map2 (+) (m_dat big)
                   (map (\<lambda>x. GetVal small (sub_assign x inds)) (assignments (m_sizes big)))\<rparr>"

definition ExpandAndSubtract :: "mdarr \<Rightarrow> mdarr \<Rightarrow> nat list \<Rightarrow> mdarr" where
  "ExpandAndSubtract small big inds =
     big\<lparr>m_dat := map2 (-) (m_dat big)
                   (map (\<lambda>x. GetVal small (sub_assign x inds)) (assignments (m_sizes big)))\<rparr>"

text \<open>Max-marginal of \<open>big\<close> onto the dimensions \<open>inds\<close>: one sweep over the
  entries of \<open>big\<close>, each contributing to the entry of its restriction.\<close>

definition fiber_vals :: "mdarr \<Rightarrow> nat list \<Rightarrow> assignment \<Rightarrow> real list" where
  "fiber_vals big inds y =
     map snd (filter (\<lambda>(x, v). sub_assign x inds = y) (zip (assignments (m_sizes big)) (m_dat big)))"

definition max_into_subset :: "mdarr \<Rightarrow> nat list \<Rightarrow> mdarr" where
  "max_into_subset big inds =
     \<lparr>m_sizes = sub_assign (m_sizes big) inds,
      m_dat = map (\<lambda>y. Max (set (fiber_vals big inds y))) (assignments (sub_assign (m_sizes big) inds))\<rparr>"

definition max_into_multiple_subsets_special :: "mdarr \<Rightarrow> nat list list \<Rightarrow> mdarr list" where
  "max_into_multiple_subsets_special big ioi = map (max_into_subset big) ioi"

text \<open>\<open>Max(max_at)\<close>: maximum and the first flat index attaining it (strict
  comparison, so ties keep the earlier index).\<close>

fun max_at_from :: "real list \<Rightarrow> nat \<Rightarrow> real \<Rightarrow> nat \<Rightarrow> real \<times> nat" where
  "max_at_from [] i m a = (m, a)"
| "max_at_from (v # vs) i m a =
     (if v > m then max_at_from vs (Suc i) v i else max_at_from vs (Suc i) m a)"

definition Max_at :: "mdarr \<Rightarrow> real \<times> nat" where
  "Max_at t = (case m_dat t of [] \<Rightarrow> (0, 0) | v # vs \<Rightarrow> max_at_from vs 1 v 0)"

section \<open>Joint states and flat indices\<close>


lemma length_assignments [index_simps]: "length (assignments ds) = prod_list ds"
  by (simp add: assignments_def length_product_lists comp_def prod_list.eq_foldr)

lemma set_assignments [index_simps]:
  "x \<in> set (assignments ds) \<longleftrightarrow> length x = length ds \<and> (\<forall>i<length ds. x ! i < ds ! i)"
  by (auto simp: assignments_def product_lists_set list_all2_conv_all_nth)

lemma assignments_Cons:
  "assignments (d # ds) = concat (map (\<lambda>x. map (Cons x) (assignments ds)) [0..<d])"
  by (simp add: assignments_def)

lemma map_flat_index_assignments:
  "map (flat_index ds) (assignments ds) = [0..<prod_list ds]"
proof (induction ds)
  case Nil
  then show ?case by (simp add: assignments_def)
next
  case (Cons d ds)
  have "map (flat_index (d # ds)) (map (Cons x) (assignments ds)) = [x * prod_list ds..<x * prod_list ds + prod_list ds]" for x
  proof -
    have "map (flat_index (d # ds)) (map (Cons x) (assignments ds))
          = map (\<lambda>i. x * prod_list ds + i) (map (flat_index ds) (assignments ds))"
      by simp
    then show ?thesis using Cons.IH by (simp add: map_plus_upt)
  qed
  then have "map (flat_index (d # ds)) (assignments (d # ds))
        = concat (map (\<lambda>x. [x * prod_list ds..<x * prod_list ds + prod_list ds]) [0..<d])"
    by (simp add: assignments_Cons map_concat comp_def)
  then show ?case by (simp add: concat_map_upt_blocks)
qed

lemma flat_index_assignments_nth:
  assumes "x \<in> set (assignments ds)"
  shows "flat_index ds x < prod_list ds \<and> assignments ds ! flat_index ds x = x"
proof -
  from assms obtain i where i: "i < length (assignments ds)" "assignments ds ! i = x"
    by (auto simp: in_set_conv_nth)
  have "flat_index ds (assignments ds ! i) = [0..<prod_list ds] ! i"
    using i(1) by (simp flip: map_flat_index_assignments)
  with i show ?thesis by (simp add: length_assignments)
qed


lemma GetVal_assignments:
  assumes "mda_wf t"
  shows "map (GetVal t) (assignments (m_sizes t)) = m_dat t"
proof -
  have "map (GetVal t) (assignments (m_sizes t))
        = map (\<lambda>i. m_dat t ! i) (map (flat_index (m_sizes t)) (assignments (m_sizes t)))"
    by (simp add: GetVal_def)
  also have "\<dots> = m_dat t"
    using assms by (simp add: map_flat_index_assignments mda_wf_def map_nth_upt_eq)
  finally show ?thesis .
qed

lemma set_m_dat_GetVal:
  "mda_wf t \<Longrightarrow> set (m_dat t) = GetVal t ` set (assignments (m_sizes t))"
  by (metis GetVal_assignments set_map)

lemma GetVal_in_set:
  "mda_wf t \<Longrightarrow> x \<in> set (assignments (m_sizes t)) \<Longrightarrow> GetVal t x \<in> set (m_dat t)"
  by (simp add: set_m_dat_GetVal)

lemma nth_map2_assignments:
  assumes "length xs = prod_list ds" "x \<in> set (assignments ds)"
  shows "map2 h xs (map g (assignments ds)) ! flat_index ds x = h (xs ! flat_index ds x) (g x)"
  using assms flat_index_assignments_nth [OF assms(2)] by (simp add: length_assignments)

lemma ExpandAndAdd_sizes [simp]: "m_sizes (ExpandAndAdd s b inds) = m_sizes b"
  by (simp add: ExpandAndAdd_def)

lemma ExpandAndSubtract_sizes [simp]: "m_sizes (ExpandAndSubtract s b inds) = m_sizes b"
  by (simp add: ExpandAndSubtract_def)

lemma ExpandAndAdd_wf: "mda_wf b \<Longrightarrow> mda_wf (ExpandAndAdd s b inds)"
  by (simp add: ExpandAndAdd_def mda_wf_def length_assignments)

lemma ExpandAndSubtract_wf: "mda_wf b \<Longrightarrow> mda_wf (ExpandAndSubtract s b inds)"
  by (simp add: ExpandAndSubtract_def mda_wf_def length_assignments)

lemma GetVal_ExpandAndAdd:
  assumes "mda_wf b" "x \<in> set (assignments (m_sizes b))"
  shows "GetVal (ExpandAndAdd s b inds) x = GetVal b x + GetVal s (sub_assign x inds)"
  using assms nth_map2_assignments [of "m_dat b" "m_sizes b" x]
  by (simp add: ExpandAndAdd_def GetVal_def mda_wf_def)

lemma GetVal_ExpandAndSubtract:
  assumes "mda_wf b" "x \<in> set (assignments (m_sizes b))"
  shows "GetVal (ExpandAndSubtract s b inds) x = GetVal b x - GetVal s (sub_assign x inds)"
  using assms nth_map2_assignments [of "m_dat b" "m_sizes b" x]
  by (simp add: ExpandAndSubtract_def GetVal_def mda_wf_def)

lemma vec_ops_sizes [simp]:
  "m_sizes (vec_add a b) = m_sizes a" "m_sizes (vec_sub a b) = m_sizes a"
  "m_sizes (vec_scale a c) = m_sizes a" "m_sizes (vec_fill a v) = m_sizes a"
  by (simp_all add: vec_add_def vec_sub_def vec_scale_def vec_fill_def)

lemma vec_ops_wf:
  "mda_wf a \<Longrightarrow> mda_wf (vec_add a b)" "mda_wf a \<Longrightarrow> mda_wf (vec_sub a b)"
  "mda_wf a \<Longrightarrow> mda_wf (vec_scale a c)" "mda_wf a \<Longrightarrow> mda_wf (vec_fill a v)"
  by (simp_all add: vec_add_def vec_sub_def vec_scale_def vec_fill_def mda_wf_def)

lemma GetVal_index_lt:
  "mda_wf a \<Longrightarrow> x \<in> set (assignments (m_sizes a)) \<Longrightarrow> flat_index (m_sizes a) x < length (m_dat a)"
  using flat_index_assignments_nth by (simp add: mda_wf_def)

lemma GetVal_vec_add:
  "mda_wf a \<Longrightarrow> m_sizes b = m_sizes a \<Longrightarrow> x \<in> set (assignments (m_sizes a)) \<Longrightarrow>
   GetVal (vec_add a b) x = GetVal a x + GetVal b x"
  by (simp add: vec_add_def GetVal_def GetVal_index_lt)

lemma GetVal_vec_sub:
  "mda_wf a \<Longrightarrow> m_sizes b = m_sizes a \<Longrightarrow> x \<in> set (assignments (m_sizes a)) \<Longrightarrow>
   GetVal (vec_sub a b) x = GetVal a x - GetVal b x"
  by (simp add: vec_sub_def GetVal_def GetVal_index_lt)

lemma GetVal_vec_scale:
  "mda_wf a \<Longrightarrow> x \<in> set (assignments (m_sizes a)) \<Longrightarrow> GetVal (vec_scale a c) x = GetVal a x * c"
  by (simp add: vec_scale_def GetVal_def GetVal_index_lt)

lemma sub_assign_assignments:
  assumes "x \<in> set (assignments ds)" "\<forall>i\<in>set inds. i < length ds"
  shows "sub_assign x inds \<in> set (assignments (sub_assign ds inds))"
  using assms by (auto simp: set_assignments sub_assign_def)

lemma sub_assign_upt:
  "length x = n \<Longrightarrow> sub_assign x [0..<n] = x"
  by (simp add: sub_assign_def map_nth_upt_eq)


lemma GetVal_tabulate:
  assumes "y \<in> set (assignments ds)"
  shows "GetVal \<lparr>m_sizes = ds, m_dat = map F (assignments ds)\<rparr> y = F y"
  using flat_index_assignments_nth [OF assms] by (simp add: GetVal_def length_assignments)

lemma set_fiber_vals:
  assumes "mda_wf big"
  shows "set (fiber_vals big inds y)
         = GetVal big ` {x \<in> set (assignments (m_sizes big)). sub_assign x inds = y}"
proof -
  have "zip (assignments (m_sizes big)) (m_dat big)
        = map (\<lambda>x. (x, GetVal big x)) (assignments (m_sizes big))"
    using GetVal_assignments [OF assms] zip_map_self by metis
  then have "fiber_vals big inds y
      = map (GetVal big) (filter (\<lambda>x. sub_assign x inds = y) (assignments (m_sizes big)))"
    by (simp add: fiber_vals_def filter_map comp_def)
  then show ?thesis by auto
qed

lemma max_into_subset_sizes [simp]:
  "m_sizes (max_into_subset big inds) = sub_assign (m_sizes big) inds"
  by (simp add: max_into_subset_def)

lemma max_into_subset_wf: "mda_wf (max_into_subset big inds)"
  by (simp add: max_into_subset_def mda_wf_def length_assignments)

lemma GetVal_max_into_subset:
  assumes "mda_wf big" "y \<in> set (assignments (sub_assign (m_sizes big) inds))"
  shows "GetVal (max_into_subset big inds) y
         = Max (GetVal big ` {x \<in> set (assignments (m_sizes big)). sub_assign x inds = y})"
  using GetVal_tabulate [OF assms(2)] set_fiber_vals [OF assms(1)]
  by (simp add: max_into_subset_def)

lemma sub_assign_surj:
  assumes "distinct inds" "\<forall>i\<in>set inds. i < length ds" "\<forall>d\<in>set ds. 0 < d"
    and "y \<in> set (assignments (sub_assign ds inds))"
  shows "\<exists>x\<in>set (assignments ds). sub_assign x inds = y"
proof -
  let ?x = "map (\<lambda>i. case map_of (zip inds y) i of Some v \<Rightarrow> v | None \<Rightarrow> 0) [0..<length ds]"
  have ly: "length y = length inds"
    using assms(4) by (simp add: set_assignments sub_assign_def)
  have yk: "y ! k < ds ! (inds ! k)" if "k < length inds" for k
    using assms(4) that by (simp add: set_assignments sub_assign_def)
  have "sub_assign ?x inds = y"
  proof (rule nth_equalityI)
    show "length (sub_assign ?x inds) = length y" by (simp add: sub_assign_def ly)
  next
    fix k assume "k < length (sub_assign ?x inds)"
    then have k: "k < length inds" by (simp add: sub_assign_def)
    with assms(2) have "inds ! k < length ds" by simp
    with k show "sub_assign ?x inds ! k = y ! k"
      using map_of_zip_nth [of inds y k] assms(1) ly by (simp add: sub_assign_def)
  qed
  moreover have "?x \<in> set (assignments ds)"
  proof -
    have "?x ! i < ds ! i" if i: "i < length ds" for i
    proof (cases "map_of (zip inds y) i")
      case None
      with i assms(3) show ?thesis by simp
    next
      case (Some v)
      then have "(i, v) \<in> set (zip inds y)" by (rule map_of_SomeD)
      then obtain k where "k < length inds" "inds ! k = i" "y ! k = v"
        using ly by (auto simp: set_zip)
      with Some i yk show ?thesis by auto
    qed
    then show ?thesis by (simp add: set_assignments)
  qed
  ultimately show ?thesis by blast
qed

lemma max_at_from_fold:
  "fst (max_at_from vs i m a) = fold max vs m"
  by (induction vs arbitrary: i m a) (auto simp: max_def)

lemma max_at_from_fst:
  "fst (max_at_from vs i m a) = Max (insert m (set vs))"
  using Max.set_eq_fold [of m vs] by (simp add: max_at_from_fold)

lemma max_at_from_snd:
  "(snd (max_at_from vs i m a) = a \<and> (\<forall>v\<in>set vs. v \<le> m))
   \<or> (\<exists>k<length vs. snd (max_at_from vs i m a) = i + k \<and> vs ! k = fst (max_at_from vs i m a)
        \<and> m < vs ! k \<and> (\<forall>j<k. vs ! j < vs ! k))"
proof (induction vs arbitrary: i m a)
  case Nil
  then show ?case by simp
next
  case (Cons v vs)
  show ?case
  proof (cases "v > m")
    case True
    from Cons.IH [of "Suc i" v i] show ?thesis
    proof
      assume "snd (max_at_from vs (Suc i) v i) = i \<and> (\<forall>w\<in>set vs. w \<le> v)"
      with True show ?thesis by (auto simp: max_at_from_fst Max_insert2 intro!: exI [of _ 0])
    next
      assume "\<exists>k<length vs. snd (max_at_from vs (Suc i) v i) = Suc i + k
               \<and> vs ! k = fst (max_at_from vs (Suc i) v i) \<and> v < vs ! k \<and> (\<forall>j<k. vs ! j < vs ! k)"
      then obtain k where k: "k < length vs" "snd (max_at_from vs (Suc i) v i) = Suc i + k"
        "vs ! k = fst (max_at_from vs (Suc i) v i)" "v < vs ! k" "\<forall>j<k. vs ! j < vs ! k" by blast
      have "\<forall>j<Suc k. (v # vs) ! j < (v # vs) ! Suc k"
        using k(4,5) by (auto simp: less_Suc_eq_0_disj)
      with True k show ?thesis by (auto intro!: exI [of _ "Suc k"])
    qed
  next
    case False
    from Cons.IH [of "Suc i" m a] show ?thesis
    proof
      assume "snd (max_at_from vs (Suc i) m a) = a \<and> (\<forall>w\<in>set vs. w \<le> m)"
      with False show ?thesis by auto
    next
      assume "\<exists>k<length vs. snd (max_at_from vs (Suc i) m a) = Suc i + k
               \<and> vs ! k = fst (max_at_from vs (Suc i) m a) \<and> m < vs ! k \<and> (\<forall>j<k. vs ! j < vs ! k)"
      then obtain k where k: "k < length vs" "snd (max_at_from vs (Suc i) m a) = Suc i + k"
        "vs ! k = fst (max_at_from vs (Suc i) m a)" "m < vs ! k" "\<forall>j<k. vs ! j < vs ! k" by blast
      have "\<forall>j<Suc k. (v # vs) ! j < (v # vs) ! Suc k"
        using k(4,5) False by (auto simp: less_Suc_eq_0_disj)
      with False k show ?thesis by (auto intro!: exI [of _ "Suc k"])
    qed
  qed
qed


lemma Max_at_dat_cong: "m_dat a = m_dat b \<Longrightarrow> Max_at a = Max_at b"
  by (simp add: Max_at_def)

lemma Max_at_first_max:
  assumes "m_dat t \<noteq> []"
  shows "fst (Max_at t) = Max (set (m_dat t)) \<and> snd (Max_at t) < length (m_dat t)
         \<and> m_dat t ! snd (Max_at t) = fst (Max_at t)
         \<and> (\<forall>j<snd (Max_at t). m_dat t ! j < fst (Max_at t))"
proof -
  obtain v vs where d: "m_dat t = v # vs" using assms by (cases "m_dat t") auto
  have f: "fst (Max_at t) = Max (set (m_dat t))"
    using d by (simp add: Max_at_def max_at_from_fst)
  from max_at_from_snd [of vs 1 v 0] show ?thesis
  proof
    assume "snd (max_at_from vs 1 v 0) = 0 \<and> (\<forall>w\<in>set vs. w \<le> v)"
    with d f show ?thesis by (simp add: Max_at_def max_at_from_fst Max_insert2)
  next
    assume "\<exists>k<length vs. snd (max_at_from vs 1 v 0) = 1 + k \<and> vs ! k = fst (max_at_from vs 1 v 0)
              \<and> v < vs ! k \<and> (\<forall>j<k. vs ! j < vs ! k)"
    then obtain k where k: "k < length vs" "snd (max_at_from vs 1 v 0) = 1 + k"
      "vs ! k = fst (max_at_from vs 1 v 0)" "v < vs ! k" "\<forall>j<k. vs ! j < vs ! k" by blast
    have "\<forall>j<Suc k. (v # vs) ! j < vs ! k"
      using k(4,5) by (auto simp: less_Suc_eq_0_disj)
    with d f k show ?thesis by (simp add: Max_at_def)
  qed
qed

lemma max_into_subset_identity:
  assumes "mda_wf t"
  shows "max_into_subset t [0..<length (m_sizes t)] = t"
proof -
  let ?ds = "m_sizes t"
  have fib: "{x \<in> set (assignments ?ds). sub_assign x [0..<length ?ds] = y} = {y}"
    if "y \<in> set (assignments ?ds)" for y
    using that by (auto simp: set_assignments sub_assign_upt)
  have "m_dat (max_into_subset t [0..<length ?ds]) = map (GetVal t) (assignments ?ds)"
    using set_fiber_vals [OF assms] fib by (simp add: max_into_subset_def sub_assign_upt)
  then show ?thesis
    using GetVal_assignments [OF assms] by (simp add: sub_assign_upt)
qed

lemma max_into_subset_ExpandAndAdd:
  assumes "mda_wf big" "distinct inds" "\<forall>i\<in>set inds. i < length (m_sizes big)"
    and "\<forall>d\<in>set (m_sizes big). 0 < d"
    and "y \<in> set (assignments (sub_assign (m_sizes big) inds))"
  shows "GetVal (max_into_subset (ExpandAndAdd s big inds) inds) y
         = GetVal s y + GetVal (max_into_subset big inds) y"
proof -
  let ?F = "{x \<in> set (assignments (m_sizes big)). sub_assign x inds = y}"
  have fin: "finite ?F" by simp
  have ne: "?F \<noteq> {}" using sub_assign_surj [OF assms(2-5)] by blast
  have "GetVal (ExpandAndAdd s big inds) ` ?F = (\<lambda>x. GetVal s y + GetVal big x) ` ?F"
    using assms(1) by (auto simp: GetVal_ExpandAndAdd)
  then have "Max (GetVal (ExpandAndAdd s big inds) ` ?F) = GetVal s y + Max (GetVal big ` ?F)"
    using fin ne by (simp add: Max_image_add_const)
  then show ?thesis
    using assms(1,5) ExpandAndAdd_wf [OF assms(1)]
    by (simp add: GetVal_max_into_subset)
qed

section \<open>Maxima and max-marginals\<close>


lemma assignments_nonempty:
  "\<forall>d\<in>set ds. 0 < d \<Longrightarrow> assignments ds \<noteq> []"
  by (metis length_assignments less_not_refl list.size(3) prod_list_zero_iff)

lemma Max_at_fst:
  "m_dat t \<noteq> [] \<Longrightarrow> fst (Max_at t) = Max (set (m_dat t))"
  by (cases "m_dat t") (simp_all add: Max_at_def max_at_from_fst)

lemma Max_at_GetVal:
  assumes "mda_wf t" "\<forall>d\<in>set (m_sizes t). 0 < d"
  shows "fst (Max_at t) = Max (GetVal t ` set (assignments (m_sizes t)))"
proof -
  have "m_dat t \<noteq> []"
    using assms GetVal_assignments [OF assms(1)] assignments_nonempty by force
  then show ?thesis using Max_at_fst set_m_dat_GetVal [OF assms(1)] by simp
qed

lemma GetVal_le_max_into_subset:
  assumes "mda_wf big" "\<forall>i\<in>set inds. i < length (m_sizes big)"
    and "x \<in> set (assignments (m_sizes big))"
  shows "GetVal big x \<le> GetVal (max_into_subset big inds) (sub_assign x inds)"
  using assms sub_assign_assignments [OF assms(3,2)]
  by (auto simp: GetVal_max_into_subset intro!: Max_ge)

lemma Max_at_max_into_subset:
  assumes "mda_wf big" "distinct inds" "\<forall>i\<in>set inds. i < length (m_sizes big)"
    and "\<forall>d\<in>set (m_sizes big). 0 < d"
  shows "fst (Max_at (max_into_subset big inds)) = fst (Max_at big)"
proof -
  let ?ds = "m_sizes big" and ?sd = "sub_assign (m_sizes big) inds"
  let ?A = "set (assignments ?ds)" and ?Y = "set (assignments ?sd)"
  let ?M = "max_into_subset big inds"
  have posd: "\<forall>d\<in>set ?sd. 0 < d" using assms(3,4) by (auto simp: sub_assign_def)
  have A: "finite ?A" "?A \<noteq> {}" using assignments_nonempty [OF assms(4)] by auto
  have Y: "finite ?Y" "?Y \<noteq> {}" using assignments_nonempty [OF posd] by auto
  have lhs: "fst (Max_at ?M) = Max (GetVal ?M ` ?Y)"
    using Max_at_GetVal [OF max_into_subset_wf] posd by simp
  have rhs: "fst (Max_at big) = Max (GetVal big ` ?A)"
    using Max_at_GetVal [OF assms(1,4)] .
  have le: "GetVal ?M y \<le> Max (GetVal big ` ?A)" if y: "y \<in> ?Y" for y
  proof -
    obtain x where "x \<in> ?A" "sub_assign x inds = y"
      using sub_assign_surj [OF assms(2,3,4) y] by blast
    then have ne: "{x \<in> ?A. sub_assign x inds = y} \<noteq> {}" by blast
    show ?thesis using GetVal_max_into_subset [OF assms(1) y] A ne
      by (auto intro!: Max_mono)
  qed
  obtain x0 where x0: "x0 \<in> ?A" "Max (GetVal big ` ?A) = GetVal big x0"
    using Max_image_attained [OF A] by blast
  have "GetVal big x0 \<le> GetVal ?M (sub_assign x0 inds)"
    using GetVal_le_max_into_subset [OF assms(1,3) x0(1)] .
  moreover have "sub_assign x0 inds \<in> ?Y" using sub_assign_assignments [OF x0(1) assms(3)] .
  ultimately have ge: "Max (GetVal big ` ?A) \<le> Max (GetVal ?M ` ?Y)"
    using x0(2) Y by (auto intro: order_trans [OF _ Max_ge])
  have "Max (GetVal ?M ` ?Y) \<le> Max (GetVal big ` ?A)" using le Y by simp
  with ge lhs rhs show ?thesis by simp
qed



lemma mda_eqI:
  assumes "m_sizes a = m_sizes b" "mda_wf a" "mda_wf b"
    and "\<forall>x\<in>set (assignments (m_sizes a)). GetVal a x = GetVal b x"
  shows "a = b"
proof -
  have "m_dat a = m_dat b"
    using GetVal_assignments [OF assms(2)] GetVal_assignments [OF assms(3)] assms(1,4)
    by (metis map_eq_conv)
  with assms(1) show ?thesis by simp
qed

lemma GetVal_le_Max_at:
  assumes "mda_wf t" "x \<in> set (assignments (m_sizes t))"
  shows "GetVal t x \<le> fst (Max_at t)"
proof -
  have "m_dat t \<noteq> []" using GetVal_in_set [OF assms] by auto
  then show ?thesis using Max_at_fst GetVal_in_set [OF assms] by auto
qed

lemma Max_at_vec_scale:
  assumes "m_dat t \<noteq> []" "0 \<le> c"
  shows "fst (Max_at (vec_scale t c)) = fst (Max_at t) * c"
proof -
  have "set (m_dat (vec_scale t c)) = (\<lambda>v. v * c) ` set (m_dat t)"
    by (simp add: vec_scale_def)
  then show ?thesis
    using assms Max_at_fst [of t] Max_at_fst [of "vec_scale t c"]
      Max_image_mult_const [of "set (m_dat t)" c "\<lambda>v. v"]
    by (simp add: vec_scale_def)
qed

lemma Vec_Max_Max:
  "xs \<noteq> [] \<Longrightarrow> Vec_Max xs = Max (set xs)"
proof (cases xs)
  case (Cons v vs)
  have "(\<lambda>w m. if w > m then w else m) = (max :: real \<Rightarrow> real \<Rightarrow> real)"
    by (auto simp: fun_eq_iff max_def)
  then have "Vec_Max xs = fold max vs v" using Cons by (simp add: Vec_Max_def)
  also have "\<dots> = fst (max_at_from vs 1 v 0)" by (simp add: max_at_from_fold)
  also have "\<dots> = Max (set xs)" using Cons by (simp add: max_at_from_fst)
  finally show ?thesis .
qed simp

text \<open>C12.  \<open>Max(max_at)\<close> of a non-empty table returns the value \<open>Vec::Max\<close>
  returns, together with the first flat position holding it: the scan replaces the
  incumbent only on a strictly larger value, so every earlier entry is strictly
  smaller.\<close>

theorem Max_at_Vec_Max:
  assumes "m_dat t \<noteq> []"
  shows "fst (Max_at t) = Vec_Max (m_dat t) \<and> snd (Max_at t) < length (m_dat t)
         \<and> m_dat t ! snd (Max_at t) = fst (Max_at t)
         \<and> (\<forall>j<snd (Max_at t). m_dat t ! j < fst (Max_at t))"
  using Max_at_first_max [OF assms] Vec_Max_Max [OF assms] by argo

text \<open>C10.  Broadcasting a sub-table into a big table (\<open>ExpandAndAdd\<close>) and
  max-marginalising back onto the same dimensions gives the old max-marginal plus
  the sub-table, added elementwise as \<open>Vec::operator+=\<close> does.\<close>

theorem max_into_subset_ExpandAndAdd_table:
  assumes "mda_wf big" "distinct inds" "\<forall>i\<in>set inds. i < length (m_sizes big)"
    and "\<forall>d\<in>set (m_sizes big). 0 < d" and "m_sizes s = sub_assign (m_sizes big) inds"
  shows "max_into_subset (ExpandAndAdd s big inds) inds = vec_add (max_into_subset big inds) s"
proof (rule mda_eqI)
  show "\<forall>y\<in>set (assignments (m_sizes (max_into_subset (ExpandAndAdd s big inds) inds))).
          GetVal (max_into_subset (ExpandAndAdd s big inds) inds) y = GetVal (vec_add (max_into_subset big inds) s) y"
    using max_into_subset_ExpandAndAdd [OF assms(1-4)] assms(5)
    by (simp add: GetVal_vec_add max_into_subset_wf)
qed (simp_all add: max_into_subset_wf vec_ops_wf)

text \<open>C11.  With the identity index map, max-marginalisation returns the table
  unchanged and broadcasting is plain elementwise addition (\<open>Vec::operator+=\<close>),
  which is the shortcut \<open>UpdateMsgs\<close> takes for an intersection as large as
  the region.\<close>

theorem identity_projection:
  assumes "mda_wf t" and "m_sizes s = m_sizes t"
  shows "max_into_subset t [0..<length (m_sizes t)] = t
       \<and> ExpandAndAdd s t [0..<length (m_sizes t)] = vec_add t s"
proof -
  have "ExpandAndAdd s t [0..<length (m_sizes t)] = vec_add t s"
  proof (rule mda_eqI)
    show "\<forall>x\<in>set (assignments (m_sizes (ExpandAndAdd s t [0..<length (m_sizes t)]))).
            GetVal (ExpandAndAdd s t [0..<length (m_sizes t)]) x = GetVal (vec_add t s) x"
      using assms by (simp add: GetVal_ExpandAndAdd GetVal_vec_add set_assignments sub_assign_upt)
  qed (use assms in \<open>simp_all add: ExpandAndAdd_wf vec_ops_wf\<close>)
  then show ?thesis using max_into_subset_identity [OF assms(1)] by simp
qed

theorem identity_projection_witness:
  "mda_wf \<lparr>m_sizes = [2, 3], m_dat = [1, 2, 3, 4, 5, 6]\<rparr>
   \<and> m_sizes \<lparr>m_sizes = [2, 3], m_dat = [0, 0, 0, 0, 0, 1]\<rparr> = m_sizes \<lparr>m_sizes = [2, 3], m_dat = [1, 2, 3, 4, 5, 6]\<rparr>
   \<and> max_into_subset \<lparr>m_sizes = [2, 3], m_dat = [1, 2, 3, 4, 5, 6]\<rparr> [0, 1] = \<lparr>m_sizes = [2, 3], m_dat = [1, 2, 3, 4, 5, 6]\<rparr>
   \<and> ExpandAndAdd \<lparr>m_sizes = [2, 3], m_dat = [0, 0, 0, 0, 0, 1]\<rparr> \<lparr>m_sizes = [2, 3], m_dat = [1, 2, 3, 4, 5, 6]\<rparr> [0, 1]
       = \<lparr>m_sizes = [2, 3], m_dat = [1, 2, 3, 4, 5, 7]\<rparr>"
proof -
  have h: "mda_wf \<lparr>m_sizes = [2, 3], m_dat = [1, 2, 3, 4, 5, 6]\<rparr>" by (simp add: mda_wf_def)
  have i: "[0, 1] = [0..<length (m_sizes \<lparr>m_sizes = [2::nat, 3], m_dat = [1, 2, 3, 4, 5, 6::real]\<rparr>)]" by simp
  have v: "vec_add \<lparr>m_sizes = [2, 3], m_dat = [1, 2, 3, 4, 5, 6]\<rparr> \<lparr>m_sizes = [2, 3], m_dat = [0, 0, 0, 0, 0, 1]\<rparr>
      = \<lparr>m_sizes = [2, 3], m_dat = [1, 2, 3, 4, 5, 7]\<rparr>" by code_simp
  show ?thesis
    using identity_projection [OF h, of "\<lparr>m_sizes = [2, 3], m_dat = [0, 0, 0, 0, 0, 1]\<rparr>"] h v
    unfolding i [symmetric] by simp
qed

theorem max_into_subset_ExpandAndAdd_table_witness:
  "max_into_subset (ExpandAndAdd \<lparr>m_sizes = [2], m_dat = [10, 20]\<rparr> \<lparr>m_sizes = [2, 2], m_dat = [1, 5, 3, 2]\<rparr> [1]) [1]
   = vec_add (max_into_subset \<lparr>m_sizes = [2, 2], m_dat = [1, 5, 3, 2]\<rparr> [1]) \<lparr>m_sizes = [2], m_dat = [10, 20]\<rparr>
   \<and> max_into_subset \<lparr>m_sizes = [2, 2], m_dat = [1, 5, 3, 2]\<rparr> [1] = \<lparr>m_sizes = [2], m_dat = [3, 5]\<rparr>"
proof -
  have a: "sub_assign [2::nat, 2] [1::nat] = [2]" by (simp add: sub_assign_def)
  have m: "max_into_subset \<lparr>m_sizes = [2, 2], m_dat = [1, 5, 3, 2]\<rparr> [1] = \<lparr>m_sizes = [2], m_dat = [3, 5]\<rparr>" by code_simp
  show ?thesis
    using max_into_subset_ExpandAndAdd_table [of "\<lparr>m_sizes = [2, 2], m_dat = [1, 5, 3, 2]\<rparr>" "[1]" "\<lparr>m_sizes = [2], m_dat = [10, 20]\<rparr>"] a m
    by (simp add: mda_wf_def)
qed

theorem Max_at_Vec_Max_witness:
  "m_dat \<lparr>m_sizes = [3], m_dat = [1, 4, 4]\<rparr> \<noteq> [] \<and> Max_at \<lparr>m_sizes = [3], m_dat = [1, 4, 4]\<rparr> = (4, 1)
   \<and> Vec_Max [1, 4, 4] = 4
   \<and> m_dat \<lparr>m_sizes = [3], m_dat = [1, 4, 4]\<rparr> ! 0 < 4"
proof -
  have "Max_at \<lparr>m_sizes = [3], m_dat = [1, 4, 4]\<rparr> = (4, 1)" by code_simp
  then show ?thesis using Max_at_Vec_Max [of "\<lparr>m_sizes = [3], m_dat = [1, 4, 4]\<rparr>"] by auto
qed
end
