(* ===== verification/MPLP_Solver.thy ===== *)
theory MPLP_Solver
  imports Region
begin

text \<open>
  The solver \<open>MPLPAlg\<close> of \<open>src/src/mplp_alg.cpp\<close> (lines 198--1020): the catalogue
  of intersection sets, the arena of aggregated beliefs, the regions, the evidence,
  the decoded assignment and the incumbent, with the operations that build them
  (\<open>Init\<close>), score an assignment (\<open>IntVal\<close>, \<open>UpdateResult\<close>), decode
  (\<open>LocalDecode\<close>), iterate (\<open>RunMPLP\<close>), tighten (\<open>AddAllEdgeIntersections\<close>)
  and decimate (\<open>gap\<close>, \<open>RunDecimation\<close>).

  External effects are explicit: the result file is the list \<open>written\<close> of
  assignments appended by \<open>Write\<close>; the clock is the field \<open>elapsed\<close> (seconds
  since \<open>start\<close>), set by the environment (\<open>RunMPLP\<close> reads it through a clock
  function); \<open>rand()/RAND_MAX\<close> is a noise function given to \<open>Init\<close>.  The header
  constants \<open>MPLP_huge\<close> and \<open>MPLP_MIN_APP_TIME\<close> (not in the sources) are the
  fields \<open>huge\<close> and \<open>min_app_time\<close>.
\<close>

record mplp_state =
  m_var_sizes :: "nat list"
  m_all_intersects :: "var list list"
  m_sum_into_intersects :: "mdarr list"
  m_single_node_lambdas :: "mdarr list"
  m_all_regions :: "region list"
  m_region_lambdas :: "mdarr list"
  m_intersect_map :: "var \<times> var \<rightharpoonup> handle"
  evidence :: "var \<rightharpoonup> nat"
  m_decoded_res :: "nat list"
  m_best_decoded_res :: "nat list"
  m_best_val :: real
  last_obj :: real
  obj_del :: real
  total_mplp_iterations :: nat
  previous_run_of_global_decoding :: nat
  CSP_instance :: bool
  written :: "nat list list"
  elapsed :: real
  time_limit :: int
  huge :: real
  min_app_time :: real

section \<open>Construction of the solver object\<close>

text \<open>The member initialisers of the \<open>MPLPAlg\<close> constructor (line 202).\<close>

definition MPLPAlg_new :: "int \<Rightarrow> real \<Rightarrow> real \<Rightarrow> (var \<rightharpoonup> nat) \<Rightarrow> mplp_state" where
  "MPLPAlg_new tlim hg mat ev =
     \<lparr>m_var_sizes = [], m_all_intersects = [], m_sum_into_intersects = [],
      m_single_node_lambdas = [], m_all_regions = [], m_region_lambdas = [],
      m_intersect_map = Map.empty, evidence = ev, m_decoded_res = [], m_best_decoded_res = [],
      m_best_val = - hg, last_obj = hg, obj_del = hg, total_mplp_iterations = 0,
      previous_run_of_global_decoding = 0, CSP_instance = False, written = [],
      elapsed = 0, time_limit = tlim, huge = hg, min_app_time = mat\<rparr>"

text \<open>\<open>std::map::insert\<close> keeps an existing entry.\<close>

definition map_insert :: "('k \<rightharpoonup> 'v) \<Rightarrow> 'k \<Rightarrow> 'v \<Rightarrow> ('k \<rightharpoonup> 'v)" where
  "map_insert m k v = (if k \<in> dom m then m else m(k \<mapsto> v))"

text \<open>The key of an edge: the two variables sorted.\<close>

definition edge_key :: "var list \<Rightarrow> var \<times> var" where
  "edge_key inds = (let t = sort inds in (t ! 0, t ! 1))"

section \<open>Scoring and decoding\<close>

text \<open>\<open>MPLPAlg::Write\<close> (lines 605--628): append the decoded assignment to the
  result file.\<close>

definition Write :: "mplp_state \<Rightarrow> mplp_state" where
  "Write s = s\<lparr>written := written s @ [m_decoded_res s]\<rparr>"

text \<open>\<open>MPLPAlg::IntVal\<close> (lines 545--561): the original potentials at an
  assignment; regions without a potential (\<open>m_n_prodsize = 0\<close>) are skipped.\<close>

definition IntVal :: "mplp_state \<Rightarrow> nat list \<Rightarrow> real" where
  "IntVal s a =
     sum_list (map (\<lambda>ri. if m_dat (m_region_lambdas s ! ri) \<noteq> []
                         then GetVal (m_region_lambdas s ! ri) (map ((!) a) (m_region_inds (m_all_regions s ! ri)))
                         else 0) [0..<length (m_all_regions s)])
     + sum_list (map (\<lambda>ni. m_dat (m_single_node_lambdas s ! ni) ! (a ! ni)) [0..<length (m_var_sizes s)])"

text \<open>\<open>MPLPAlg::UpdateResult\<close> (lines 584--598): a strictly better score replaces
  the incumbent, and is written out unless the deadline is too close.\<close>

definition UpdateResult :: "mplp_state \<Rightarrow> real \<times> mplp_state" where
  "UpdateResult s =
     (let iv = IntVal s (m_decoded_res s) in
      if iv > m_best_val s then
        (iv, (if real_of_int (time_limit s) - elapsed s > min_app_time s then Write s else s)
               \<lparr>m_best_decoded_res := m_decoded_res s, m_best_val := iv\<rparr>)
      else (iv, s))"

text \<open>One iteration of the loop of \<open>MPLPAlg::LocalDecode\<close> (lines 566--575).\<close>

definition LocalDecode_step :: "nat \<Rightarrow> real \<times> mplp_state \<Rightarrow> real \<times> mplp_state" where
  "LocalDecode_step si =
     (\<lambda>(obj, s). let (v, ma) = Max_at (m_sum_into_intersects s ! si); I = m_all_intersects s ! si in
        (obj + v, if length I = 1 \<and> evidence s (I ! 0) = None
                  then s\<lparr>m_decoded_res := (m_decoded_res s)[I ! 0 := ma]\<rparr> else s))"

text \<open>\<open>MPLPAlg::LocalDecode\<close> (lines 563--578): returns the dual objective.\<close>

definition LocalDecode :: "mplp_state \<Rightarrow> real \<times> mplp_state" where
  "LocalDecode s =
     (let (obj, s1) = fold LocalDecode_step [0..<length (m_sum_into_intersects s)] (0, s)
      in (obj, snd (UpdateResult s1)))"

section \<open>The iteration\<close>

text \<open>One sweep over the regions in catalogue order (lines 389--391).\<close>

definition UpdateAll_step :: "nat \<Rightarrow> region list \<times> mdarr list \<Rightarrow> region list \<times> mdarr list" where
  "UpdateAll_step ri = (\<lambda>(rs, S). let (r', S') = UpdateMsgs (rs ! ri) S in (rs[ri := r'], S'))"

definition UpdateAll :: "mplp_state \<Rightarrow> mplp_state" where
  "UpdateAll s =
     (let (rs, S) = fold UpdateAll_step [0..<length (m_all_regions s)] (m_all_regions s, m_sum_into_intersects s)
      in s\<lparr>m_all_regions := rs, m_sum_into_intersects := S\<rparr>)"

text \<open>One round of \<open>MPLPAlg::RunMPLP\<close> (lines 389--416): a sweep, the iteration
  counter, decoding, the objective bookkeeping, the clock read, and the one-time
  global decoding a third of the way through the time limit (\<open>time_limit\<close> is a
  \<open>clock_t\<close>, so \<open>time_limit/3\<close> is integer division).  The global decoding
  routine is a parameter \<open>gd\<close>.\<close>

definition RunMPLP_round ::
  "(mplp_state \<Rightarrow> mplp_state) \<Rightarrow> (nat \<Rightarrow> real) \<Rightarrow> mplp_state \<Rightarrow> real \<times> mplp_state" where
  "RunMPLP_round gd clk s =
     (let s1 = UpdateAll s;
          s2 = s1\<lparr>total_mplp_iterations := Suc (total_mplp_iterations s1)\<rparr>;
          (obj, s3) = LocalDecode s2;
          s4 = s3\<lparr>obj_del := last_obj s3 - obj, last_obj := obj, elapsed := clk (total_mplp_iterations s3)\<rparr>
      in (obj, if previous_run_of_global_decoding s4 = 0
                  \<and> elapsed s4 > real_of_int (time_limit s4 div 3) then gd s4 else s4))"

text \<open>The loop of \<open>RunMPLP\<close> (lines 387--422): at most \<open>niter\<close> rounds, leaving
  early on a small objective change (only after round 17) or a small integrality
  gap.\<close>

fun RunMPLP_loop ::
  "(mplp_state \<Rightarrow> mplp_state) \<Rightarrow> (nat \<Rightarrow> real) \<Rightarrow> real \<Rightarrow> real \<Rightarrow> nat \<Rightarrow> nat \<Rightarrow> mplp_state \<Rightarrow> mplp_state" where
  "RunMPLP_loop gd clk thr1 thr2 it 0 s = s"
| "RunMPLP_loop gd clk thr1 thr2 it (Suc k) s =
     (let (obj, s') = RunMPLP_round gd clk s in
      if obj_del s' < thr1 \<and> it > 16 then s'
      else if obj - m_best_val s' < thr2 then s'
      else RunMPLP_loop gd clk thr1 thr2 (Suc it) k s')"

definition RunMPLP ::
  "(mplp_state \<Rightarrow> mplp_state) \<Rightarrow> (nat \<Rightarrow> real) \<Rightarrow> nat \<Rightarrow> real \<Rightarrow> real \<Rightarrow> mplp_state \<Rightarrow> mplp_state" where
  "RunMPLP gd clk niter obj_del_thr int_gap_thr s = RunMPLP_loop gd clk obj_del_thr int_gap_thr 0 niter s"

section \<open>The catalogue of intersection sets\<close>

text \<open>\<open>MPLPAlg::AddIntersectionSet\<close> (lines 482--510): append the set, register an
  edge in the lookup, and give it a zero belief table; returns the new handle.\<close>

definition AddIntersectionSet :: "mplp_state \<Rightarrow> var list \<Rightarrow> handle \<times> mplp_state" where
  "AddIntersectionSet s inds =
     (let ai = m_all_intersects s @ [inds]; loc = length ai - 1 in
      (loc, s\<lparr>m_all_intersects := ai,
              m_intersect_map := (if length inds = 2 then map_insert (m_intersect_map s) (edge_key inds) loc
                                  else m_intersect_map s),
              m_sum_into_intersects := m_sum_into_intersects s @ [MulDimArr_zero (map ((!) (m_var_sizes s)) inds)]\<rparr>))"

text \<open>\<open>MPLPAlg::FindIntersectionSet\<close> (lines 515--543): an edge is looked up in
  the map, any other set by a linear search comparing sorted variable lists;
  \<open>None\<close> stands for the C++ return value \<open>-1\<close>.\<close>

definition FindIntersectionSet :: "mplp_state \<Rightarrow> var list \<Rightarrow> handle option" where
  "FindIntersectionSet s inds =
     (let t = sort inds in
      if length t = 2 then m_intersect_map s (t ! 0, t ! 1)
      else find (\<lambda>i. sort (m_all_intersects s ! i) = t) [0..<length (m_all_intersects s)])"

text \<open>\<open>MPLPAlg::AddRegion\<close> (lines 469--480): a region without a potential, with
  a fresh intersection set of its own.\<close>

definition AddRegion :: "mplp_state \<Rightarrow> var list \<Rightarrow> handle list \<Rightarrow> handle \<times> mplp_state" where
  "AddRegion s inds iinds =
     (let (loc, s1) = AddIntersectionSet s inds;
          reg = Region inds (m_all_intersects s1) iinds (m_var_sizes s1) loc
      in (loc, s1\<lparr>m_all_regions := m_all_regions s1 @ [reg],
                  m_region_lambdas := m_region_lambdas s1 @ [MulDimArr_empty]\<rparr>))"

text \<open>The pairs \<open>(vi, vj)\<close>, \<open>vi < vj\<close>, of the two nested loops of
  \<open>AddAllEdgeIntersections\<close> (lines 439--443).\<close>

definition region_pairs :: "nat \<Rightarrow> (nat \<times> nat) list" where
  "region_pairs n = concat (map (\<lambda>vi. map (\<lambda>vj. (vi, vj)) [Suc vi..<n]) [0..<n - 1])"

text \<open>The body of the inner loop (lines 440--459): find or add the edge
  intersection of the pair and register it with the region.\<close>

definition edge_step :: "nat \<Rightarrow> nat \<times> nat \<Rightarrow> mplp_state \<Rightarrow> mplp_state" where
  "edge_step ri = (\<lambda>(vi, vj) s.
     let r = m_all_regions s ! ri; i = m_region_inds r ! vi; j = m_region_inds r ! vj;
         (loc, s1) = (case FindIntersectionSet s [i, j] of
                        None \<Rightarrow> AddIntersectionSet s [i, j]
                      | Some l \<Rightarrow> (l, s))
     in s1\<lparr>m_all_regions := (m_all_regions s1)[ri :=
            Region_AddIntersectionSet (m_all_regions s1 ! ri) loc (m_all_intersects s1) (m_var_sizes s1)]\<rparr>)"

text \<open>\<open>MPLPAlg::AddAllEdgeIntersections\<close> (lines 426--464).\<close>

definition AddAllEdgeIntersections :: "mplp_state \<Rightarrow> mplp_state" where
  "AddAllEdgeIntersections s =
     fold (\<lambda>ri s. let n = length (m_region_inds (m_all_regions s ! ri)) in
                   if n \<le> 2 then s else fold (edge_step ri) (region_pairs n) s)
          [0..<length (m_all_regions s)] s"

section \<open>Gaps and decimation\<close>

text \<open>The scan of \<open>MPLPAlg::gap\<close> (lines 1010--1018): best value, second best
  value and the (first) state of the best.\<close>

fun gap_loop :: "real list \<Rightarrow> nat \<Rightarrow> real \<Rightarrow> real \<Rightarrow> nat \<Rightarrow> real \<times> real \<times> nat" where
  "gap_loop [] st m1 m2 a = (m1, m2, a)"
| "gap_loop (m # ms) st m1 m2 a =
     (if m > m1 then gap_loop ms (Suc st) m m1 st
      else if m > m2 then gap_loop ms (Suc st) m1 m a
      else gap_loop ms (Suc st) m1 m2 a)"

text \<open>\<open>MPLPAlg::gap\<close> (lines 1004--1020).  \<open>max_at\<close> is an in/out reference: when
  no state beats \<open>-MPLP_huge\<close> it keeps the caller's value.\<close>

definition gap :: "mplp_state \<Rightarrow> var \<Rightarrow> nat \<Rightarrow> real \<times> nat" where
  "gap s n a0 =
     (if m_var_sizes s ! n < 2 then (huge s, 0)
      else let (m1, m2, a) = gap_loop (map (\<lambda>st. m_dat (m_sum_into_intersects s ! n) ! st) [0..<m_var_sizes s ! n])
                                      0 (- huge s) (- huge s) a0
           in (m1 - m2, a))"

text \<open>Fixing a variable (lines 986--995, repeated in both global decodings): it
  becomes evidence with its decoded state, and every other state of its singleton
  belief is driven to \<open>-MPLP_huge\<close>.\<close>

definition fix_variable :: "mplp_state \<Rightarrow> var \<Rightarrow> nat \<Rightarrow> mplp_state" where
  "fix_variable s v a =
     s\<lparr>evidence := (evidence s)(v \<mapsto> a),
       m_decoded_res := (m_decoded_res s)[v := a],
       m_sum_into_intersects := (m_sum_into_intersects s)[v :=
          (m_sum_into_intersects s ! v)\<lparr>m_dat := fold (\<lambda>k d. d[k := - huge s])
                 (filter (\<lambda>k. k \<noteq> a) [0..<m_var_sizes s ! v]) (m_dat (m_sum_into_intersects s ! v))\<rparr>]\<rparr>"

text \<open>The variables not in evidence, in increasing order (lines 960--964).\<close>

definition not_decoded :: "mplp_state \<Rightarrow> var list" where
  "not_decoded s = filter (\<lambda>i. evidence s i = None) [0..<length (m_var_sizes s)]"

text \<open>The first loop of \<open>RunDecimation\<close> (lines 967--975): every free variable's
  gap and best state, and the biggest gap; \<open>m\<close> is threaded through the calls.
  The C++ \<open>m\<close> starts uninitialised (line 965); the model starts it at \<open>0\<close>.\<close>

fun dec_gaps :: "mplp_state \<Rightarrow> var list \<Rightarrow> real \<Rightarrow> nat \<Rightarrow> (var \<Rightarrow> real) \<Rightarrow> (var \<Rightarrow> nat)
                 \<Rightarrow> real \<times> (var \<Rightarrow> real) \<times> (var \<Rightarrow> nat)" where
  "dec_gaps s [] big m gv ma = (big, gv, ma)"
| "dec_gaps s (i # is) big m gv ma =
     (let (g, m') = gap s i m in
      dec_gaps s is (if g \<ge> big then g else big) m' (gv(i := g)) (ma(i := m')))"

text \<open>\<open>MPLPAlg::RunDecimation\<close> (lines 950--1002): every free variable whose gap
  reaches the biggest one is fixed permanently; the result says whether any was.\<close>

definition RunDecimation :: "mplp_state \<Rightarrow> bool \<times> mplp_state" where
  "RunDecimation s =
     (let nd = not_decoded s;
          (big, gv, ma) = dec_gaps s nd (- huge s) 0 (\<lambda>_. 0) (\<lambda>_. 0);
          sel = filter (\<lambda>i. gv i \<ge> big) nd
      in (sel \<noteq> [], fold (\<lambda>i s. fix_variable s i (ma i)) sel s))"

section \<open>Building the model\<close>

text \<open>The body of the region loop of \<open>MPLPAlg::Init\<close> (lines 273--323).  A
  one-variable region with a potential is folded into its singleton; any other
  region gets a new intersection set and a \<open>Region\<close> whose shared intersections
  are its variables' singletons (the variable indices double as handles).  Only a
  region with a potential pushes a belief table (line 304).\<close>

definition Init_region_step :: "var list \<times> real list \<Rightarrow> mplp_state \<Rightarrow> mplp_state" where
  "Init_region_step = (\<lambda>(inds, lams) s.
     let vs = m_var_sizes s; rsz = map ((!) vs) inds in
     if length inds = 1 \<and> lams \<noteq> [] then
       (let v = inds ! 0; lam = MulDimArr_of rsz lams in
        s\<lparr>m_sum_into_intersects := (m_sum_into_intersects s)[v := vec_add (m_sum_into_intersects s ! v) lam],
          m_single_node_lambdas := (m_single_node_lambdas s)[v := vec_add (m_single_node_lambdas s ! v) lam]\<rparr>)
     else
       (let ai = m_all_intersects s @ [inds]; loc = length ai - 1;
            reg = Region inds ai inds vs loc;
            s1 = (if lams \<noteq> [] then
                    s\<lparr>m_all_intersects := ai,
                      m_sum_into_intersects := m_sum_into_intersects s @ [MulDimArr_of rsz lams],
                      m_all_regions := m_all_regions s @ [reg],
                      m_region_lambdas := m_region_lambdas s @ [MulDimArr_of rsz lams]\<rparr>
                  else
                    s\<lparr>m_all_intersects := ai, m_all_regions := m_all_regions s @ [reg],
                      m_region_lambdas := m_region_lambdas s @ [MulDimArr_empty]\<rparr>)
        in if length inds = 2
           then s1\<lparr>m_intersect_map := map_insert (m_intersect_map s1) (edge_key inds) loc\<rparr>
           else s1))"

text \<open>The competition-mode block of \<open>Init\<close> (lines 338--375): a model with a
  zero dual objective and all-zero singleton beliefs is taken for a CSP and its
  singleton beliefs are perturbed by \<open>.01 * rand()/RAND_MAX\<close> (the function
  \<open>noise si loc\<close>).  \<open>CSP_instance\<close> is not assigned when the objective is not zero.\<close>

definition Init_uai :: "(nat \<Rightarrow> nat \<Rightarrow> real) \<Rightarrow> mplp_state \<Rightarrow> mplp_state" where
  "Init_uai noise s =
     (let s1 = snd (UpdateResult s); (obj, s2) = LocalDecode s1;
          n = length (m_var_sizes s2);
          isCSP = (\<forall>si\<in>set [0..<n]. \<forall>v\<in>set (m_dat (m_sum_into_intersects s2 ! si)). v = 0)
      in if obj = 0 then
           (if isCSP then
              s2\<lparr>CSP_instance := True,
                 m_sum_into_intersects := map (\<lambda>si. if si < n then
                     (m_sum_into_intersects s2 ! si)\<lparr>m_dat := map (\<lambda>loc. m_dat (m_sum_into_intersects s2 ! si) ! loc
                        + 0.01 * noise si loc) [0..<length (m_dat (m_sum_into_intersects s2 ! si))]\<rparr>
                     else m_sum_into_intersects s2 ! si) [0..<length (m_sum_into_intersects s2)]\<rparr>
            else s2\<lparr>CSP_instance := False\<rparr>)
         else s2)"

text \<open>\<open>MPLPAlg::Init\<close> (lines 255--379): singletons first, then the regions, then
  the decoded and incumbent assignments start at zero with the evidence copied in.\<close>

definition Init ::
  "bool \<Rightarrow> (nat \<Rightarrow> nat \<Rightarrow> real) \<Rightarrow> nat list \<Rightarrow> (var list \<times> real list) list \<Rightarrow> mplp_state \<Rightarrow> mplp_state" where
  "Init uai noise vs regs s0 =
     (let n = length vs;
          s1 = s0\<lparr>m_var_sizes := vs, m_all_intersects := map (\<lambda>si. [si]) [0..<n],
                  m_sum_into_intersects := map (\<lambda>si. MulDimArr_zero [vs ! si]) [0..<n],
                  m_single_node_lambdas := map (\<lambda>si. MulDimArr_zero [vs ! si]) [0..<n]\<rparr>;
          s2 = fold Init_region_step regs s1;
          dec = map (\<lambda>i. case evidence s2 i of Some v \<Rightarrow> v | None \<Rightarrow> 0) [0..<n];
          s3 = s2\<lparr>m_decoded_res := dec, m_best_decoded_res := dec\<rparr>
      in if uai then Init_uai noise s3 else s3)"

section \<open>Invariants\<close>

text \<open>The arena's tables are well formed and every region fits it.\<close>

definition solver_inv :: "mplp_state \<Rightarrow> bool" where
  "solver_inv s \<longleftrightarrow> tables_wf (m_sum_into_intersects s)
     \<and> (\<forall>r\<in>set (m_all_regions s). region_wf r (shapes (m_sum_into_intersects s)))"

text \<open>What \<open>RunMPLP\<close> needs of the global decoding routine: it restores the beliefs
  and the regions, leaves the objective bookkeeping alone and never lowers the
  incumbent.\<close>

definition gd_interface :: "(mplp_state \<Rightarrow> mplp_state) \<Rightarrow> bool" where
  "gd_interface gd \<longleftrightarrow> (\<forall>t. m_sum_into_intersects (gd t) = m_sum_into_intersects t
     \<and> m_all_regions (gd t) = m_all_regions t \<and> last_obj (gd t) = last_obj t
     \<and> obj_del (gd t) = obj_del t \<and> m_best_val t \<le> m_best_val (gd t))"

text \<open>The write of one iteration of \<open>LocalDecode\<close>'s loop (lines 571--574) as
  a function of the decoded assignment alone.\<close>

definition decode_upd :: "mplp_state \<Rightarrow> nat \<Rightarrow> nat list \<Rightarrow> nat list" where
  "decode_upd s = (\<lambda>si d. if length (m_all_intersects s ! si) = 1 \<and> evidence s (m_all_intersects s ! si ! 0) = None
       then d[m_all_intersects s ! si ! 0 := snd (Max_at (m_sum_into_intersects s ! si))] else d)"

section \<open>Decoding, sweeping and iterating\<close>


lemma UpdateResult_eq:
  "snd (UpdateResult s) = (if IntVal s (m_decoded_res s) > m_best_val s then
       (if real_of_int (time_limit s) - elapsed s > min_app_time s then Write s else s)
         \<lparr>m_best_decoded_res := m_decoded_res s, m_best_val := IntVal s (m_decoded_res s)\<rparr>
     else s)"
  by (simp add: UpdateResult_def Let_def)

lemma UpdateResult_frame [simp]:
  "m_sum_into_intersects (snd (UpdateResult s)) = m_sum_into_intersects s"
  "m_all_regions (snd (UpdateResult s)) = m_all_regions s"
  "m_all_intersects (snd (UpdateResult s)) = m_all_intersects s"
  "evidence (snd (UpdateResult s)) = evidence s"
  "m_decoded_res (snd (UpdateResult s)) = m_decoded_res s"
  "m_var_sizes (snd (UpdateResult s)) = m_var_sizes s"
  "last_obj (snd (UpdateResult s)) = last_obj s"
  "total_mplp_iterations (snd (UpdateResult s)) = total_mplp_iterations s"
  "previous_run_of_global_decoding (snd (UpdateResult s)) = previous_run_of_global_decoding s"
  "time_limit (snd (UpdateResult s)) = time_limit s"
  "elapsed (snd (UpdateResult s)) = elapsed s"
  by (simp_all add: UpdateResult_eq Write_def)

lemma UpdateResult_best:
  "m_best_val (snd (UpdateResult s)) = max (m_best_val s) (IntVal s (m_decoded_res s))"
  by (simp add: UpdateResult_eq Write_def)

lemma LocalDecode_step_eq:
  "LocalDecode_step si (ob, s) =
     (ob + fst (Max_at (m_sum_into_intersects s ! si)),
      if length (m_all_intersects s ! si) = 1 \<and> evidence s (m_all_intersects s ! si ! 0) = None
      then s\<lparr>m_decoded_res := (m_decoded_res s)[m_all_intersects s ! si ! 0 := snd (Max_at (m_sum_into_intersects s ! si))]\<rparr>
      else s)"
  by (simp add: LocalDecode_step_def Let_def split: prod.split)

lemma LocalDecode_fold:
  "fst (fold LocalDecode_step [0..<k] (ob, s))
     = ob + sum_list (map (\<lambda>si. fst (Max_at (m_sum_into_intersects s ! si))) [0..<k])
   \<and> (\<exists>d. snd (fold LocalDecode_step [0..<k] (ob, s)) = s\<lparr>m_decoded_res := d\<rparr>)"
proof (induction k)
  case 0
  then show ?case by (auto intro: exI [of _ "m_decoded_res s"])
next
  case (Suc k)
  obtain ob' d where eq: "fold LocalDecode_step [0..<k] (ob, s) = (ob', s\<lparr>m_decoded_res := d\<rparr>)"
    and ih: "ob' = ob + sum_list (map (\<lambda>si. fst (Max_at (m_sum_into_intersects s ! si))) [0..<k])"
    using Suc.IH by (metis prod.collapse)
  have "fold LocalDecode_step [0..<Suc k] (ob, s) = LocalDecode_step k (ob', s\<lparr>m_decoded_res := d\<rparr>)"
    using eq by simp
  then show ?case using ih by (auto simp: LocalDecode_step_eq)
qed

lemma LocalDecode_eq:
  obtains d where "LocalDecode s = (dual_obj (m_sum_into_intersects s),
                     snd (UpdateResult (s\<lparr>m_decoded_res := d\<rparr>)))"
proof -
  let ?n = "length (m_sum_into_intersects s)"
  obtain d where d: "snd (fold LocalDecode_step [0..<?n] (0, s)) = s\<lparr>m_decoded_res := d\<rparr>"
    using LocalDecode_fold [of ?n 0 s] by blast
  have "map (\<lambda>si. fst (Max_at (m_sum_into_intersects s ! si))) [0..<?n]
        = map (\<lambda>t. fst (Max_at t)) (m_sum_into_intersects s)"
    by (rule map_nth_upt_comp)
  then have f: "fst (fold LocalDecode_step [0..<?n] (0, s)) = dual_obj (m_sum_into_intersects s)"
    using LocalDecode_fold [of ?n 0 s] by (simp add: dual_obj_def)
  have "LocalDecode s = (fst (fold LocalDecode_step [0..<?n] (0, s)),
                         snd (UpdateResult (snd (fold LocalDecode_step [0..<?n] (0, s)))))"
    by (simp only: LocalDecode_def Let_def case_prod_beta)
  with f d show ?thesis using that by simp
qed


lemma LocalDecode_fold_exact:
  "snd (fold LocalDecode_step [0..<k] (ob, s))
     = s\<lparr>m_decoded_res := fold (decode_upd s) [0..<k] (m_decoded_res s)\<rparr>"
proof (induction k)
  case 0
  then show ?case by simp
next
  case (Suc k)
  obtain ob' where eq: "fold LocalDecode_step [0..<k] (ob, s)
       = (ob', s\<lparr>m_decoded_res := fold (decode_upd s) [0..<k] (m_decoded_res s)\<rparr>)"
    using Suc.IH by (metis prod.collapse)
  have "fold LocalDecode_step [0..<Suc k] (ob, s)
      = LocalDecode_step k (ob', s\<lparr>m_decoded_res := fold (decode_upd s) [0..<k] (m_decoded_res s)\<rparr>)"
    using eq by simp
  then show ?case by (simp add: LocalDecode_step_eq decode_upd_def)
qed

lemma LocalDecode_exact:
  "LocalDecode s = (dual_obj (m_sum_into_intersects s),
     snd (UpdateResult (s\<lparr>m_decoded_res := fold (decode_upd s) [0..<length (m_sum_into_intersects s)] (m_decoded_res s)\<rparr>)))"
proof -
  obtain d where "LocalDecode s = (dual_obj (m_sum_into_intersects s), snd (UpdateResult (s\<lparr>m_decoded_res := d\<rparr>)))"
    by (rule LocalDecode_eq)
  moreover have "LocalDecode s = (fst (LocalDecode s),
     snd (UpdateResult (s\<lparr>m_decoded_res := fold (decode_upd s) [0..<length (m_sum_into_intersects s)] (m_decoded_res s)\<rparr>)))"
    by (simp add: LocalDecode_def Let_def case_prod_beta LocalDecode_fold_exact)
  ultimately show ?thesis by simp
qed

lemma decode_upd_cond:
  "decode_upd s = (\<lambda>si d. if (length (m_all_intersects s ! si) = 1 \<and> evidence s (m_all_intersects s ! si ! 0) = None)
       then d[(\<lambda>si. m_all_intersects s ! si ! 0) si := (\<lambda>si. snd (Max_at (m_sum_into_intersects s ! si))) si] else d)"
  by (simp add: decode_upd_def)

lemma IntVal_cong:
  assumes "m_region_lambdas t = m_region_lambdas s" "m_all_regions t = m_all_regions s"
    "m_var_sizes t = m_var_sizes s" "m_single_node_lambdas t = m_single_node_lambdas s"
  shows "IntVal t = IntVal s"
  unfolding IntVal_def assms ..

lemma IntVal_frame [simp]:
  "IntVal (snd (UpdateResult s)) = IntVal s"
  "IntVal (s\<lparr>m_decoded_res := d\<rparr>) = IntVal s"
  by (rule IntVal_cong; simp add: UpdateResult_eq Write_def)+

lemma decode_upd_frame [simp]:
  "decode_upd (snd (UpdateResult s)) = decode_upd s"
  "decode_upd (s\<lparr>m_decoded_res := d\<rparr>) = decode_upd s"
  by (simp_all add: decode_upd_def cong: if_cong)

lemma UpdateResult_idem:
  "snd (UpdateResult (snd (UpdateResult s))) = snd (UpdateResult s)"
proof -
  have "\<not> IntVal (snd (UpdateResult s)) (m_decoded_res (snd (UpdateResult s))) > m_best_val (snd (UpdateResult s))"
    by (simp add: UpdateResult_best)
  then show ?thesis using UpdateResult_eq [of "snd (UpdateResult s)"] by simp
qed


lemma UpdateAll_loop:
  assumes "solver_inv s" "k \<le> length (m_all_regions s)"
    and "fold UpdateAll_step [0..<k] (m_all_regions s, m_sum_into_intersects s) = (rs, S)"
  shows "length rs = length (m_all_regions s) \<and> tables_wf S
    \<and> (\<forall>r\<in>set rs. region_wf r (shapes S)) \<and> shapes S = shapes (m_sum_into_intersects s)
    \<and> dual_obj S \<le> dual_obj (m_sum_into_intersects s)"
  using assms(2,3)
proof (induction k arbitrary: rs S)
  case 0
  then show ?case using assms(1) by (auto simp: solver_inv_def)
next
  case (Suc k)
  obtain rs0 S0 where eq0: "fold UpdateAll_step [0..<k] (m_all_regions s, m_sum_into_intersects s) = (rs0, S0)"
    by (cases "fold UpdateAll_step [0..<k] (m_all_regions s, m_sum_into_intersects s)") auto
  have IH: "length rs0 = length (m_all_regions s)" "tables_wf S0" "\<forall>r\<in>set rs0. region_wf r (shapes S0)"
    "shapes S0 = shapes (m_sum_into_intersects s)" "dual_obj S0 \<le> dual_obj (m_sum_into_intersects s)"
    using Suc.IH [OF _ eq0] Suc.prems(1) by auto
  obtain r' S' where upd: "UpdateMsgs (rs0 ! k) S0 = (r', S')" by (cases "UpdateMsgs (rs0 ! k) S0") auto
  have k: "k < length rs0" using IH(1) Suc.prems(1) by simp
  have wfk: "region_wf (rs0 ! k) (shapes S0)" using IH(3) nth_mem [OF k] by blast
  note P = UpdateMsgs_preserves_wf [OF wfk IH(2) upd]
  have "(rs, S) = UpdateAll_step k (rs0, S0)" using Suc.prems(2) eq0 by simp
  then have res: "rs = rs0[k := r']" "S = S'"
    using upd by (simp_all add: UpdateAll_step_def)
  have "\<forall>r\<in>set (rs0[k := r']). region_wf r (shapes S')"
    using IH(3) P by (auto dest: set_update_subset_insert [THEN subsetD])
  then show ?case
    using res IH P UpdateMsgs_dual_obj_le [OF wfk IH(2) upd] by simp
qed

lemma UpdateAll_frame [simp]:
  "last_obj (UpdateAll s) = last_obj s" "obj_del (UpdateAll s) = obj_del s"
  "m_best_val (UpdateAll s) = m_best_val s" "total_mplp_iterations (UpdateAll s) = total_mplp_iterations s"
  "previous_run_of_global_decoding (UpdateAll s) = previous_run_of_global_decoding s"
  "time_limit (UpdateAll s) = time_limit s" "evidence (UpdateAll s) = evidence s"
  "m_decoded_res (UpdateAll s) = m_decoded_res s" "m_all_intersects (UpdateAll s) = m_all_intersects s"
  "m_var_sizes (UpdateAll s) = m_var_sizes s"
  by (simp_all add: UpdateAll_def split: prod.split)

lemma UpdateAll_props:
  assumes "solver_inv s"
  shows "solver_inv (UpdateAll s)"
    and "shapes (m_sum_into_intersects (UpdateAll s)) = shapes (m_sum_into_intersects s)"
    and "dual_obj (m_sum_into_intersects (UpdateAll s)) \<le> dual_obj (m_sum_into_intersects s)"
    and "length (m_all_regions (UpdateAll s)) = length (m_all_regions s)"
    and "UpdateAll s = s\<lparr>m_all_regions := m_all_regions (UpdateAll s),
                         m_sum_into_intersects := m_sum_into_intersects (UpdateAll s)\<rparr>"
proof -
  obtain rs S where eq: "fold UpdateAll_step [0..<length (m_all_regions s)]
      (m_all_regions s, m_sum_into_intersects s) = (rs, S)"
    by (cases "fold UpdateAll_step [0..<length (m_all_regions s)] (m_all_regions s, m_sum_into_intersects s)") auto
  have U: "UpdateAll s = s\<lparr>m_all_regions := rs, m_sum_into_intersects := S\<rparr>"
    using eq by (simp add: UpdateAll_def)
  note L = UpdateAll_loop [OF assms order_refl eq]
  have "m_sum_into_intersects (UpdateAll s) = S" "m_all_regions (UpdateAll s) = rs" using U by simp_all
  moreover have "tables_wf S" "\<forall>r\<in>set rs. region_wf r (shapes S)" using L by blast+
  ultimately show "solver_inv (UpdateAll s)" by (simp add: solver_inv_def)
  show "shapes (m_sum_into_intersects (UpdateAll s)) = shapes (m_sum_into_intersects s)" using U L by simp
  show "dual_obj (m_sum_into_intersects (UpdateAll s)) \<le> dual_obj (m_sum_into_intersects s)" using U L by simp
  show "length (m_all_regions (UpdateAll s)) = length (m_all_regions s)" using U L by simp
  show "UpdateAll s = s\<lparr>m_all_regions := m_all_regions (UpdateAll s),
                         m_sum_into_intersects := m_sum_into_intersects (UpdateAll s)\<rparr>" using U by simp
qed


lemma RunMPLP_round_props:
  fixes clk :: "nat \<Rightarrow> real"
  assumes inv: "solver_inv s" and gd: "gd_interface gd"
  defines "s' \<equiv> snd (RunMPLP_round gd clk s)"
  shows "fst (RunMPLP_round gd clk s) = dual_obj (m_sum_into_intersects s')"
    and "solver_inv s'"
    and "dual_obj (m_sum_into_intersects s') \<le> dual_obj (m_sum_into_intersects s)"
    and "last_obj s' = dual_obj (m_sum_into_intersects s')"
    and "obj_del s' = last_obj s - dual_obj (m_sum_into_intersects s')"
    and "m_best_val s \<le> m_best_val s'"
proof -
  let ?s1 = "UpdateAll s"
  let ?s2 = "?s1\<lparr>total_mplp_iterations := Suc (total_mplp_iterations ?s1)\<rparr>"
  obtain d where LD: "LocalDecode ?s2 = (dual_obj (m_sum_into_intersects ?s2),
                       snd (UpdateResult (?s2\<lparr>m_decoded_res := d\<rparr>)))"
    using LocalDecode_eq by blast
  let ?s3 = "snd (UpdateResult (?s2\<lparr>m_decoded_res := d\<rparr>))"
  let ?obj = "dual_obj (m_sum_into_intersects ?s1)"
  let ?s4 = "?s3\<lparr>obj_del := last_obj ?s3 - ?obj, last_obj := ?obj, elapsed := clk (total_mplp_iterations ?s3)\<rparr>"
  have R: "RunMPLP_round gd clk s = (?obj, if previous_run_of_global_decoding ?s4 = 0
             \<and> elapsed ?s4 > real_of_int (time_limit ?s4 div 3) then gd ?s4 else ?s4)"
    using LD by (simp add: RunMPLP_round_def Let_def)
  have G: "m_sum_into_intersects s' = m_sum_into_intersects ?s4" "m_all_regions s' = m_all_regions ?s4"
    "last_obj s' = last_obj ?s4" "obj_del s' = obj_del ?s4" "m_best_val ?s4 \<le> m_best_val s'"
  proof -
    have "s' = gd ?s4 \<or> s' = ?s4" using R by (simp add: s'_def)
    moreover have "m_sum_into_intersects (gd ?s4) = m_sum_into_intersects ?s4
      \<and> m_all_regions (gd ?s4) = m_all_regions ?s4 \<and> last_obj (gd ?s4) = last_obj ?s4
      \<and> obj_del (gd ?s4) = obj_del ?s4 \<and> m_best_val ?s4 \<le> m_best_val (gd ?s4)"
      using gd unfolding gd_interface_def by blast
    ultimately show "m_sum_into_intersects s' = m_sum_into_intersects ?s4" "m_all_regions s' = m_all_regions ?s4"
      "last_obj s' = last_obj ?s4" "obj_del s' = obj_del ?s4" "m_best_val ?s4 \<le> m_best_val s'"
      by auto
  qed
  have S4: "m_sum_into_intersects ?s4 = m_sum_into_intersects ?s1" "m_all_regions ?s4 = m_all_regions ?s1"
    "last_obj ?s4 = ?obj" "obj_del ?s4 = last_obj s - ?obj" by simp_all
  have B: "m_best_val s \<le> m_best_val ?s4"
    using UpdateResult_best [of "?s2\<lparr>m_decoded_res := d\<rparr>"] by simp
  note U = UpdateAll_props [OF inv]
  show "fst (RunMPLP_round gd clk s) = dual_obj (m_sum_into_intersects s')" using R G S4 by simp
  show "solver_inv s'" using U(1) G S4 by (simp add: solver_inv_def)
  show "dual_obj (m_sum_into_intersects s') \<le> dual_obj (m_sum_into_intersects s)" using U(3) G S4 by simp
  show "last_obj s' = dual_obj (m_sum_into_intersects s')" using G S4 by simp
  show "obj_del s' = last_obj s - dual_obj (m_sum_into_intersects s')" using G S4 by simp
  show "m_best_val s \<le> m_best_val s'" using B G by simp
qed


lemma RunMPLP_loop_props:
  fixes clk :: "nat \<Rightarrow> real"
  assumes "solver_inv s" and gd: "gd_interface gd"
  shows "solver_inv (RunMPLP_loop gd clk t1 t2 it k s)
    \<and> dual_obj (m_sum_into_intersects (RunMPLP_loop gd clk t1 t2 it k s)) \<le> dual_obj (m_sum_into_intersects s)
    \<and> m_best_val s \<le> m_best_val (RunMPLP_loop gd clk t1 t2 it k s)
    \<and> (0 < k \<longrightarrow> last_obj (RunMPLP_loop gd clk t1 t2 it k s)
                  = dual_obj (m_sum_into_intersects (RunMPLP_loop gd clk t1 t2 it k s)))"
  using assms(1)
proof (induction k arbitrary: it s)
  case 0
  then show ?case by simp
next
  case (Suc k)
  obtain obj s1 where R: "RunMPLP_round gd clk s = (obj, s1)" by (cases "RunMPLP_round gd clk s") auto
  note P = RunMPLP_round_props [OF Suc.prems gd, of clk, unfolded R, simplified]
  have IH: "solver_inv (RunMPLP_loop gd clk t1 t2 (Suc it) k s1)
    \<and> dual_obj (m_sum_into_intersects (RunMPLP_loop gd clk t1 t2 (Suc it) k s1)) \<le> dual_obj (m_sum_into_intersects s1)
    \<and> m_best_val s1 \<le> m_best_val (RunMPLP_loop gd clk t1 t2 (Suc it) k s1)
    \<and> (0 < k \<longrightarrow> last_obj (RunMPLP_loop gd clk t1 t2 (Suc it) k s1)
          = dual_obj (m_sum_into_intersects (RunMPLP_loop gd clk t1 t2 (Suc it) k s1)))"
    using Suc.IH [OF P(2)] .
  show ?case
  proof (cases "(obj_del s1 < t1 \<and> 16 < it) \<or> obj - m_best_val s1 < t2")
    case True
    then have "RunMPLP_loop gd clk t1 t2 it (Suc k) s = s1" using R by auto
    then show ?thesis using P by simp
  next
    case False
    then have eq: "RunMPLP_loop gd clk t1 t2 it (Suc k) s = RunMPLP_loop gd clk t1 t2 (Suc it) k s1"
      using R by auto
    show ?thesis
    proof (cases k)
      case 0
      then show ?thesis using eq P by simp
    next
      case (Suc k')
      then show ?thesis using eq P IH by auto
    qed
  qed
qed

text \<open>C4.  \<open>LocalDecode\<close> returns the dual objective (the sum over every
  intersection of its maximum belief), leaves the beliefs, the regions and the
  evidence alone, keeps the length of the decoded assignment, and never changes
  the decoded state of a variable in evidence.\<close>

theorem LocalDecode_objective_and_evidence:
  "fst (LocalDecode s) = dual_obj (m_sum_into_intersects s)
   \<and> m_sum_into_intersects (snd (LocalDecode s)) = m_sum_into_intersects s
   \<and> m_all_regions (snd (LocalDecode s)) = m_all_regions s
   \<and> evidence (snd (LocalDecode s)) = evidence s
   \<and> length (m_decoded_res (snd (LocalDecode s))) = length (m_decoded_res s)
   \<and> (\<forall>v. evidence s v \<noteq> None \<longrightarrow> m_decoded_res (snd (LocalDecode s)) ! v = m_decoded_res s ! v)"
proof -
  have "m_decoded_res (snd (LocalDecode s)) ! v = m_decoded_res s ! v" if "evidence s v \<noteq> None" for v
    using that by (auto simp: LocalDecode_exact decode_upd_cond intro!: fold_cond_update_other)
  then show ?thesis unfolding LocalDecode_exact decode_upd_cond by simp
qed

text \<open>C5.  Decoding is idempotent: a second \<open>LocalDecode\<close> with no message update
  in between returns the same objective and leaves the whole state as the first
  one left it (same decoded assignment, same incumbent, nothing written).\<close>

theorem LocalDecode_idempotent:
  "LocalDecode (snd (LocalDecode s)) = LocalDecode s"
proof -
  let ?k = "length (m_sum_into_intersects s)"
  let ?D = "fold (decode_upd s) [0..<?k] (m_decoded_res s)"
  let ?s1 = "snd (UpdateResult (s\<lparr>m_decoded_res := ?D\<rparr>))"
  have L: "LocalDecode s = (dual_obj (m_sum_into_intersects s), ?s1)" by (rule LocalDecode_exact)
  have "fold (decode_upd s) [0..<?k] ?D = ?D"
    unfolding decode_upd_cond by (rule fold_cond_update_idem)
  then have "?s1\<lparr>m_decoded_res := fold (decode_upd ?s1) [0..<length (m_sum_into_intersects ?s1)] (m_decoded_res ?s1)\<rparr> = ?s1"
    by simp
  then have "LocalDecode ?s1 = (dual_obj (m_sum_into_intersects s), snd (UpdateResult ?s1))"
    by (subst LocalDecode_exact) simp
  then show ?thesis using L UpdateResult_idem by simp
qed


theorem LocalDecode_objective_and_evidence_witness:
  "evidence (Init False (\<lambda>_ _. 0) [2,2] [([0,1],[2,0,0,2])] (MPLPAlg_new 100 (10^40) 1 [0 \<mapsto> 1])) 0 = Some 1
   \<and> m_decoded_res (snd (LocalDecode (UpdateAll (Init False (\<lambda>_ _. 0) [2,2] [([0,1],[2,0,0,2])] (MPLPAlg_new 100 (10^40) 1 [0 \<mapsto> 1]))))) ! 0 = 1"
proof -
  have e: "evidence (UpdateAll (Init False (\<lambda>_ _. 0) [2,2] [([0,1],[2,0,0,2])] (MPLPAlg_new 100 (10^40) 1 [0 \<mapsto> 1]))) 0 = Some 1"
    by code_simp
  have d: "m_decoded_res (UpdateAll (Init False (\<lambda>_ _. 0) [2,2] [([0,1],[2,0,0,2])] (MPLPAlg_new 100 (10^40) 1 [0 \<mapsto> 1]))) ! 0 = 1"
    by code_simp
  show ?thesis using LocalDecode_objective_and_evidence [of "UpdateAll (Init False (\<lambda>_ _. 0) [2,2] [([0,1],[2,0,0,2])] (MPLPAlg_new 100 (10^40) 1 [0 \<mapsto> 1]))"] e d
    by (simp add: Init_def MPLPAlg_new_def)
qed

section \<open>Gaps and decimation\<close>

lemma gap_loop_max_at_from:
  "(fst (gap_loop xs st m1 m2 a), snd (snd (gap_loop xs st m1 m2 a))) = max_at_from xs st m1 a"
  by (induction xs arbitrary: st m1 m2 a) auto

lemma gap_loop_second_le:
  "m2 \<le> m1 \<Longrightarrow> fst (snd (gap_loop xs st m1 m2 a)) \<le> fst (gap_loop xs st m1 m2 a)"
  by (induction xs arbitrary: st m1 m2 a) auto

lemma gap_eq:
  "gap s n a0 = (if m_var_sizes s ! n < 2 then (huge s, 0)
     else (fst (gap_loop (map (\<lambda>st. m_dat (m_sum_into_intersects s ! n) ! st) [0..<m_var_sizes s ! n]) 0 (- huge s) (- huge s) a0)
           - fst (snd (gap_loop (map (\<lambda>st. m_dat (m_sum_into_intersects s ! n) ! st) [0..<m_var_sizes s ! n]) 0 (- huge s) (- huge s) a0)),
           snd (snd (gap_loop (map (\<lambda>st. m_dat (m_sum_into_intersects s ! n) ! st) [0..<m_var_sizes s ! n]) 0 (- huge s) (- huge s) a0))))"
  by (simp add: gap_def case_prod_beta)

lemma gap_fst_nonneg:
  "0 \<le> huge s \<Longrightarrow> 0 \<le> fst (gap s n a0)"
  using gap_loop_second_le [of "- huge s" "- huge s"] by (simp add: gap_eq)


text \<open>C14.  When some state of a variable with at least two states beats
  \<open>-MPLP_huge\<close>, the state \<open>gap\<close> returns is in range and is the first state
  holding the maximum singleton belief.\<close>

theorem gap_first_argmax:
  assumes "2 \<le> m_var_sizes s ! n"
    and "\<exists>v\<in>set (map (\<lambda>st. m_dat (m_sum_into_intersects s ! n) ! st) [0..<m_var_sizes s ! n]). - huge s < v"
  shows "snd (gap s n a0) < m_var_sizes s ! n
    \<and> m_dat (m_sum_into_intersects s ! n) ! snd (gap s n a0)
        = Max (set (map (\<lambda>st. m_dat (m_sum_into_intersects s ! n) ! st) [0..<m_var_sizes s ! n]))
    \<and> (\<forall>j<snd (gap s n a0). m_dat (m_sum_into_intersects s ! n) ! j
                              < m_dat (m_sum_into_intersects s ! n) ! snd (gap s n a0))"
proof -
  let ?vs = "map (\<lambda>st. m_dat (m_sum_into_intersects s ! n) ! st) [0..<m_var_sizes s ! n]"
  have "snd (snd (gap_loop ?vs 0 (- huge s) (- huge s) a0)) = snd (max_at_from ?vs 0 (- huge s) a0)"
    using arg_cong [OF gap_loop_max_at_from [of ?vs 0 "- huge s" "- huge s" a0], of snd] by simp
  then have g: "snd (gap s n a0) = snd (max_at_from ?vs 0 (- huge s) a0)"
    using assms(1) by (simp add: gap_eq)
  obtain v where v: "v \<in> set ?vs" "- huge s < v" using assms(2) by blast
  then have "- huge s \<le> Max (set ?vs)" using Max_set_ge [of v ?vs] by linarith
  then have f: "fst (max_at_from ?vs 0 (- huge s) a0) = Max (set ?vs)"
    using v(1) by (auto simp: max_at_from_fst Max_insert max_def)
  from max_at_from_snd [of ?vs 0 "- huge s" a0] assms(2) obtain k where
    k: "k < length ?vs" "snd (max_at_from ?vs 0 (- huge s) a0) = k" "?vs ! k = fst (max_at_from ?vs 0 (- huge s) a0)"
       "\<forall>j<k. ?vs ! j < ?vs ! k"
    by force
  show ?thesis using g f k by simp
qed
lemma dec_gaps_props:
  assumes "distinct is" "0 \<le> huge s"
  shows "big0 \<le> fst (dec_gaps s is big0 m gv0 ma0)
    \<and> (\<forall>i\<in>set is. 0 \<le> fst (snd (dec_gaps s is big0 m gv0 ma0)) i
                   \<and> fst (snd (dec_gaps s is big0 m gv0 ma0)) i \<le> fst (dec_gaps s is big0 m gv0 ma0))
    \<and> (fst (dec_gaps s is big0 m gv0 ma0) = big0
       \<or> (\<exists>i\<in>set is. fst (snd (dec_gaps s is big0 m gv0 ma0)) i = fst (dec_gaps s is big0 m gv0 ma0)))"
  using assms(1)
proof (induction "is" arbitrary: big0 m gv0 ma0)
  case Nil
  then show ?case by simp
next
  case (Cons i "is")
  obtain g m' where gm: "gap s i m = (g, m')" by (cases "gap s i m") auto
  have g0: "0 \<le> g" using gap_fst_nonneg [OF assms(2), of i m] gm by simp
  let ?b = "if g \<ge> big0 then g else big0"
  have eq: "dec_gaps s (i # is) big0 m gv0 ma0 = dec_gaps s is ?b m' (gv0(i := g)) (ma0(i := m'))"
    using gm by simp
  let ?r = "dec_gaps s is ?b m' (gv0(i := g)) (ma0(i := m'))"
  have IH: "?b \<le> fst ?r \<and> (\<forall>j\<in>set is. 0 \<le> fst (snd ?r) j \<and> fst (snd ?r) j \<le> fst ?r)
      \<and> (fst ?r = ?b \<or> (\<exists>j\<in>set is. fst (snd ?r) j = fst ?r))"
    using Cons.IH Cons.prems by simp
  have keep: "fst (snd ?r) i = g"
  proof -
    have "\<forall>j. j \<notin> set is \<longrightarrow> fst (snd (dec_gaps s is b mm gv ma)) j = gv j" for b mm gv ma
      by (induction "is" arbitrary: b mm gv ma) (auto split: prod.split)
    then show ?thesis using Cons.prems by simp
  qed
  show ?case unfolding eq using IH keep g0 by (auto split: if_splits)
qed

lemma fix_fold_frame [simp]:
  "m_var_sizes (fold (\<lambda>i s. fix_variable s i (ma i)) xs s) = m_var_sizes s"
  by (induction xs arbitrary: s) (simp_all add: fix_variable_def)

lemma fix_fold_evidence:
  "evidence (fold (\<lambda>i s. fix_variable s i (ma i)) xs s) v
     = (if v \<in> set xs then Some (ma v) else evidence s v)"
  by (induction xs arbitrary: s) (auto simp: fix_variable_def)

lemma RunDecimation_eq:
  "RunDecimation s =
     (filter (\<lambda>i. fst (snd (dec_gaps s (not_decoded s) (- huge s) 0 (\<lambda>_. 0) (\<lambda>_. 0))) i
                    \<ge> fst (dec_gaps s (not_decoded s) (- huge s) 0 (\<lambda>_. 0) (\<lambda>_. 0))) (not_decoded s) \<noteq> [],
      fold (\<lambda>i t. fix_variable t i (snd (snd (dec_gaps s (not_decoded s) (- huge s) 0 (\<lambda>_. 0) (\<lambda>_. 0))) i))
        (filter (\<lambda>i. fst (snd (dec_gaps s (not_decoded s) (- huge s) 0 (\<lambda>_. 0) (\<lambda>_. 0))) i
                    \<ge> fst (dec_gaps s (not_decoded s) (- huge s) 0 (\<lambda>_. 0) (\<lambda>_. 0))) (not_decoded s)) s)"
  by (simp add: RunDecimation_def Let_def case_prod_beta)

text \<open>C15.  \<open>RunDecimation\<close> fixes a variable exactly when some variable is
  not yet in evidence; the evidence it finds stays as it was (fixes are
  permanent), and when it fixes anything the set of undecided variables strictly
  shrinks, so repeated decimation ends.\<close>

lemma fix_fold_not_decoded:
  "not_decoded (fold (\<lambda>i t. fix_variable t i (ma i)) xs s) = filter (\<lambda>i. i \<notin> set xs) (not_decoded s)"
proof -
  let ?s' = "fold (\<lambda>i t. fix_variable t i (ma i)) xs s"
  have "not_decoded ?s' = filter (\<lambda>i. evidence ?s' i = None) [0..<length (m_var_sizes s)]"
    by (simp only: not_decoded_def fix_fold_frame)
  also have "\<dots> = filter (\<lambda>i. evidence s i = None \<and> i \<notin> set xs) [0..<length (m_var_sizes s)]"
    by (intro filter_cong) (auto simp: fix_fold_evidence)
  also have "\<dots> = filter (\<lambda>i. i \<notin> set xs) (not_decoded s)"
    by (simp only: filter_filter not_decoded_def [of s])
  finally show ?thesis .
qed

lemma fix_fold_shrinks:
  assumes "xs \<noteq> []" "set xs \<subseteq> set (not_decoded s)"
  shows "length (not_decoded (fold (\<lambda>i t. fix_variable t i (ma i)) xs s)) < length (not_decoded s)"
proof -
  obtain i where "i \<in> set xs" using last_in_set [OF assms(1)] by blast
  then show ?thesis using assms(2) unfolding fix_fold_not_decoded by (intro length_filter_less) auto
qed

lemma dec_gaps_reaches:
  assumes "0 \<le> huge s" "not_decoded s \<noteq> []"
  shows "\<exists>i\<in>set (not_decoded s).
           max 0 (fst (dec_gaps s (not_decoded s) (- huge s) m gv0 ma0))
           \<le> fst (snd (dec_gaps s (not_decoded s) (- huge s) m gv0 ma0)) i"
proof -
  let ?nd = "not_decoded s" and ?r = "dec_gaps s (not_decoded s) (- huge s) m gv0 ma0"
  have "distinct ?nd" by (simp add: not_decoded_def)
  note P = dec_gaps_props [OF this assms(1), of "- huge s" m gv0 ma0]
  show ?thesis
  proof (cases "fst ?r = - huge s")
    case True
    obtain i where i: "i \<in> set ?nd" using last_in_set [OF assms(2)] by blast
    then have "0 \<le> fst (snd ?r) i" using P by blast
    then show ?thesis using i True assms(1) by auto
  next
    case False
    then obtain i where i: "i \<in> set ?nd" "fst (snd ?r) i = fst ?r" using P by blast
    moreover have "0 \<le> fst (snd ?r) i" using P i(1) by blast
    ultimately have "max 0 (fst ?r) \<le> fst (snd ?r) i" by simp
    then show ?thesis using i(1) by blast
  qed
qed

theorem RunDecimation_progress:
  assumes "0 \<le> huge s"
  shows "fst (RunDecimation s) = (not_decoded s \<noteq> [])
    \<and> (\<forall>v a. evidence s v = Some a \<longrightarrow> evidence (snd (RunDecimation s)) v = Some a)
    \<and> (not_decoded s \<noteq> [] \<longrightarrow> length (not_decoded (snd (RunDecimation s))) < length (not_decoded s))"
proof -
  let ?nd = "not_decoded s"
  let ?r = "dec_gaps s ?nd (- huge s) 0 (\<lambda>_. 0) (\<lambda>_. 0)"
  let ?sel = "filter (\<lambda>i. fst (snd ?r) i \<ge> fst ?r) ?nd"
  let ?s' = "fold (\<lambda>i t. fix_variable t i (snd (snd ?r) i)) ?sel s"
  have R: "RunDecimation s = (?sel \<noteq> [], ?s')" by (rule RunDecimation_eq)
  have sel: "?sel \<noteq> []" if ne: "?nd \<noteq> []"
  proof -
    obtain i where "i \<in> set ?nd" "max 0 (fst ?r) \<le> fst (snd ?r) i"
      using dec_gaps_reaches [OF assms ne] by blast
    then have "i \<in> set ?sel" by simp
    then show ?thesis by (metis emptyE empty_set)
  qed
  have "length (not_decoded ?s') < length ?nd" if ne: "?nd \<noteq> []"
    using fix_fold_shrinks [OF sel [OF ne]] by auto
  moreover have "evidence ?s' v = Some a" if "evidence s v = Some a" for v a
    using that fix_fold_evidence [where ma = "snd (snd ?r)" and xs = ?sel and s = s] by (auto simp: not_decoded_def)
  ultimately show ?thesis using R sel by auto
qed

theorem RunDecimation_progress_witness:
  "0 \<le> huge (UpdateAll (Init False (\<lambda>_ _. 0) [2,2] [([0,1],[2,0,0,2])] (MPLPAlg_new 100 (10^40) 1 Map.empty)))
   \<and> fst (RunDecimation (UpdateAll (Init False (\<lambda>_ _. 0) [2,2] [([0,1],[2,0,0,2])] (MPLPAlg_new 100 (10^40) 1 Map.empty))))
   \<and> length (not_decoded (snd (RunDecimation (UpdateAll (Init False (\<lambda>_ _. 0) [2,2] [([0,1],[2,0,0,2])] (MPLPAlg_new 100 (10^40) 1 Map.empty)))))) < 2"
proof -
  let ?s = "UpdateAll (Init False (\<lambda>_ _. 0) [2,2] [([0,1],[2,0,0,2])] (MPLPAlg_new 100 (10^40) 1 Map.empty))"
  have h: "0 \<le> huge ?s" by code_simp
  have n: "not_decoded ?s = [0, 1]" by code_simp
  show ?thesis using RunDecimation_progress [OF h] h n by simp
qed


theorem gap_first_argmax_witness:
  "gap (MPLPAlg_new 100 (10^40) 1 Map.empty\<lparr>m_var_sizes := [3], m_sum_into_intersects := [\<lparr>m_sizes = [3], m_dat = [1, 5, 5]\<rparr>]\<rparr>) 0 0 = (0, 1)
   \<and> snd (gap (MPLPAlg_new 100 (10^40) 1 Map.empty\<lparr>m_var_sizes := [3], m_sum_into_intersects := [\<lparr>m_sizes = [3], m_dat = [1, 5, 5]\<rparr>]\<rparr>) 0 0) < 3"
proof -
  let ?s = "MPLPAlg_new 100 (10^40) 1 Map.empty\<lparr>m_var_sizes := [3], m_sum_into_intersects := [\<lparr>m_sizes = [3], m_dat = [1, 5, 5]\<rparr>]\<rparr>"
  have a: "2 \<le> m_var_sizes ?s ! 0" by simp
  have b: "\<exists>v\<in>set (map (\<lambda>st. m_dat (m_sum_into_intersects ?s ! 0) ! st) [0..<m_var_sizes ?s ! 0]). - huge ?s < v"
    by code_simp
  have g: "gap ?s 0 0 = (0, 1)" by code_simp
  show ?thesis using gap_first_argmax [OF a b, of 0] g by simp
qed
end
