(* ===== verification/Catalogue.thy ===== *)
theory Catalogue
  imports MPLP_Solver
begin

text \<open>
  The catalogue of intersection sets of \<open>MPLPAlg\<close> (\<open>m_all_intersects\<close>, the
  edge map \<open>m_intersect_map\<close> and the arena \<open>m_sum_into_intersects\<close>):
  lookup after insertion (\<open>FindIntersectionSet\<close> after \<open>AddIntersectionSet\<close>,
  lines 482--543 of \<open>mplp_alg.cpp\<close>).
\<close>

lemma AddIntersectionSet_fields [simp]:
  "fst (AddIntersectionSet s inds) = length (m_all_intersects s)"
  "m_all_intersects (snd (AddIntersectionSet s inds)) = m_all_intersects s @ [inds]"
  "m_intersect_map (snd (AddIntersectionSet s inds))
     = (if length inds = 2 then map_insert (m_intersect_map s) (edge_key inds) (length (m_all_intersects s))
        else m_intersect_map s)"
  "m_sum_into_intersects (snd (AddIntersectionSet s inds))
     = m_sum_into_intersects s @ [MulDimArr_zero (map ((!) (m_var_sizes s)) inds)]"
  "m_all_regions (snd (AddIntersectionSet s inds)) = m_all_regions s"
  "m_var_sizes (snd (AddIntersectionSet s inds)) = m_var_sizes s"
  "evidence (snd (AddIntersectionSet s inds)) = evidence s"
  by (simp_all add: AddIntersectionSet_def Let_def)

lemma edge_key_sort:
  "edge_key inds = (sort inds ! 0, sort inds ! 1)"
  by (simp add: edge_key_def Let_def)

text \<open>C16.  Adding a set that \<open>FindIntersectionSet\<close> does not know makes it
  findable at the handle \<open>AddIntersectionSet\<close> returns: through the edge map
  for a pair (keyed by the sorted pair), by the linear search otherwise.\<close>

theorem FindIntersectionSet_AddIntersectionSet:
  assumes "FindIntersectionSet s inds = None"
  shows "FindIntersectionSet (snd (AddIntersectionSet s inds)) inds = Some (fst (AddIntersectionSet s inds))"
proof (cases "length inds = 2")
  case True
  then show ?thesis using assms
    by (simp add: FindIntersectionSet_def Let_def map_insert_def edge_key_sort domIff)
next
  case False
  let ?n = "length (m_all_intersects s)"
  let ?P = "\<lambda>i. sort ((m_all_intersects s @ [inds]) ! i) = sort inds"
  have "find ?P [0..<?n] = find (\<lambda>i. sort (m_all_intersects s ! i) = sort inds) [0..<?n]"
    by (rule find_upt_cong) (simp add: nth_append)
  then have "find ?P [0..<?n] = None" using assms False by (simp add: FindIntersectionSet_def Let_def)
  then have "find ?P ([0..<?n] @ [?n]) = Some ?n" by (rule find_append_none) simp
  then show ?thesis using False by (simp add: FindIntersectionSet_def Let_def)
qed

text \<open>C17.  Adding a set never changes an earlier lookup: the edge map's
  \<open>insert\<close> keeps an existing entry and the linear search finds the earlier
  position first.  So every edge keeps the handle it was first given.\<close>

theorem FindIntersectionSet_AddIntersectionSet_other:
  assumes "FindIntersectionSet s x = Some l"
  shows "FindIntersectionSet (snd (AddIntersectionSet s inds)) x = Some l"
proof (cases "length x = 2")
  case True
  then show ?thesis using assms
    by (auto simp: FindIntersectionSet_def Let_def map_insert_def edge_key_sort domIff)
next
  case False
  let ?n = "length (m_all_intersects s)"
  let ?P = "\<lambda>i. sort ((m_all_intersects s @ [inds]) ! i) = sort x"
  have "find ?P [0..<?n] = find (\<lambda>i. sort (m_all_intersects s ! i) = sort x) [0..<?n]"
    by (rule find_upt_cong) (simp add: nth_append)
  then have "find ?P [0..<?n] = Some l" using assms False by (simp add: FindIntersectionSet_def Let_def)
  then have "find ?P ([0..<?n] @ [?n]) = Some l" by (rule find_append_some)
  then show ?thesis using False by (simp add: FindIntersectionSet_def Let_def)
qed

theorem FindIntersectionSet_AddIntersectionSet_witness:
  "FindIntersectionSet (Init False (\<lambda>_ _. 0) [2,2,2] [] (MPLPAlg_new 100 (10^40) 1 Map.empty)) [2, 0] = None
   \<and> FindIntersectionSet (snd (AddIntersectionSet (Init False (\<lambda>_ _. 0) [2,2,2] [] (MPLPAlg_new 100 (10^40) 1 Map.empty)) [2, 0])) [2, 0] = Some 3"
proof -
  let ?s = "Init False (\<lambda>_ _. 0) [2,2,2] [] (MPLPAlg_new 100 (10^40) 1 Map.empty)"
  have n: "FindIntersectionSet ?s [2, 0] = None" by code_simp
  have l: "length (m_all_intersects ?s) = 3" by code_simp
  show ?thesis using FindIntersectionSet_AddIntersectionSet [OF n] n l by simp
qed

theorem FindIntersectionSet_AddIntersectionSet_other_witness:
  "FindIntersectionSet (Init False (\<lambda>_ _. 0) [2,2,2] [([0,1],[1,0,0,1])] (MPLPAlg_new 100 (10^40) 1 Map.empty)) [1, 0] = Some 3
   \<and> FindIntersectionSet (snd (AddIntersectionSet (Init False (\<lambda>_ _. 0) [2,2,2] [([0,1],[1,0,0,1])] (MPLPAlg_new 100 (10^40) 1 Map.empty)) [0, 1])) [1, 0] = Some 3"
proof -
  let ?s = "Init False (\<lambda>_ _. 0) [2,2,2] [([0,1],[1,0,0,1])] (MPLPAlg_new 100 (10^40) 1 Map.empty)"
  have n: "FindIntersectionSet ?s [1, 0] = Some 3" by code_simp
  show ?thesis using FindIntersectionSet_AddIntersectionSet_other [OF n] n by simp
qed
end
