(* ===== verification/Scenarios.thy ===== *)
theory Scenarios
  imports Catalogue
begin

text \<open>
  Whole-run behaviour of \<open>RunMPLP\<close> on the model classes the spec singles out:
  a model whose variables are all in evidence, and a model of singleton
  potentials only.  The global decoding is the identity here (these runs never
  reach it, or it leaves the decoded assignment alone).  The supporting lemmas
  describe a round's effect on the decoded assignment and what \<open>Init\<close> builds
  from singleton potentials.
\<close>

lemma LocalDecode_frame [simp]:
  "evidence (snd (LocalDecode s)) = evidence s"
  "m_all_intersects (snd (LocalDecode s)) = m_all_intersects s"
  "m_sum_into_intersects (snd (LocalDecode s)) = m_sum_into_intersects s"
  "m_all_regions (snd (LocalDecode s)) = m_all_regions s"
  "m_var_sizes (snd (LocalDecode s)) = m_var_sizes s"
  "m_decoded_res (snd (LocalDecode s)) = fold (decode_upd s) [0..<length (m_sum_into_intersects s)] (m_decoded_res s)"
  by (simp_all add: LocalDecode_exact)

lemma RunMPLP_round_id [simp]:
  "evidence (snd (RunMPLP_round id clk s)) = evidence s"
  "m_all_intersects (snd (RunMPLP_round id clk s)) = m_all_intersects s"
  "m_sum_into_intersects (snd (RunMPLP_round id clk s)) = m_sum_into_intersects (UpdateAll s)"
  "m_all_regions (snd (RunMPLP_round id clk s)) = m_all_regions (UpdateAll s)"
  "m_var_sizes (snd (RunMPLP_round id clk s)) = m_var_sizes s"
  "m_decoded_res (snd (RunMPLP_round id clk s))
     = fold (decode_upd (UpdateAll s)) [0..<length (m_sum_into_intersects (UpdateAll s))] (m_decoded_res s)"
  by (simp_all add: RunMPLP_round_def Let_def case_prod_beta decode_upd_def cong: if_cong)

lemma decode_upd_evidence_fixed:
  assumes "\<forall>v<length d. evidence s v \<noteq> None"
  shows "fold (decode_upd s) xs d = d"
proof -
  have "fold (decode_upd s) xs d ! j = d ! j" if "j < length d" for j
    unfolding decode_upd_cond using that assms by (intro fold_cond_update_other) auto
  moreover have "length (fold (decode_upd s) xs d) = length d"
    unfolding decode_upd_cond by (rule fold_cond_update_length)
  ultimately show ?thesis by (simp add: list_eq_iff_nth_eq)
qed

lemma RunMPLP_loop_evidence_decoded:
  assumes "\<forall>v<length (m_decoded_res s). evidence s v \<noteq> None"
  shows "m_decoded_res (RunMPLP_loop id clk t1 t2 it k s) = m_decoded_res s"
  using assms
proof (induction k arbitrary: it s)
  case 0
  then show ?case by simp
next
  case (Suc k)
  let ?s1 = "snd (RunMPLP_round id clk s)"
  have d: "m_decoded_res ?s1 = m_decoded_res s" "evidence ?s1 = evidence s"
    using decode_upd_evidence_fixed [of "m_decoded_res s" "UpdateAll s"] Suc.prems by simp_all
  have p: "\<forall>v<length (m_decoded_res ?s1). evidence ?s1 v \<noteq> None" using d Suc.prems by simp
  have IH: "m_decoded_res (RunMPLP_loop id clk t1 t2 (Suc it) k ?s1) = m_decoded_res ?s1"
    by (rule Suc.IH [OF p])
  obtain obj s1 where R: "RunMPLP_round id clk s = (obj, s1)" by (cases "RunMPLP_round id clk s") auto
  then have s1: "?s1 = s1" by simp
  have "RunMPLP_loop id clk t1 t2 it (Suc k) s = s1
      \<or> RunMPLP_loop id clk t1 t2 it (Suc k) s = RunMPLP_loop id clk t1 t2 (Suc it) k s1"
    using R by (simp add: Let_def)
  then show ?case
  proof
    assume a: "RunMPLP_loop id clk t1 t2 it (Suc k) s = s1"
    show ?case unfolding a using d s1 by simp
  next
    assume b: "RunMPLP_loop id clk t1 t2 it (Suc k) s = RunMPLP_loop id clk t1 t2 (Suc it) k s1"
    show ?case unfolding b using IH d s1 by simp
  qed
qed

lemma Init_region_step_frame [simp]:
  "evidence (Init_region_step r s) = evidence s"
  "m_var_sizes (Init_region_step r s) = m_var_sizes s"
  by (simp_all add: Init_region_step_def Let_def split: prod.split)

lemma Init_region_fold_frame [simp]:
  "evidence (fold Init_region_step regs s) = evidence s"
  "m_var_sizes (fold Init_region_step regs s) = m_var_sizes s"
  by (induction regs arbitrary: s) simp_all

lemma Init_evidence_decoded:
  "evidence (Init False noise vs regs s0) = evidence s0"
  "m_decoded_res (Init False noise vs regs s0)
     = map (\<lambda>i. case evidence s0 i of Some v \<Rightarrow> v | None \<Rightarrow> 0) [0..<length vs]"
  by (simp_all add: Init_def Let_def)

lemma UpdateAll_no_regions:
  "m_all_regions s = [] \<Longrightarrow> UpdateAll s = s"
  by (simp add: UpdateAll_def)

lemma decode_upd_round_id [simp]:
  "decode_upd (snd (RunMPLP_round id clk s)) = decode_upd (UpdateAll s)"
  by (simp add: decode_upd_def cong: if_cong)

lemma RunMPLP_loop_no_regions:
  assumes "m_all_regions s = []" "0 < k"
  shows "m_decoded_res (RunMPLP_loop id clk t1 t2 it k s)
         = fold (decode_upd s) [0..<length (m_sum_into_intersects s)] (m_decoded_res s)"
  using assms
proof (induction k arbitrary: it s)
  case 0
  then show ?case by simp
next
  case (Suc k)
  let ?s1 = "snd (RunMPLP_round id clk s)"
  let ?D = "fold (decode_upd s) [0..<length (m_sum_into_intersects s)] (m_decoded_res s)"
  have U: "UpdateAll s = s" using Suc.prems(1) by (rule UpdateAll_no_regions)
  have s1: "m_all_regions ?s1 = []" "m_decoded_res ?s1 = ?D" "decode_upd ?s1 = decode_upd s"
    "m_sum_into_intersects ?s1 = m_sum_into_intersects s"
    using Suc.prems(1) U by simp_all
  have idem: "fold (decode_upd s) [0..<length (m_sum_into_intersects s)] ?D = ?D"
    unfolding decode_upd_cond by (rule fold_cond_update_idem)
  have IH0: "0 < k \<Longrightarrow> m_decoded_res (RunMPLP_loop id clk t1 t2 (Suc it) k ?s1)
      = fold (decode_upd ?s1) [0..<length (m_sum_into_intersects ?s1)] (m_decoded_res ?s1)"
    by (rule Suc.IH [OF s1(1)])
  have IH: "0 < k \<Longrightarrow> m_decoded_res (RunMPLP_loop id clk t1 t2 (Suc it) k ?s1) = ?D"
    using IH0 unfolding s1(2) s1(3) s1(4) idem .
  obtain obj s2 where R: "RunMPLP_round id clk s = (obj, s2)" by (cases "RunMPLP_round id clk s") auto
  then have s2: "?s1 = s2" by simp
  have "RunMPLP_loop id clk t1 t2 it (Suc k) s = s2
      \<or> RunMPLP_loop id clk t1 t2 it (Suc k) s = RunMPLP_loop id clk t1 t2 (Suc it) k s2"
    using R by (simp add: Let_def)
  then show ?case
  proof
    assume a: "RunMPLP_loop id clk t1 t2 it (Suc k) s = s2"
    show ?case unfolding a using s1 s2 by simp
  next
    assume b: "RunMPLP_loop id clk t1 t2 it (Suc k) s = RunMPLP_loop id clk t1 t2 (Suc it) k s2"
    show ?case
    proof (cases k)
      case 0
      then show ?thesis unfolding b using s1 s2 by simp
    next
      case (Suc k')
      then show ?thesis unfolding b using IH s2 by simp
    qed
  qed
qed

lemma Init_singletons_fold:
  assumes "\<forall>v\<in>set xs. v < length (m_sum_into_intersects s) \<and> pot v \<noteq> []" "distinct xs"
  shows "m_all_regions (fold Init_region_step (map (\<lambda>v. ([v], pot v)) xs) s) = m_all_regions s
    \<and> m_all_intersects (fold Init_region_step (map (\<lambda>v. ([v], pot v)) xs) s) = m_all_intersects s
    \<and> m_sum_into_intersects (fold Init_region_step (map (\<lambda>v. ([v], pot v)) xs) s)
        = map (\<lambda>j. if j \<in> set xs then vec_add (m_sum_into_intersects s ! j) (MulDimArr_of [m_var_sizes s ! j] (pot j))
                   else m_sum_into_intersects s ! j) [0..<length (m_sum_into_intersects s)]"
  using assms
proof (induction xs arbitrary: s)
  case Nil
  then show ?case by (simp add: map_nth_upt_eq)
next
  case (Cons v xs)
  let ?t = "Init_region_step ([v], pot v) s"
  have t: "m_all_regions ?t = m_all_regions s" "m_all_intersects ?t = m_all_intersects s"
    "m_var_sizes ?t = m_var_sizes s"
    "m_sum_into_intersects ?t = (m_sum_into_intersects s)[v := vec_add (m_sum_into_intersects s ! v)
                                   (MulDimArr_of [m_var_sizes s ! v] (pot v))]"
    using Cons.prems by (simp_all add: Init_region_step_def Let_def)
  have "\<forall>w\<in>set xs. w < length (m_sum_into_intersects ?t) \<and> pot w \<noteq> []" using Cons.prems t(4) by simp
  then have IH: "m_all_regions (fold Init_region_step (map (\<lambda>v. ([v], pot v)) xs) ?t) = m_all_regions ?t
    \<and> m_all_intersects (fold Init_region_step (map (\<lambda>v. ([v], pot v)) xs) ?t) = m_all_intersects ?t
    \<and> m_sum_into_intersects (fold Init_region_step (map (\<lambda>v. ([v], pot v)) xs) ?t)
        = map (\<lambda>j. if j \<in> set xs then vec_add (m_sum_into_intersects ?t ! j) (MulDimArr_of [m_var_sizes ?t ! j] (pot j))
                   else m_sum_into_intersects ?t ! j) [0..<length (m_sum_into_intersects ?t)]"
    using Cons.IH Cons.prems(2) by simp
  have "map (\<lambda>j. if j \<in> set xs then vec_add (m_sum_into_intersects ?t ! j) (MulDimArr_of [m_var_sizes ?t ! j] (pot j))
                   else m_sum_into_intersects ?t ! j) [0..<length (m_sum_into_intersects ?t)]
      = map (\<lambda>j. if j \<in> set (v # xs) then vec_add (m_sum_into_intersects s ! j) (MulDimArr_of [m_var_sizes s ! j] (pot j))
                   else m_sum_into_intersects s ! j) [0..<length (m_sum_into_intersects s)]"
    unfolding t(3) t(4) length_list_update
    by (rule map_cong [OF refl]) (use Cons.prems in \<open>auto simp: nth_list_update\<close>)
  then show ?case using IH t(1,2) by simp
qed
text \<open>C18.  Fully evidenced model: when every variable is in evidence, \<open>RunMPLP\<close>
  (any iteration count) leaves the decoded assignment exactly equal to the
  evidence.\<close>

theorem fully_evidenced_decoding:
  assumes "\<forall>v<length vs. evidence s0 v \<noteq> None"
  shows "m_decoded_res (RunMPLP id clk niter t1 t2 (Init False noise vs regs s0))
         = map (\<lambda>v. the (evidence s0 v)) [0..<length vs]"
proof -
  have "\<forall>v<length (m_decoded_res (Init False noise vs regs s0)). evidence (Init False noise vs regs s0) v \<noteq> None"
    using assms by (simp add: Init_evidence_decoded)
  then have "m_decoded_res (RunMPLP id clk niter t1 t2 (Init False noise vs regs s0))
       = m_decoded_res (Init False noise vs regs s0)"
    unfolding RunMPLP_def by (rule RunMPLP_loop_evidence_decoded)
  also have "\<dots> = map (\<lambda>v. the (evidence s0 v)) [0..<length vs]"
    using assms by (auto simp: Init_evidence_decoded split: option.split)
  finally show ?thesis .
qed

theorem fully_evidenced_decoding_witness:
  "evidence (MPLPAlg_new 100 (10^40) 1 [0 \<mapsto> 1, 1 \<mapsto> 0]) 0 = Some 1
   \<and> evidence (MPLPAlg_new 100 (10^40) 1 [0 \<mapsto> 1, 1 \<mapsto> 0]) 1 = Some 0
   \<and> m_decoded_res (RunMPLP id (\<lambda>_. 0) 3 0.0002 0.0002
        (Init False (\<lambda>_ _. 0) [2,2] [([0,1],[2,0,0,2])] (MPLPAlg_new 100 (10^40) 1 [0 \<mapsto> 1, 1 \<mapsto> 0]))) = [1, 0]"
proof -
  have e: "\<forall>v<length [2, 2::nat]. evidence (MPLPAlg_new 100 (10^40) 1 [0 \<mapsto> 1, 1 \<mapsto> 0]) v \<noteq> None"
    by (simp add: MPLPAlg_new_def less_Suc_eq)
  show ?thesis using fully_evidenced_decoding [OF e, of "\<lambda>_. 0" 3 "0.0002" "0.0002" "\<lambda>_ _. 0" "[([0,1],[2,0,0,2])]"] e
    by (simp add: MPLPAlg_new_def upt_rec)
qed

text \<open>C20.  Disconnected singletons: with only singleton potentials and no
  evidence, every run of \<open>RunMPLP\<close> with at least one round decodes each
  variable to the first argmax of its own potential, whatever the iteration
  count.\<close>

theorem singletons_only_decoding:
  assumes ev: "\<forall>v<length vs. evidence s0 v = None" and nr: "m_all_regions s0 = []"
    and pot: "\<forall>v<length vs. 0 < vs ! v \<and> length (pot v) = vs ! v" and k: "0 < niter"
  shows "m_decoded_res (RunMPLP id clk niter t1 t2 (Init False noise vs (map (\<lambda>v. ([v], pot v)) [0..<length vs]) s0))
         = map (\<lambda>v. snd (Max_at \<lparr>m_sizes = [vs ! v], m_dat = pot v\<rparr>)) [0..<length vs]"
proof -
  let ?n = "length vs"
  let ?s1 = "s0\<lparr>m_var_sizes := vs, m_all_intersects := map (\<lambda>si. [si]) [0..<?n],
                  m_sum_into_intersects := map (\<lambda>si. MulDimArr_zero [vs ! si]) [0..<?n],
                  m_single_node_lambdas := map (\<lambda>si. MulDimArr_zero [vs ! si]) [0..<?n]\<rparr>"
  let ?s2 = "fold Init_region_step (map (\<lambda>v. ([v], pot v)) [0..<?n]) ?s1"
  let ?s = "Init False noise vs (map (\<lambda>v. ([v], pot v)) [0..<?n]) s0"
  have F: "m_all_regions ?s2 = [] \<and> m_all_intersects ?s2 = map (\<lambda>si. [si]) [0..<?n]
    \<and> m_sum_into_intersects ?s2 = map (\<lambda>j. vec_add (MulDimArr_zero [vs ! j]) (MulDimArr_of [vs ! j] (pot j))) [0..<?n]"
  proof -
    have h: "\<forall>v\<in>set [0..<?n]. v < length (m_sum_into_intersects ?s1) \<and> pot v \<noteq> []"
      using pot by fastforce
    show ?thesis using Init_singletons_fold [OF h distinct_upt] nr by (simp cong: map_cong)
  qed
  have s: "m_all_regions ?s = []" "m_all_intersects ?s = map (\<lambda>si. [si]) [0..<?n]"
    "m_sum_into_intersects ?s = map (\<lambda>j. vec_add (MulDimArr_zero [vs ! j]) (MulDimArr_of [vs ! j] (pot j))) [0..<?n]"
    "evidence ?s = evidence s0" "length (m_decoded_res ?s) = ?n"
    using F by (simp_all add: Init_def Let_def)
  have dat: "Max_at (vec_add (MulDimArr_zero [vs ! j]) (MulDimArr_of [vs ! j] (pot j)))
      = Max_at \<lparr>m_sizes = [vs ! j], m_dat = pot j\<rparr>" if "j < ?n" for j
  proof (rule Max_at_dat_cong)
    have l: "length (pot j) = vs ! j" using pot that by simp
    show "m_dat (vec_add (MulDimArr_zero [vs ! j]) (MulDimArr_of [vs ! j] (pot j))) = m_dat \<lparr>m_sizes = [vs ! j], m_dat = pot j\<rparr>"
    proof -
      have "map (\<lambda>x. replicate (vs ! j) 0 ! x + pot j ! x) [0..<vs ! j] = map ((!) (pot j)) [0..<vs ! j]"
        by (rule map_cong) auto
      then show ?thesis using map_nth_upt_eq [OF l] by (simp add: vec_add_def MulDimArr_zero_def MulDimArr_of_def)
    qed
  qed
  let ?g = "\<lambda>j. snd (Max_at \<lparr>m_sizes = [vs ! j], m_dat = pot j\<rparr>)"
  have "fold (decode_upd ?s) [0..<?n] (m_decoded_res ?s) = fold (\<lambda>i d. d[i := ?g i]) [0..<?n] (m_decoded_res ?s)"
    using s ev dat by (intro fold_cong) (simp_all add: decode_upd_def)
  also have "\<dots> = map ?g [0..<?n]"
    using s(5) fold_update_upt [of ?n "m_decoded_res ?s" ?g] by (simp cong: map_cong)
  finally have D: "fold (decode_upd ?s) [0..<?n] (m_decoded_res ?s) = map ?g [0..<?n]" .
  have "m_decoded_res (RunMPLP id clk niter t1 t2 ?s)
      = fold (decode_upd ?s) [0..<length (m_sum_into_intersects ?s)] (m_decoded_res ?s)"
    unfolding RunMPLP_def by (rule RunMPLP_loop_no_regions [OF s(1) k])
  then show ?thesis using D s(3) by simp
qed

theorem singletons_only_decoding_witness:
  "m_decoded_res (RunMPLP id (\<lambda>_. 0) 4 0.0002 0.0002
      (Init False (\<lambda>_ _. 0) [3, 2] (map (\<lambda>v. ([v], [[1, 7, 7], [2, 1]] ! v)) [0..<length [3, 2::nat]])
            (MPLPAlg_new 100 (10^40) 1 Map.empty)))
   = [1, 0]"
proof -
  have ev: "\<forall>v<length [3, 2::nat]. evidence (MPLPAlg_new 100 (10^40) 1 Map.empty) v = None"
    by (simp add: MPLPAlg_new_def)
  have nr: "m_all_regions (MPLPAlg_new 100 (10^40) 1 Map.empty) = []" by (simp add: MPLPAlg_new_def)
  have pot: "\<forall>v<length [3, 2::nat]. 0 < [3, 2::nat] ! v \<and> length ([[1, 7, 7], [2, 1::real]] ! v) = [3, 2::nat] ! v"
    by (simp add: less_Suc_eq)
  have m: "map (\<lambda>v. snd (Max_at \<lparr>m_sizes = [[3, 2::nat] ! v], m_dat = [[1, 7, 7], [2, 1::real]] ! v\<rparr>)) [0..<length [3, 2::nat]] = [1, 0]"
    by code_simp
  show ?thesis
    using singletons_only_decoding [OF ev nr pot, of 4 "\<lambda>_. 0" "0.0002" "0.0002" "\<lambda>_ _. 0"] m by simp
qed
end
