(* ===== verification/GlobalDecoding.thy ===== *)
theory GlobalDecoding
  imports Scenarios
begin

text \<open>
  \<open>MPLPAlg::RunGlobalDecoding\<close> (\<open>mplp_alg.cpp\<close> lines 640--758): save the
  messages, the beliefs and the evidence; repeatedly fix the undecided
  variables whose gap reaches the largest gap (all of them at a tenth of it, or
  only the first at the full gap in exhaustive mode) and run ten rounds of
  sweeping and decoding; restore what was saved.  The outer \<open>while\<close> loop is a
  \<open>partial_function (option)\<close>, \<open>None\<close> being a run that never leaves it: with a
  negative \<open>MPLP_huge\<close> no variable need qualify and the C++ loop spins.  The
  lemmas show that it returns when \<open>MPLP_huge\<close> is not negative (C21), that
  what it returns restores the state as \<open>gd_interface\<close> requires, and so that
  \<open>RunMPLP\<close> with the program's own global decoding keeps the dual bound (C22).

  The C++ \<open>std::set not_decoded\<close> is the set of variables without evidence, so
  the model recomputes it from the evidence.  In non-exhaustive mode the C++
  erases from the set it is iterating and then increments the erased iterator
  (undefined behaviour); the model gives the intended meaning, fixing every
  qualifying variable.  The C++ restores the saved data element by element into
  tables whose shapes the updates keep; the model restores the saved tables and
  regions.  The timing members it sets are not modelled.
\<close>

text \<open>One pass of the outer loop's selection (lines 683--719): gaps of the
  undecided variables with \<open>m\<close> threaded through, the threshold, and the fixes;
  returns the state and the final \<open>m\<close>.\<close>

definition gd_select :: "bool \<Rightarrow> mplp_state \<Rightarrow> nat \<Rightarrow> mplp_state \<times> nat" where
  "gd_select ex s m =
     (let nd = not_decoded s;
          (big, gv, ma) = dec_gaps s nd (- huge s) m (\<lambda>_. 0) (\<lambda>_. 0);
          thr = (if ex then big else big / 10);
          sel = filter (\<lambda>i. gv i \<ge> thr) nd;
          fx = (if ex then take 1 sel else sel)
      in (fold (\<lambda>i t. fix_variable t i (ma i)) fx s, if nd = [] then m else ma (last nd)))"

text \<open>One of the ten inner rounds (lines 721--730): a sweep, \<open>LocalDecode\<close>
  (which calls \<open>UpdateResult\<close>) and \<open>UpdateResult\<close> again.\<close>

definition gd_round :: "mplp_state \<Rightarrow> mplp_state" where
  "gd_round s = snd (UpdateResult (snd (LocalDecode (UpdateAll s))))"

definition gd_rounds :: "mplp_state \<Rightarrow> mplp_state" where
  "gd_rounds s = fold (\<lambda>_ t. gd_round t) [0..<10] s"

text \<open>The outer \<open>while (!not_decoded.empty())\<close> loop (lines 681--736).\<close>

partial_function (option) gd_loop :: "bool \<Rightarrow> nat \<Rightarrow> mplp_state \<Rightarrow> mplp_state option" where
  "gd_loop ex m s =
     (if not_decoded s = [] then Some s
      else (case gd_select ex s m of (s1, m1) \<Rightarrow> gd_loop ex m1 (gd_rounds s1)))"

declare gd_loop.simps [code]

text \<open>The whole routine: \<open>m\<close> starts at \<open>0\<close> (uninitialised in the C++), and the
  saved regions, beliefs and evidence are restored at the end (lines 738--750).\<close>

definition RunGlobalDecoding :: "bool \<Rightarrow> mplp_state \<Rightarrow> mplp_state option" where
  "RunGlobalDecoding ex s =
     (case gd_loop ex 0 s of
        None \<Rightarrow> None
      | Some s1 \<Rightarrow> Some (s1\<lparr>m_all_regions := m_all_regions s, m_sum_into_intersects := m_sum_into_intersects s,
                            evidence := evidence s,
                            previous_run_of_global_decoding := total_mplp_iterations s1\<rparr>))"


lemma gd_round_frame [simp]:
  "evidence (gd_round s) = evidence s" "m_var_sizes (gd_round s) = m_var_sizes s" "huge (gd_round s) = huge s"
  "last_obj (gd_round s) = last_obj s" "obj_del (gd_round s) = obj_del s"
  "total_mplp_iterations (gd_round s) = total_mplp_iterations s"
  by (simp_all add: gd_round_def LocalDecode_exact UpdateResult_eq Write_def UpdateAll_def split: prod.split)

lemma gd_round_best: "m_best_val s \<le> m_best_val (gd_round s)"
proof -
  obtain d where "LocalDecode (UpdateAll s) = (dual_obj (m_sum_into_intersects (UpdateAll s)),
      snd (UpdateResult ((UpdateAll s)\<lparr>m_decoded_res := d\<rparr>)))" by (rule LocalDecode_eq)
  then show ?thesis by (simp add: gd_round_def UpdateResult_best UpdateAll_def split: prod.split)
qed

lemma fold_gd_round_frame [simp]:
  "evidence (fold (\<lambda>_ t. gd_round t) xs s) = evidence s"
  "m_var_sizes (fold (\<lambda>_ t. gd_round t) xs s) = m_var_sizes s"
  "huge (fold (\<lambda>_ t. gd_round t) xs s) = huge s"
  "last_obj (fold (\<lambda>_ t. gd_round t) xs s) = last_obj s"
  "obj_del (fold (\<lambda>_ t. gd_round t) xs s) = obj_del s"
  "total_mplp_iterations (fold (\<lambda>_ t. gd_round t) xs s) = total_mplp_iterations s"
  by (induction xs arbitrary: s; simp)+

lemma fold_gd_round_best: "m_best_val s \<le> m_best_val (fold (\<lambda>_ t. gd_round t) xs s)"
  by (induction xs arbitrary: s) (auto intro: order.trans [OF gd_round_best])

lemma fix_fold_more_frame [simp]:
  "huge (fold (\<lambda>i t. fix_variable t i (ma i)) xs s) = huge s"
  "m_best_val (fold (\<lambda>i t. fix_variable t i (ma i)) xs s) = m_best_val s"
  "last_obj (fold (\<lambda>i t. fix_variable t i (ma i)) xs s) = last_obj s"
  "obj_del (fold (\<lambda>i t. fix_variable t i (ma i)) xs s) = obj_del s"
  "total_mplp_iterations (fold (\<lambda>i t. fix_variable t i (ma i)) xs s) = total_mplp_iterations s"
  by (induction xs arbitrary: s; simp add: fix_variable_def)+

lemma gd_select_eq:
  "fst (gd_select ex s m) = fold (\<lambda>i t. fix_variable t i (snd (snd (dec_gaps s (not_decoded s) (- huge s) m (\<lambda>_. 0) (\<lambda>_. 0))) i))
      (if ex then take 1 (filter (\<lambda>i. fst (dec_gaps s (not_decoded s) (- huge s) m (\<lambda>_. 0) (\<lambda>_. 0))
                                    \<le> fst (snd (dec_gaps s (not_decoded s) (- huge s) m (\<lambda>_. 0) (\<lambda>_. 0))) i) (not_decoded s))
       else filter (\<lambda>i. fst (dec_gaps s (not_decoded s) (- huge s) m (\<lambda>_. 0) (\<lambda>_. 0)) / 10
                         \<le> fst (snd (dec_gaps s (not_decoded s) (- huge s) m (\<lambda>_. 0) (\<lambda>_. 0))) i) (not_decoded s)) s"
  by (simp add: gd_select_def Let_def case_prod_beta)

lemma gd_select_frame [simp]:
  "huge (fst (gd_select ex s m)) = huge s" "m_var_sizes (fst (gd_select ex s m)) = m_var_sizes s"
  "m_best_val (fst (gd_select ex s m)) = m_best_val s" "last_obj (fst (gd_select ex s m)) = last_obj s"
  "obj_del (fst (gd_select ex s m)) = obj_del s"
  "total_mplp_iterations (fst (gd_select ex s m)) = total_mplp_iterations s"
  by (simp_all only: gd_select_eq fix_fold_more_frame fix_fold_frame)

lemma gd_select_shrinks:
  assumes "0 \<le> huge s" "not_decoded s \<noteq> []"
  shows "length (not_decoded (fst (gd_select ex s m))) < length (not_decoded s)"
proof -
  let ?r = "dec_gaps s (not_decoded s) (- huge s) m (\<lambda>_. 0) (\<lambda>_. 0)"
  obtain i where i: "i \<in> set (not_decoded s)" "max 0 (fst ?r) \<le> fst (snd ?r) i"
    using dec_gaps_reaches [OF assms] by blast
  let ?thr = "if ex then fst ?r else fst ?r / 10"
  have "?thr \<le> max 0 (fst ?r)" by auto
  then have sel: "i \<in> set (filter (\<lambda>j. ?thr \<le> fst (snd ?r) j) (not_decoded s))" using i by simp
  let ?fx = "if ex then take 1 (filter (\<lambda>j. ?thr \<le> fst (snd ?r) j) (not_decoded s))
             else filter (\<lambda>j. ?thr \<le> fst (snd ?r) j) (not_decoded s)"
  have "filter (\<lambda>j. ?thr \<le> fst (snd ?r) j) (not_decoded s) \<noteq> []" using sel by (metis emptyE empty_set)
  then have "?fx \<noteq> []" by (cases ex) simp_all
  moreover have "set ?fx \<subseteq> set (not_decoded s)" by (auto dest: in_set_takeD)
  ultimately have "length (not_decoded (fold (\<lambda>j t. fix_variable t j (snd (snd ?r) j)) ?fx s)) < length (not_decoded s)"
    by (rule fix_fold_shrinks)
  moreover have "fst (gd_select ex s m) = fold (\<lambda>j t. fix_variable t j (snd (snd ?r) j)) ?fx s"
    by (cases ex) (simp_all only: gd_select_eq if_True if_False)
  ultimately show ?thesis by simp
qed

lemma not_decoded_gd_rounds [simp]: "not_decoded (gd_rounds s) = not_decoded s"
  by (simp add: not_decoded_def gd_rounds_def)

lemma gd_loop_returns:
  "0 \<le> huge s \<Longrightarrow> \<exists>s'. gd_loop ex m s = Some s'"
proof (induction "length (not_decoded s)" arbitrary: m s rule: less_induct)
  case less
  show ?case
  proof (cases "not_decoded s = []")
    case True
    then show ?thesis by (simp add: gd_loop.simps)
  next
    case False
    obtain s1 m1 where g: "gd_select ex s m = (s1, m1)" by (cases "gd_select ex s m") auto
    have "length (not_decoded (gd_rounds s1)) < length (not_decoded s)"
      using gd_select_shrinks [OF less.prems False, of ex m] g by simp
    moreover have "0 \<le> huge (gd_rounds s1)" using less.prems g gd_select_frame(1) [of ex s m] by (simp add: gd_rounds_def)
    ultimately obtain s' where "gd_loop ex m1 (gd_rounds s1) = Some s'" using less.hyps by blast
    then show ?thesis using False g by (simp add: gd_loop.simps)
  qed
qed


lemma gd_loop_result:
  assumes "gd_loop ex m s = Some y"
  shows "not_decoded y = [] \<and> m_best_val s \<le> m_best_val y
     \<and> last_obj y = last_obj s \<and> obj_del y = obj_del s \<and> total_mplp_iterations y = total_mplp_iterations s
     \<and> m_var_sizes y = m_var_sizes s \<and> huge y = huge s"
proof (rule gd_loop.raw_induct [where P = "\<lambda>ex m s y. not_decoded y = [] \<and> m_best_val s \<le> m_best_val y
     \<and> last_obj y = last_obj s \<and> obj_del y = obj_del s \<and> total_mplp_iterations y = total_mplp_iterations s
     \<and> m_var_sizes y = m_var_sizes s \<and> huge y = huge s",
     OF _ assms], goal_cases)
  case (1 rec ex m s y)
  show ?case
  proof (cases "not_decoded s = []")
    case True
    then show ?thesis using 1(2) by simp
  next
    case False
    obtain s1 m1 where g: "gd_select ex s m = (s1, m1)" by (cases "gd_select ex s m") auto
    then have "rec ex m1 (gd_rounds s1) = Some y" using 1(2) False by simp
    then have "not_decoded y = [] \<and> m_best_val (gd_rounds s1) \<le> m_best_val y
      \<and> last_obj y = last_obj (gd_rounds s1) \<and> obj_del y = obj_del (gd_rounds s1)
      \<and> total_mplp_iterations y = total_mplp_iterations (gd_rounds s1)
      \<and> m_var_sizes y = m_var_sizes (gd_rounds s1) \<and> huge y = huge (gd_rounds s1)" by (rule 1(1))
    moreover have "m_best_val s1 \<le> m_best_val (gd_rounds s1)"
      unfolding gd_rounds_def by (rule fold_gd_round_best)
    moreover have "m_best_val s1 = m_best_val s" "last_obj s1 = last_obj s" "obj_del s1 = obj_del s"
      "total_mplp_iterations s1 = total_mplp_iterations s" "m_var_sizes s1 = m_var_sizes s" "huge s1 = huge s"
      using g gd_select_frame [of ex s m] by simp_all
    ultimately show ?thesis by (simp add: gd_rounds_def)
  qed
qed

lemma RunGlobalDecoding_Some:
  assumes "RunGlobalDecoding ex s = Some s'"
  shows "m_sum_into_intersects s' = m_sum_into_intersects s \<and> m_all_regions s' = m_all_regions s
    \<and> evidence s' = evidence s \<and> previous_run_of_global_decoding s' = total_mplp_iterations s
    \<and> m_best_val s \<le> m_best_val s' \<and> last_obj s' = last_obj s \<and> obj_del s' = obj_del s
    \<and> m_var_sizes s' = m_var_sizes s \<and> huge s' = huge s"
proof -
  obtain y where y: "gd_loop ex 0 s = Some y"
    using assms by (cases "gd_loop ex 0 s") (simp_all add: RunGlobalDecoding_def)
  then have "s' = y\<lparr>m_all_regions := m_all_regions s, m_sum_into_intersects := m_sum_into_intersects s,
        evidence := evidence s, previous_run_of_global_decoding := total_mplp_iterations y\<rparr>"
    using assms by (simp add: RunGlobalDecoding_def)
  then show ?thesis using gd_loop_result [OF y] by simp
qed


text \<open>C21.  When \<open>MPLP_huge\<close> is not negative, \<open>RunGlobalDecoding\<close> returns (every
  pass of its outer loop fixes at least one undecided variable), and the state
  it returns has the beliefs, the regions and the evidence it started with,
  records the iteration count of the call, and has an incumbent no worse.\<close>

theorem RunGlobalDecoding_returns:
  assumes "0 \<le> huge s"
  shows "\<exists>s'. RunGlobalDecoding ex s = Some s'
    \<and> m_sum_into_intersects s' = m_sum_into_intersects s \<and> m_all_regions s' = m_all_regions s
    \<and> evidence s' = evidence s \<and> previous_run_of_global_decoding s' = total_mplp_iterations s
    \<and> m_best_val s \<le> m_best_val s'"
proof -
  obtain y where "gd_loop ex 0 s = Some y" using gd_loop_returns [OF assms] by blast
  then obtain s' where "RunGlobalDecoding ex s = Some s'" by (simp add: RunGlobalDecoding_def)
  then show ?thesis using RunGlobalDecoding_Some by blast
qed


theorem RunGlobalDecoding_returns_witness:
  "0 \<le> huge (UpdateAll (Init False (\<lambda>_ _. 0) [2,2] [([0,1],[2,0,0,2])] (MPLPAlg_new 100 (10^40) 1 Map.empty)))
   \<and> (\<exists>s'. RunGlobalDecoding True (UpdateAll (Init False (\<lambda>_ _. 0) [2,2] [([0,1],[2,0,0,2])] (MPLPAlg_new 100 (10^40) 1 Map.empty))) = Some s')"
proof -
  let ?s = "UpdateAll (Init False (\<lambda>_ _. 0) [2,2] [([0,1],[2,0,0,2])] (MPLPAlg_new 100 (10^40) 1 Map.empty))"
  have h: "0 \<le> huge ?s" by code_simp
  show ?thesis using RunGlobalDecoding_returns [OF h, of True] h by blast
qed


end
