(* ===== verification/GlobalDecoding2.thy ===== *)
theory GlobalDecoding2
  imports GlobalDecoding
begin

text \<open>
  The two further global-decoding heuristics of \<open>mplp_alg.cpp\<close>.
  \<open>MPLPAlg::RunGlobalDecoding2\<close> (lines 762--884) saves the messages, beliefs
  and evidence, then repeatedly fixes one undecided variable of smallest gap,
  breaking ties between equal gaps by \<open>rand() % 2\<close>, and runs ten rounds of
  sweeping and decoding; outside exhaustive mode it stops when the smallest gap
  exceeds \<open>MPLP_GAP_THR\<close> or after 1000 iterations; at the end it restores what
  it saved.  \<open>MPLPAlg::RunGlobalDecoding3\<close> (lines 888--947) runs eleven trials,
  each perturbing the singleton beliefs by \<open>rand()\<close>, calling both other
  heuristics (exhaustively in the last trial) and restoring messages and
  beliefs.

  \<open>rand()\<close> is a stream \<open>rnd\<close> of the values of its successive calls, with the
  index \<open>k\<close> of the next call threaded through, so that both heuristics consume
  the same stream in the source's order; \<open>RAND_MAX\<close> and \<open>MPLP_GAP_THR\<close>,
  constants of the header, are parameters.  The array \<open>max_at\<close> is allocated
  uninitialised at each call: its initial contents are the parameter \<open>ma0\<close>;
  the uninitialised \<open>m\<close> starts at \<open>0\<close> as in \<open>RunGlobalDecoding\<close>.  Fixing a
  variable is \<open>fix_variable\<close>, which writes \<open>-MPLP_huge\<close> into the states of its
  belief other than the chosen one; when the chosen state read from \<open>max_at\<close> is
  past the variable's size the C++ loops of lines 834--839 write past the end
  of the table, which the model does not represent.  The timing members and the
  debug output are not modelled.
\<close>

text \<open>The selection loop of one pass (lines 806--820): the smallest gap so far,
  the variable holding it (starting at \<open>0\<close>), \<open>m\<close> threaded through \<open>gap\<close>, the
  \<open>max_at\<close> array, and the index of the next \<open>rand()\<close> call, which is made only
  on a tie.\<close>

fun gd2_scan :: "mplp_state \<Rightarrow> (nat \<Rightarrow> nat) \<Rightarrow> var list \<Rightarrow> real \<Rightarrow> var \<Rightarrow> nat \<Rightarrow> (var \<Rightarrow> nat) \<Rightarrow> nat
                 \<Rightarrow> real \<times> var \<times> nat \<times> (var \<Rightarrow> nat) \<times> nat" where
  "gd2_scan s rnd [] sg idx m ma k = (sg, idx, m, ma, k)"
| "gd2_scan s rnd (i # is) sg idx m ma k =
     (let (g, m') = gap s i m in
      if g < sg then gd2_scan s rnd is g i m' (ma(i := m')) k
      else if g = sg then gd2_scan s rnd is sg (if rnd k mod 2 \<noteq> 0 then i else idx) m' (ma(i := m')) (Suc k)
      else gd2_scan s rnd is sg idx m' (ma(i := m')) k)"

text \<open>The \<open>while (!not_decoded.empty())\<close> loop (lines 805--863): a pass fixes
  the selected variable (lines 829--839) and runs ten rounds (lines 841--850,
  ten iterations counted in \<open>n\<close>).  The C++ set \<open>not_decoded\<close> loses the fixed
  variable by \<open>erase\<close>, a no-op when it is not in the set; the model recomputes it
  from the evidence, which fixing changes in the same way.\<close>

partial_function (option) gd2_loop ::
  "real \<Rightarrow> (nat \<Rightarrow> nat) \<Rightarrow> bool \<Rightarrow> nat \<Rightarrow> (var \<Rightarrow> nat) \<Rightarrow> nat \<Rightarrow> nat \<Rightarrow> mplp_state \<Rightarrow> (mplp_state \<times> nat) option" where
  "gd2_loop thr rnd ex m ma n k s =
     (if not_decoded s = [] then Some (s, k)
      else (case gd2_scan s rnd (not_decoded s) (huge s) 0 m ma k of (sg, idx, m1, ma1, k1) \<Rightarrow>
        if \<not> ex \<and> thr < sg then Some (s, k1)
        else (let s1 = gd_rounds (fix_variable s idx (ma1 idx)) in
              if \<not> ex \<and> 1000 \<le> n + 10 then Some (s1, k1)
              else gd2_loop thr rnd ex m1 ma1 (n + 10) k1 s1)))"

declare gd2_loop.simps [code]

text \<open>The whole routine: the loop from \<open>m = 0\<close>, the given contents of
  \<open>max_at\<close>, no iterations, then the restore of lines 864--876.\<close>

definition RunGlobalDecoding2 ::
  "real \<Rightarrow> (nat \<Rightarrow> nat) \<Rightarrow> bool \<Rightarrow> (var \<Rightarrow> nat) \<Rightarrow> mplp_state \<Rightarrow> nat \<Rightarrow> (mplp_state \<times> nat) option" where
  "RunGlobalDecoding2 thr rnd ex ma0 s k =
     (case gd2_loop thr rnd ex 0 ma0 0 k s of
        None \<Rightarrow> None
      | Some (s1, k1) \<Rightarrow> Some (s1\<lparr>m_all_regions := m_all_regions s, m_sum_into_intersects := m_sum_into_intersects s,
                                  evidence := evidence s,
                                  previous_run_of_global_decoding := total_mplp_iterations s1\<rparr>, k1))"

text \<open>The perturbation of one singleton belief (lines 919--923): every entry
  gains \<open>10 * .01 * rand() / RAND_MAX\<close>, one \<open>rand()\<close> call per entry in order.\<close>

definition gd3_perturb_table :: "real \<Rightarrow> (nat \<Rightarrow> nat) \<Rightarrow> nat \<Rightarrow> mplp_state \<times> nat \<Rightarrow> mplp_state \<times> nat" where
  "gd3_perturb_table rmax rnd si sk =
     (case sk of (s, k) \<Rightarrow>
       (s\<lparr>m_sum_into_intersects := (m_sum_into_intersects s)[si :=
           (m_sum_into_intersects s ! si)\<lparr>m_dat := map (\<lambda>loc. m_dat (m_sum_into_intersects s ! si) ! loc
                                                   + 10 * 0.01 * real (rnd (k + loc)) / rmax)
                                              [0..<length (m_dat (m_sum_into_intersects s ! si))]\<rparr>]\<rparr>,
        k + length (m_dat (m_sum_into_intersects s ! si))))"

text \<open>The perturbation of one trial (lines 916--924): every singleton belief
  in turn.\<close>

definition gd3_perturb :: "real \<Rightarrow> (nat \<Rightarrow> nat) \<Rightarrow> mplp_state \<times> nat \<Rightarrow> mplp_state \<times> nat" where
  "gd3_perturb rmax rnd sk = fold (gd3_perturb_table rmax rnd) [0..<length (m_var_sizes (fst sk))] sk"

text \<open>The trials (lines 914--946): perturb, run \<open>RunGlobalDecoding\<close> and
  \<open>RunGlobalDecoding2\<close> (exhaustively in trial 10), restore the saved messages
  and beliefs \<open>sv\<close>.\<close>

fun gd3_trials :: "real \<Rightarrow> real \<Rightarrow> (nat \<Rightarrow> nat) \<Rightarrow> (var \<Rightarrow> nat) \<Rightarrow> mplp_state \<Rightarrow> nat list
                   \<Rightarrow> mplp_state \<times> nat \<Rightarrow> (mplp_state \<times> nat) option" where
  "gd3_trials thr rmax rnd ma0 sv [] sk = Some sk"
| "gd3_trials thr rmax rnd ma0 sv (t # ts) sk =
     (case gd3_perturb rmax rnd sk of (s1, k1) \<Rightarrow>
      case RunGlobalDecoding (t = 10) s1 of
        None \<Rightarrow> None
      | Some s2 \<Rightarrow>
          (case RunGlobalDecoding2 thr rnd (t = 10) ma0 s2 k1 of
             None \<Rightarrow> None
           | Some (s3, k3) \<Rightarrow>
               gd3_trials thr rmax rnd ma0 sv ts
                 (s3\<lparr>m_all_regions := m_all_regions sv, m_sum_into_intersects := m_sum_into_intersects sv\<rparr>, k3)))"

definition RunGlobalDecoding3 ::
  "real \<Rightarrow> real \<Rightarrow> (nat \<Rightarrow> nat) \<Rightarrow> (var \<Rightarrow> nat) \<Rightarrow> mplp_state \<Rightarrow> nat \<Rightarrow> (mplp_state \<times> nat) option" where
  "RunGlobalDecoding3 thr rmax rnd ma0 s k = gd3_trials thr rmax rnd ma0 s [0..<11] (s, k)"

text \<open>The states on which the exhaustive loop makes no progress: variable \<open>0\<close>
  is decided, and the undecided variables, of which there is one at least, have
  fewer than two states.  A pass fixes variable \<open>0\<close> again and stays among
  them.\<close>

definition gd2_stuck :: "mplp_state \<Rightarrow> bool" where
  "gd2_stuck s \<longleftrightarrow> evidence s 0 \<noteq> None \<and> not_decoded s \<noteq> []
                   \<and> (\<forall>i\<in>set (not_decoded s). m_var_sizes s ! i < 2)"

section \<open>Lemmas\<close>

lemma fix_variable_frame [simp]:
  "m_var_sizes (fix_variable s v a) = m_var_sizes s" "huge (fix_variable s v a) = huge s"
  "m_best_val (fix_variable s v a) = m_best_val s" "last_obj (fix_variable s v a) = last_obj s"
  "obj_del (fix_variable s v a) = obj_del s" "total_mplp_iterations (fix_variable s v a) = total_mplp_iterations s"
  "evidence (fix_variable s v a) = (evidence s)(v \<mapsto> a)"
  by (simp_all add: fix_variable_def)

lemma gd_rounds_frame [simp]:
  "evidence (gd_rounds s) = evidence s" "m_var_sizes (gd_rounds s) = m_var_sizes s" "huge (gd_rounds s) = huge s"
  "last_obj (gd_rounds s) = last_obj s" "obj_del (gd_rounds s) = obj_del s"
  "total_mplp_iterations (gd_rounds s) = total_mplp_iterations s"
  by (simp_all add: gd_rounds_def)

lemma gd_rounds_best: "m_best_val s \<le> m_best_val (gd_rounds s)"
  unfolding gd_rounds_def by (rule fold_gd_round_best)

text \<open>Outside exhaustive mode the loop ends: every pass that does not stop
  adds ten iterations, and the loop stops at 1000.\<close>

lemma gd2_loop_returns:
  "\<exists>r. gd2_loop thr rnd False m ma n k s = Some r"
proof (induction "1000 - n" arbitrary: m ma n k s rule: less_induct)
  case less
  show ?case
  proof (cases "not_decoded s = []")
    case True
    then show ?thesis by (subst gd2_loop.simps) simp
  next
    case False
    obtain sg idx m1 ma1 k1 where sc: "gd2_scan s rnd (not_decoded s) (huge s) 0 m ma k = (sg, idx, m1, ma1, k1)"
      using prod_cases5 by blast
    let ?s1 = "gd_rounds (fix_variable s idx (ma1 idx))"
    show ?thesis
    proof (cases "thr < sg \<or> 1000 \<le> n + 10")
      case True
      then show ?thesis using False by (subst gd2_loop.simps) (auto simp: sc Let_def)
    next
      case stop: False
      then have "1000 - (n + 10) < 1000 - n" by arith
      then obtain r where "gd2_loop thr rnd False m1 ma1 (n + 10) k1 ?s1 = Some r" using less.hyps by blast
      then show ?thesis using False stop by (subst gd2_loop.simps) (simp add: sc Let_def)
    qed
  qed
qed

lemma gd2_loop_result:
  assumes "gd2_loop thr rnd ex m ma n k s = Some r"
  shows "m_best_val s \<le> m_best_val (fst r) \<and> m_var_sizes (fst r) = m_var_sizes s \<and> huge (fst r) = huge s
    \<and> last_obj (fst r) = last_obj s \<and> obj_del (fst r) = obj_del s
    \<and> total_mplp_iterations (fst r) = total_mplp_iterations s"
proof (rule gd2_loop.raw_induct [where P = "\<lambda>thr rnd ex m ma n k s r. m_best_val s \<le> m_best_val (fst r)
     \<and> m_var_sizes (fst r) = m_var_sizes s \<and> huge (fst r) = huge s
     \<and> last_obj (fst r) = last_obj s \<and> obj_del (fst r) = obj_del s
     \<and> total_mplp_iterations (fst r) = total_mplp_iterations s", OF _ assms], goal_cases)
  case (1 rec thr rnd ex m ma n k s r)
  show ?case
  proof (cases "not_decoded s = []")
    case True
    then show ?thesis using 1(2) by auto
  next
    case False
    obtain sg idx m1 ma1 k1 where sc: "gd2_scan s rnd (not_decoded s) (huge s) 0 m ma k = (sg, idx, m1, ma1, k1)"
      using prod_cases5 by blast
    let ?s1 = "gd_rounds (fix_variable s idx (ma1 idx))"
    have b: "m_best_val s \<le> m_best_val ?s1" using gd_rounds_best [of "fix_variable s idx (ma1 idx)"] by simp
    show ?thesis
    proof (cases "\<not> ex \<and> thr < sg")
      case True
      then show ?thesis using 1(2) False sc by auto
    next
      case go: False
      show ?thesis
      proof (cases "\<not> ex \<and> 1000 \<le> n + 10")
        case True
        then have "r = (?s1, k1)" using 1(2) False go sc by (simp add: Let_def)
        then show ?thesis using b by simp
      next
        case False2: False
        then have "rec thr rnd ex m1 ma1 (n + 10) k1 ?s1 = Some r" using 1(2) False go sc
          by (simp add: Let_def split: if_split_asm)
        then have "m_best_val ?s1 \<le> m_best_val (fst r) \<and> m_var_sizes (fst r) = m_var_sizes ?s1
          \<and> huge (fst r) = huge ?s1 \<and> last_obj (fst r) = last_obj ?s1 \<and> obj_del (fst r) = obj_del ?s1
          \<and> total_mplp_iterations (fst r) = total_mplp_iterations ?s1" by (rule 1(1))
        then show ?thesis using b by simp
      qed
    qed
  qed
qed

lemma RunGlobalDecoding2_Some:
  assumes "RunGlobalDecoding2 thr rnd ex ma0 s k = Some (s', k')"
  shows "m_sum_into_intersects s' = m_sum_into_intersects s \<and> m_all_regions s' = m_all_regions s
    \<and> evidence s' = evidence s \<and> m_best_val s \<le> m_best_val s'
    \<and> m_var_sizes s' = m_var_sizes s \<and> huge s' = huge s"
proof -
  obtain y where y: "gd2_loop thr rnd ex 0 ma0 0 k s = Some y"
    using assms by (cases "gd2_loop thr rnd ex 0 ma0 0 k s") (simp_all add: RunGlobalDecoding2_def)
  then have "s' = (fst y)\<lparr>m_all_regions := m_all_regions s, m_sum_into_intersects := m_sum_into_intersects s,
        evidence := evidence s, previous_run_of_global_decoding := total_mplp_iterations (fst y)\<rparr>"
    using assms by (cases y) (simp add: RunGlobalDecoding2_def)
  then show ?thesis using gd2_loop_result [OF y] by simp
qed

text \<open>When every variable the scan visits has fewer than two states, each gap
  is the sentinel \<open>MPLP_huge\<close>, equal to the initial smallest gap: every visit is
  a tie, and with even \<open>rand()\<close> values the selection keeps its initial \<open>0\<close>.\<close>

lemma gd2_scan_ties:
  assumes "\<forall>i\<in>set xs. m_var_sizes s ! i < 2" "\<forall>j. even (rnd j)"
  shows "fst (gd2_scan s rnd xs (huge s) idx m ma k) = huge s
    \<and> fst (snd (gd2_scan s rnd xs (huge s) idx m ma k)) = idx"
  using assms(1)
proof (induction xs arbitrary: m ma k)
  case Nil
  then show ?case by simp
next
  case (Cons i xs)
  have "gap s i m = (huge s, 0)" using Cons.prems by (simp add: gap_def)
  moreover have "\<not> rnd k mod 2 \<noteq> 0" using assms(2) by simp
  ultimately show ?case using Cons by simp
qed

lemma not_decoded_fix_decided:
  "evidence s v \<noteq> None \<Longrightarrow> not_decoded (fix_variable s v a) = not_decoded s"
  unfolding not_decoded_def by (rule filter_cong) auto

lemma gd2_stuck_step:
  "gd2_stuck s \<Longrightarrow> gd2_stuck (gd_rounds (fix_variable s 0 a))"
proof -
  assume st: "gd2_stuck s"
  then have "not_decoded (gd_rounds (fix_variable s 0 a)) = not_decoded s"
    by (simp add: gd2_stuck_def not_decoded_fix_decided)
  then show ?thesis using st by (simp add: gd2_stuck_def)
qed

lemma gd2_loop_stuck_None:
  assumes "gd2_stuck s" "\<forall>j. even (rnd j)"
  shows "gd2_loop thr rnd True m ma n k s = None"
proof (rule ccontr)
  assume "gd2_loop thr rnd True m ma n k s \<noteq> None"
  then obtain r where ret: "gd2_loop thr rnd True m ma n k s = Some r" by blast
  have "\<not> (ex \<and> (\<forall>j. even (rnd j)) \<and> gd2_stuck s)" if "gd2_loop thr rnd ex m ma n k s = Some r" for ex m ma n k s
  proof (rule gd2_loop.raw_induct [where P = "\<lambda>thr rnd ex m ma n k s r. \<not> (ex \<and> (\<forall>j. even (rnd j)) \<and> gd2_stuck s)",
         OF _ that], goal_cases)
    case (1 rec thr rnd ex m ma n k s r)
    show ?case
    proof
      assume c: "ex \<and> (\<forall>j. even (rnd j)) \<and> gd2_stuck s"
      then have nd: "not_decoded s \<noteq> []" "\<forall>i\<in>set (not_decoded s). m_var_sizes s ! i < 2"
        by (simp_all add: gd2_stuck_def)
      obtain sg idx m1 ma1 k1 where sc: "gd2_scan s rnd (not_decoded s) (huge s) 0 m ma k = (sg, idx, m1, ma1, k1)"
        using prod_cases5 by blast
      then have "sg = huge s" "idx = 0" using gd2_scan_ties [OF nd(2), of rnd 0 m ma k] c by simp_all
      then have "rec thr rnd ex m1 ma1 (n + 10) k1 (gd_rounds (fix_variable s 0 (ma1 0))) = Some r"
        using 1(2) c nd(1) sc by (simp add: Let_def)
      then have "\<not> (ex \<and> (\<forall>j. even (rnd j)) \<and> gd2_stuck (gd_rounds (fix_variable s 0 (ma1 0))))" by (rule 1(1))
      then show False using c gd2_stuck_step by blast
    qed
  qed
  then show False using ret assms by blast
qed

lemma gap_loop_vals_indep:
  "fst (gap_loop xs st m1 m2 a) = fst (gap_loop xs st m1 m2 b)
   \<and> fst (snd (gap_loop xs st m1 m2 a)) = fst (snd (gap_loop xs st m1 m2 b))"
  by (induction xs arbitrary: st m1 m2 a b) auto

lemma gap_fst_indep: "fst (gap s i m) = fst (gap s i 0)"
  using gap_loop_vals_indep [of _ 0 "- huge s" "- huge s" m 0] by (simp add: gap_eq)

lemma gd3_perturb_table_frame [simp]:
  "evidence (fst (gd3_perturb_table rmax rnd si sk)) = evidence (fst sk)"
  "m_var_sizes (fst (gd3_perturb_table rmax rnd si sk)) = m_var_sizes (fst sk)"
  "huge (fst (gd3_perturb_table rmax rnd si sk)) = huge (fst sk)"
  by (simp_all add: gd3_perturb_table_def split: prod.split)

lemma gd3_perturb_frame [simp]:
  "evidence (fst (gd3_perturb rmax rnd sk)) = evidence (fst sk)"
  "m_var_sizes (fst (gd3_perturb rmax rnd sk)) = m_var_sizes (fst sk)"
  "huge (fst (gd3_perturb rmax rnd sk)) = huge (fst sk)"
proof -
  have "evidence (fst (fold (gd3_perturb_table rmax rnd) xs sk)) = evidence (fst sk)
    \<and> m_var_sizes (fst (fold (gd3_perturb_table rmax rnd) xs sk)) = m_var_sizes (fst sk)
    \<and> huge (fst (fold (gd3_perturb_table rmax rnd) xs sk)) = huge (fst sk)" for xs
    by (induction xs arbitrary: sk) simp_all
  then show "evidence (fst (gd3_perturb rmax rnd sk)) = evidence (fst sk)"
    "m_var_sizes (fst (gd3_perturb rmax rnd sk)) = m_var_sizes (fst sk)"
    "huge (fst (gd3_perturb rmax rnd sk)) = huge (fst sk)"
    by (simp_all add: gd3_perturb_def)
qed

lemma gd2_stuck_cong:
  "evidence t = evidence s \<Longrightarrow> m_var_sizes t = m_var_sizes s \<Longrightarrow> gd2_stuck t = gd2_stuck s"
  by (simp add: gd2_stuck_def not_decoded_def)

text \<open>The trials of \<open>RunGlobalDecoding3\<close> from a stuck state: the perturbation,
  \<open>RunGlobalDecoding\<close> and the non-exhaustive \<open>RunGlobalDecoding2\<close> all return
  and keep the evidence and the sizes, so the exhaustive trial starts stuck.\<close>

lemma gd3_trials_stuck:
  assumes "10 \<in> set ts" "0 \<le> huge (fst sk)" "gd2_stuck (fst sk)" "\<forall>j. even (rnd j)"
  shows "gd3_trials thr rmax rnd ma0 sv ts sk = None"
  using assms(1-3)
proof (induction ts arbitrary: sk)
  case Nil
  then show ?case by simp
next
  case (Cons t ts)
  obtain s1 k1 where p: "gd3_perturb rmax rnd sk = (s1, k1)" by (cases "gd3_perturb rmax rnd sk") auto
  have s1: "0 \<le> huge s1" "gd2_stuck s1"
    using Cons.prems(2,3) gd3_perturb_frame [of rmax rnd sk] gd2_stuck_cong [of s1 "fst sk"] p by simp_all
  obtain y where "gd_loop (t = 10) 0 s1 = Some y" using gd_loop_returns [OF s1(1)] by blast
  then obtain s2 where r1: "RunGlobalDecoding (t = 10) s1 = Some s2" by (simp add: RunGlobalDecoding_def)
  then have s2: "0 \<le> huge s2" "gd2_stuck s2"
    using RunGlobalDecoding_Some [OF r1] s1 gd2_stuck_cong [of s2 s1] by simp_all
  show ?case
  proof (cases "t = 10")
    case True
    have "gd2_loop thr rnd True 0 ma0 0 k1 s2 = None" by (rule gd2_loop_stuck_None [OF s2(2) assms(4)])
    then have "RunGlobalDecoding2 thr rnd True ma0 s2 k1 = None" by (simp add: RunGlobalDecoding2_def)
    then show ?thesis using p r1 True by simp
  next
    case False
    obtain y2 where "gd2_loop thr rnd False 0 ma0 0 k1 s2 = Some y2" using gd2_loop_returns by blast
    then obtain s3 k3 where r2: "RunGlobalDecoding2 thr rnd False ma0 s2 k1 = Some (s3, k3)"
      by (cases y2) (simp add: RunGlobalDecoding2_def)
    let ?t = "s3\<lparr>m_all_regions := m_all_regions sv, m_sum_into_intersects := m_sum_into_intersects sv\<rparr>"
    have "0 \<le> huge ?t" "gd2_stuck ?t"
      using RunGlobalDecoding2_Some [OF r2] s2 gd2_stuck_cong [of ?t s2] by simp_all
    moreover have "10 \<in> set ts" using Cons.prems(1) False by simp
    ultimately have "gd3_trials thr rmax rnd ma0 sv ts (?t, k3) = None" using Cons.IH by simp
    then show ?thesis using p r1 r2 False by simp
  qed
qed

text \<open>What the selection loop of a pass computes: the smallest gap is at most
  its start and every visited gap, and the selected variable is a visited one
  holding the smallest gap, unless the smallest gap is still the start, when it
  may be the initial one.\<close>

lemma gd2_scan_min:
  assumes "gd2_scan s rnd xs sg0 idx0 m ma k = (sg, idx, rest)"
  shows "sg \<le> sg0 \<and> (\<forall>i\<in>set xs. sg \<le> fst (gap s i 0))
    \<and> (sg < sg0 \<longrightarrow> idx \<in> set xs \<and> fst (gap s idx 0) = sg)
    \<and> (sg = sg0 \<longrightarrow> idx = idx0 \<or> (idx \<in> set xs \<and> fst (gap s idx 0) = sg0))"
  using assms
proof (induction xs arbitrary: sg0 idx0 m ma k)
  case Nil
  then show ?case by simp
next
  case (Cons i xs)
  obtain g m' where gm: "gap s i m = (g, m')" by (cases "gap s i m") auto
  have G: "fst (gap s i 0) = g" using gap_fst_indep [of s i m] gm by simp
  show ?case
  proof (cases "g < sg0")
    case True
    then have "gd2_scan s rnd xs g i m' (ma(i := m')) k = (sg, idx, rest)" using Cons.prems gm by simp
    from Cons.IH [OF this] show ?thesis using G True by auto
  next
    case ge: False
    show ?thesis
    proof (cases "g = sg0")
      case True
      then have "gd2_scan s rnd xs sg0 (if rnd k mod 2 \<noteq> 0 then i else idx0) m' (ma(i := m')) (Suc k)
          = (sg, idx, rest)" using Cons.prems gm by simp
      from Cons.IH [OF this] show ?thesis using G True by (auto split: if_splits)
    next
      case False
      then have "gd2_scan s rnd xs sg0 idx0 m' (ma(i := m')) k = (sg, idx, rest)" using Cons.prems gm ge by simp
      from Cons.IH [OF this] show ?thesis using G ge False by auto
    qed
  qed
qed

text \<open>C37.  Outside exhaustive mode \<open>RunGlobalDecoding2\<close> returns, whatever the
  \<open>rand()\<close> stream, the threshold and the beliefs: its iteration budget of 1000
  ends the loop.  The state it returns has the beliefs, regions and evidence it
  started with and an incumbent score no lower.\<close>

theorem RunGlobalDecoding2_returns:
  "\<exists>s' k'. RunGlobalDecoding2 thr rnd False ma0 s k = Some (s', k')
     \<and> m_sum_into_intersects s' = m_sum_into_intersects s \<and> m_all_regions s' = m_all_regions s
     \<and> evidence s' = evidence s \<and> m_best_val s \<le> m_best_val s'"
proof -
  obtain y where "gd2_loop thr rnd False 0 ma0 0 k s = Some y" using gd2_loop_returns by blast
  then obtain s' k' where "RunGlobalDecoding2 thr rnd False ma0 s k = Some (s', k')"
    by (cases y) (simp add: RunGlobalDecoding2_def)
  then show ?thesis using RunGlobalDecoding2_Some by blast
qed

text \<open>C38.  In exhaustive mode \<open>RunGlobalDecoding2\<close> need not return: when
  variable \<open>0\<close> is decided and the undecided variables all have a single state,
  every gap ties the initial smallest gap \<open>MPLP_huge\<close>, and while \<open>rand()\<close> gives
  even values the selection keeps its initial index \<open>0\<close>.  Each pass then
  re-fixes the decided variable \<open>0\<close> (to the value \<open>max_at[0]\<close>, never written in
  this call) instead of an undecided one, and the loop does not end.\<close>

theorem RunGlobalDecoding2_exhaustive_stuck:
  assumes "evidence s 0 \<noteq> None" "not_decoded s \<noteq> []" "\<forall>i\<in>set (not_decoded s). m_var_sizes s ! i < 2"
    and "\<forall>j. even (rnd j)"
  shows "RunGlobalDecoding2 thr rnd True ma0 s k = None"
proof -
  have "gd2_stuck s" using assms(1-3) by (simp add: gd2_stuck_def)
  then have "gd2_loop thr rnd True 0 ma0 0 k s = None" using assms(4) by (rule gd2_loop_stuck_None)
  then show ?thesis by (simp add: RunGlobalDecoding2_def)
qed

text \<open>C39.  Hence \<open>RunGlobalDecoding3\<close> need not return either: from such a
  state (with \<open>MPLP_huge\<close> not negative) its first ten trials return and restore
  the evidence, and the exhaustive \<open>RunGlobalDecoding2\<close> of its last trial does
  not return.\<close>

theorem RunGlobalDecoding3_stuck:
  assumes "0 \<le> huge s" "evidence s 0 \<noteq> None" "not_decoded s \<noteq> []"
    and "\<forall>i\<in>set (not_decoded s). m_var_sizes s ! i < 2" "\<forall>j. even (rnd j)"
  shows "RunGlobalDecoding3 thr rmax rnd ma0 s k = None"
proof -
  have "gd2_stuck s" using assms(2-4) by (simp add: gd2_stuck_def)
  then have "gd3_trials thr rmax rnd ma0 s [0..<11] (s, k) = None"
    using assms(1,5) by (intro gd3_trials_stuck) simp_all
  then show ?thesis by (simp add: RunGlobalDecoding3_def)
qed

text \<open>C40.  When some undecided variable has a gap below \<open>MPLP_huge\<close>, the
  selection loop of \<open>RunGlobalDecoding2\<close> picks an undecided variable whose gap
  is the smallest among the undecided variables, whatever \<open>rand()\<close> returns on
  ties.\<close>

theorem gd2_scan_smallest:
  assumes "\<exists>i\<in>set (not_decoded s). fst (gap s i 0) < huge s"
  shows "fst (snd (gd2_scan s rnd (not_decoded s) (huge s) 0 m ma k)) \<in> set (not_decoded s)
    \<and> (\<forall>i\<in>set (not_decoded s). fst (gap s (fst (snd (gd2_scan s rnd (not_decoded s) (huge s) 0 m ma k))) 0)
                                \<le> fst (gap s i 0))"
proof -
  obtain sg idx rest where r: "gd2_scan s rnd (not_decoded s) (huge s) 0 m ma k = (sg, idx, rest)"
    using prod_cases3 by blast
  note mn = gd2_scan_min [OF r]
  obtain i0 where "i0 \<in> set (not_decoded s)" "fst (gap s i0 0) < huge s" using assms by blast
  then have "sg < huge s" using mn by fastforce
  then show ?thesis using mn r by auto
qed

section \<open>Witnesses\<close>

theorem RunGlobalDecoding2_exhaustive_stuck_witness:
  "RunGlobalDecoding2 0 (\<lambda>_. 0) True (\<lambda>_. 0)
     (Init False (\<lambda>_ _. 0) [2, 1] [([0, 1], [0, 0])] (MPLPAlg_new 100 (10^40) 1 [0 \<mapsto> 0])) 0 = None"
proof -
  let ?s = "Init False (\<lambda>_ _. 0) [2, 1] [([0, 1], [0, 0])] (MPLPAlg_new 100 (10^40) 1 [0 \<mapsto> 0])"
  have e: "evidence ?s 0 \<noteq> None" by code_simp
  have n: "not_decoded ?s = [1]" by code_simp
  have v: "m_var_sizes ?s = [2, 1]" by code_simp
  show ?thesis
    using RunGlobalDecoding2_exhaustive_stuck [of ?s "\<lambda>_. 0" 0 "\<lambda>_. 0" 0] e n v by simp
qed

theorem RunGlobalDecoding3_stuck_witness:
  "RunGlobalDecoding3 0 1 (\<lambda>_. 0) (\<lambda>_. 0)
     (Init False (\<lambda>_ _. 0) [2, 1] [([0, 1], [0, 0])] (MPLPAlg_new 100 (10^40) 1 [0 \<mapsto> 0])) 0 = None"
proof -
  let ?s = "Init False (\<lambda>_ _. 0) [2, 1] [([0, 1], [0, 0])] (MPLPAlg_new 100 (10^40) 1 [0 \<mapsto> 0])"
  have e: "evidence ?s 0 \<noteq> None" by code_simp
  have n: "not_decoded ?s = [1]" by code_simp
  have v: "m_var_sizes ?s = [2, 1]" by code_simp
  have h: "0 \<le> huge ?s" by code_simp
  show ?thesis
    using RunGlobalDecoding3_stuck [of ?s "\<lambda>_. 0" 0 1 "\<lambda>_. 0" 0] e n v h by simp
qed

theorem gd2_scan_smallest_witness:
  "fst (snd (gd2_scan (Init False (\<lambda>_ _. 0) [2, 2] [([0], [5, 0]), ([1], [0, 1])] (MPLPAlg_new 100 (10^40) 1 Map.empty))
        (\<lambda>_. 0) (not_decoded (Init False (\<lambda>_ _. 0) [2, 2] [([0], [5, 0]), ([1], [0, 1])] (MPLPAlg_new 100 (10^40) 1 Map.empty)))
        (huge (Init False (\<lambda>_ _. 0) [2, 2] [([0], [5, 0]), ([1], [0, 1])] (MPLPAlg_new 100 (10^40) 1 Map.empty)))
        0 0 (\<lambda>_. 0) 0)) = 1"
proof -
  let ?s = "Init False (\<lambda>_ _. 0) [2, 2] [([0], [5, 0]), ([1], [0, 1])] (MPLPAlg_new 100 (10^40) 1 Map.empty)"
  let ?j = "fst (snd (gd2_scan ?s (\<lambda>_. 0) (not_decoded ?s) (huge ?s) 0 0 (\<lambda>_. 0) 0))"
  have n: "not_decoded ?s = [0, 1]" by code_simp
  have h: "huge ?s = 10^40" by code_simp
  have g0: "fst (gap ?s 0 0) = 5" by code_simp
  have g1: "fst (gap ?s 1 0) = 1" by code_simp
  have one: "1 \<in> set (not_decoded ?s)" using n by simp
  have "\<exists>i\<in>set (not_decoded ?s). fst (gap ?s i 0) < huge ?s" using one h g1 by force
  then have sm: "?j \<in> set (not_decoded ?s) \<and> (\<forall>i\<in>set (not_decoded ?s). fst (gap ?s ?j 0) \<le> fst (gap ?s i 0))"
    by (rule gd2_scan_smallest)
  have key: "j \<in> set (not_decoded ?s) \<Longrightarrow> fst (gap ?s j 0) \<le> fst (gap ?s 1 0) \<Longrightarrow> j = 1" for j
    using n g0 g1 by auto
  show ?thesis using sm one by (blast intro: key)
qed

end
