(* ===== verification/Sweeps.thy ===== *)
theory Sweeps
  imports MPLP_Solver
begin

text \<open>
  Region updates as a state machine on the pair (regions, arena of beliefs).
  \<open>arena_step\<close> lets any region run \<open>Region::UpdateMsgs\<close> at any time, so its
  runs are every order and interleaving of region updates, the freedom the spec
  grants (section 4.3: the order affects the speed, not the bound; section 5:
  regions may be updated in any serialised order).  By rule induction every run
  keeps the invariant \<open>arena_inv\<close> and never raises the dual objective (C23),
  and the catalogue-order sweep of \<open>RunMPLP\<close> (\<open>UpdateAll\<close>) is one such run
  (C24).
\<close>

inductive arena_step :: "region list \<times> mdarr list \<Rightarrow> region list \<times> mdarr list \<Rightarrow> bool" where
  update: "i < length rs \<Longrightarrow> UpdateMsgs (rs ! i) S = (r', S') \<Longrightarrow> arena_step (rs, S) (rs[i := r'], S')"

inductive_cases arena_stepE [elim!]: "arena_step (rs, S) y"

text \<open>The arena's tables are well formed and every region fits it.\<close>

definition arena_inv :: "region list \<times> mdarr list \<Rightarrow> bool" where
  "arena_inv x \<longleftrightarrow> tables_wf (snd x) \<and> (\<forall>r\<in>set (fst x). region_wf r (shapes (snd x)))"

lemma arena_step_inv:
  assumes "arena_step x y" "arena_inv x"
  shows "arena_inv y \<and> shapes (snd y) = shapes (snd x) \<and> dual_obj (snd y) \<le> dual_obj (snd x)
    \<and> length (fst y) = length (fst x)"
  using assms
proof (induction rule: arena_step.induct)
  case (update i rs S r' S')
  have wf: "region_wf (rs ! i) (shapes S)" and tw: "tables_wf S"
    using update.prems update.hyps(1) by (auto simp: arena_inv_def)
  note P = UpdateMsgs_preserves_wf [OF wf tw update.hyps(2)]
  have "\<forall>r\<in>set (rs[i := r']). region_wf r (shapes S')"
    using P update.prems by (auto simp: arena_inv_def dest: set_update_subset_insert [THEN subsetD])
  then show ?case
    using P UpdateMsgs_dual_obj_le [OF wf tw update.hyps(2)] by (simp add: arena_inv_def)
qed

text \<open>C23.  Whatever the order and interleaving of region updates, a run from a
  state satisfying the invariant keeps it, keeps every table's shape, and ends
  with a dual objective no larger than where it started.\<close>

theorem arena_steps_monotone:
  assumes "arena_step\<^sup>*\<^sup>* x y" "arena_inv x"
  shows "arena_inv y \<and> shapes (snd y) = shapes (snd x) \<and> dual_obj (snd y) \<le> dual_obj (snd x)"
  using assms
proof (induction rule: rtranclp_induct)
  case base
  then show ?case by simp
next
  case (step y z)
  then show ?case using arena_step_inv [of y z] by fastforce
qed



theorem arena_steps_monotone_witness:
  "arena_inv (m_all_regions (Init False (\<lambda>_ _. 0) [2,2] [([0,1],[2,0,0,2])] (MPLPAlg_new 100 (10^40) 1 Map.empty)), m_sum_into_intersects (Init False (\<lambda>_ _. 0) [2,2] [([0,1],[2,0,0,2])] (MPLPAlg_new 100 (10^40) 1 Map.empty)))
   \<and> arena_step\<^sup>*\<^sup>* (m_all_regions (Init False (\<lambda>_ _. 0) [2,2] [([0,1],[2,0,0,2])] (MPLPAlg_new 100 (10^40) 1 Map.empty)), m_sum_into_intersects (Init False (\<lambda>_ _. 0) [2,2] [([0,1],[2,0,0,2])] (MPLPAlg_new 100 (10^40) 1 Map.empty))) ((m_all_regions (Init False (\<lambda>_ _. 0) [2,2] [([0,1],[2,0,0,2])] (MPLPAlg_new 100 (10^40) 1 Map.empty)))[0 := fst (UpdateMsgs (m_all_regions (Init False (\<lambda>_ _. 0) [2,2] [([0,1],[2,0,0,2])] (MPLPAlg_new 100 (10^40) 1 Map.empty)) ! 0) (m_sum_into_intersects (Init False (\<lambda>_ _. 0) [2,2] [([0,1],[2,0,0,2])] (MPLPAlg_new 100 (10^40) 1 Map.empty))))], snd (UpdateMsgs (m_all_regions (Init False (\<lambda>_ _. 0) [2,2] [([0,1],[2,0,0,2])] (MPLPAlg_new 100 (10^40) 1 Map.empty)) ! 0) (m_sum_into_intersects (Init False (\<lambda>_ _. 0) [2,2] [([0,1],[2,0,0,2])] (MPLPAlg_new 100 (10^40) 1 Map.empty)))))
   \<and> dual_obj (snd (UpdateMsgs (m_all_regions (Init False (\<lambda>_ _. 0) [2,2] [([0,1],[2,0,0,2])] (MPLPAlg_new 100 (10^40) 1 Map.empty)) ! 0) (m_sum_into_intersects (Init False (\<lambda>_ _. 0) [2,2] [([0,1],[2,0,0,2])] (MPLPAlg_new 100 (10^40) 1 Map.empty))))) \<le> dual_obj (m_sum_into_intersects (Init False (\<lambda>_ _. 0) [2,2] [([0,1],[2,0,0,2])] (MPLPAlg_new 100 (10^40) 1 Map.empty)))"
proof -
  have i: "arena_inv (m_all_regions (Init False (\<lambda>_ _. 0) [2,2] [([0,1],[2,0,0,2])] (MPLPAlg_new 100 (10^40) 1 Map.empty)), m_sum_into_intersects (Init False (\<lambda>_ _. 0) [2,2] [([0,1],[2,0,0,2])] (MPLPAlg_new 100 (10^40) 1 Map.empty)))" unfolding arena_inv_def by code_simp
  have l: "0 < length (m_all_regions (Init False (\<lambda>_ _. 0) [2,2] [([0,1],[2,0,0,2])] (MPLPAlg_new 100 (10^40) 1 Map.empty)))" by code_simp
  have st: "arena_step\<^sup>*\<^sup>* (m_all_regions (Init False (\<lambda>_ _. 0) [2,2] [([0,1],[2,0,0,2])] (MPLPAlg_new 100 (10^40) 1 Map.empty)), m_sum_into_intersects (Init False (\<lambda>_ _. 0) [2,2] [([0,1],[2,0,0,2])] (MPLPAlg_new 100 (10^40) 1 Map.empty))) ((m_all_regions (Init False (\<lambda>_ _. 0) [2,2] [([0,1],[2,0,0,2])] (MPLPAlg_new 100 (10^40) 1 Map.empty)))[0 := fst (UpdateMsgs (m_all_regions (Init False (\<lambda>_ _. 0) [2,2] [([0,1],[2,0,0,2])] (MPLPAlg_new 100 (10^40) 1 Map.empty)) ! 0) (m_sum_into_intersects (Init False (\<lambda>_ _. 0) [2,2] [([0,1],[2,0,0,2])] (MPLPAlg_new 100 (10^40) 1 Map.empty))))], snd (UpdateMsgs (m_all_regions (Init False (\<lambda>_ _. 0) [2,2] [([0,1],[2,0,0,2])] (MPLPAlg_new 100 (10^40) 1 Map.empty)) ! 0) (m_sum_into_intersects (Init False (\<lambda>_ _. 0) [2,2] [([0,1],[2,0,0,2])] (MPLPAlg_new 100 (10^40) 1 Map.empty)))))"
    by (rule r_into_rtranclp, rule arena_step.update [OF l]) simp
  show ?thesis using arena_steps_monotone [OF st i] i st by simp
qed

end
