(* ===== verification/RegionCtor.thy ===== *)
theory RegionCtor
  imports Region
begin

text \<open>The construction of a region, \<open>Region::Region\<close> (\<open>mplp_alg.cpp\<close> lines
  33--72), as modelled by \<open>find_pos\<close>, \<open>intersect_positions\<close>,
  \<open>region_ctor_loop\<close> and \<open>Region\<close> of theory \<open>Region\<close>.  The lemmas show that
  the position search inverts indexing into the region's variable list, that the
  constructor builds one position list and one zero message per intersection
  when every intersection lies inside the region, and the error path: a
  variable missing from the region makes the C++ \<open>return\<close> early, leaving a
  region that no arena accepts.\<close>

lemma find_pos_Some: "find_pos v xs = Some k \<Longrightarrow> k < length xs \<and> xs ! k = v"
  by (induction xs arbitrary: k) (auto split: if_splits)

lemma find_pos_None: "find_pos v xs = None \<longleftrightarrow> v \<notin> set xs"
  by (induction xs) auto

lemma intersect_positions_Some:
  "intersect_positions xs rinds = Some ps \<Longrightarrow> map ((!) rinds) ps = xs \<and> (\<forall>k\<in>set ps. k < length rinds)"
  by (induction xs arbitrary: ps)
     (auto split: option.splits dest!: find_pos_Some)

lemma intersect_positions_None:
  "intersect_positions xs rinds = None \<longleftrightarrow> \<not> set xs \<subseteq> set rinds"
proof (induction xs)
  case Nil
  then show ?case by simp
next
  case (Cons v xs)
  show ?case
  proof (cases "find_pos v rinds")
    case None
    then have "v \<notin> set rinds" using find_pos_None by blast
    then show ?thesis using None by simp
  next
    case (Some k)
    then have "v \<in> set rinds" using find_pos_Some [OF Some] nth_mem by metis
    then show ?thesis using Cons Some by simp
  qed
qed

lemma region_ctor_loop_ok:
  "(\<forall>s\<in>set ss. set (all_int ! s) \<subseteq> set rinds) \<Longrightarrow>
   region_ctor_loop rinds all_int vs ss (ioi, msgs)
     = ((ioi @ map (\<lambda>s. the (intersect_positions (all_int ! s) rinds)) ss,
         msgs @ map (\<lambda>s. MulDimArr_zero (map ((!) vs) (all_int ! s))) ss), True)"
proof (induction ss arbitrary: ioi msgs)
  case Nil
  then show ?case by simp
next
  case (Cons s ss)
  have "intersect_positions (all_int ! s) rinds \<noteq> None"
    using Cons.prems intersect_positions_None [of "all_int ! s" rinds] by simp
  then obtain ps where "intersect_positions (all_int ! s) rinds = Some ps" by (auto simp: not_None_eq)
  then show ?case using Cons by simp
qed

lemma region_ctor_loop_fail:
  "\<not> (\<forall>s\<in>set ss. set (all_int ! s) \<subseteq> set rinds) \<Longrightarrow>
   snd (region_ctor_loop rinds all_int vs ss (ioi, msgs)) = False
   \<and> length (fst (fst (region_ctor_loop rinds all_int vs ss (ioi, msgs)))) < length ioi + length ss"
proof (induction ss arbitrary: ioi msgs)
  case Nil
  then show ?case by simp
next
  case (Cons s ss)
  show ?case
  proof (cases "set (all_int ! s) \<subseteq> set rinds")
    case True
    then have "intersect_positions (all_int ! s) rinds \<noteq> None"
      using intersect_positions_None [of "all_int ! s" rinds] by simp
    then obtain ps where p: "intersect_positions (all_int ! s) rinds = Some ps" by (auto simp: not_None_eq)
    have "\<not> (\<forall>s\<in>set ss. set (all_int ! s) \<subseteq> set rinds)" using Cons.prems True by simp
    then show ?thesis using Cons.IH [of "ioi @ [ps]"] p by simp
  next
    case False
    then have n: "intersect_positions (all_int ! s) rinds = None"
      using intersect_positions_None [of "all_int ! s" rinds] by simp
    have "region_ctor_loop rinds all_int vs (s # ss) (ioi, msgs) = ((ioi, msgs), False)"
      by (simp only: region_ctor_loop.simps n option.case)
    then show ?thesis by simp
  qed
qed

text \<open>C25.  When every intersection lies inside the region, the constructor runs
  to completion: one position list and one zero message per intersection, the
  positions are in range and index back to the intersection's variables in
  order, each message is the zero table over the intersection's sizes, and the
  region's sizes are the sizes of its variables.\<close>

theorem Region_ctor_success:
  assumes "\<forall>s\<in>set iinds. set (all_int ! s) \<subseteq> set rinds"
  shows "length (m_inds_of_intersects (Region rinds all_int iinds vs rint)) = length iinds
    \<and> length (m_msgs_from_region (Region rinds all_int iinds vs rint)) = length iinds
    \<and> r_var_sizes (Region rinds all_int iinds vs rint) = map ((!) vs) rinds
    \<and> (\<forall>si<length iinds.
          map ((!) rinds) (m_inds_of_intersects (Region rinds all_int iinds vs rint) ! si) = all_int ! (iinds ! si)
        \<and> (\<forall>k\<in>set (m_inds_of_intersects (Region rinds all_int iinds vs rint) ! si). k < length rinds)
        \<and> m_msgs_from_region (Region rinds all_int iinds vs rint) ! si
            = MulDimArr_zero (map ((!) vs) (all_int ! (iinds ! si))))"
proof -
  have R: "Region rinds all_int iinds vs rint =
     \<lparr>m_region_inds = rinds, m_intersect_inds = iinds,
      m_inds_of_intersects = map (\<lambda>s. the (intersect_positions (all_int ! s) rinds)) iinds,
      m_msgs_from_region = map (\<lambda>s. MulDimArr_zero (map ((!) vs) (all_int ! s))) iinds,
      r_var_sizes = map ((!) vs) rinds, m_region_intersect = rint\<rparr>"
    using region_ctor_loop_ok [OF assms, of vs "[]" "[]"] by (simp add: Region_def)
  have "map ((!) rinds) (the (intersect_positions (all_int ! s) rinds)) = all_int ! s
      \<and> (\<forall>k\<in>set (the (intersect_positions (all_int ! s) rinds)). k < length rinds)" if si: "s \<in> set iinds" for s
  proof -
    have "intersect_positions (all_int ! s) rinds \<noteq> None"
      using assms si intersect_positions_None [of "all_int ! s" rinds] by simp
    then obtain ps where "intersect_positions (all_int ! s) rinds = Some ps" by (auto simp: not_None_eq)
    then show ?thesis using intersect_positions_Some by simp
  qed
  then have "map ((!) rinds) (the (intersect_positions (all_int ! (iinds ! si)) rinds)) = all_int ! (iinds ! si)
      \<and> (\<forall>k\<in>set (the (intersect_positions (all_int ! (iinds ! si)) rinds)). k < length rinds)"
    if "si < length iinds" for si
    using that nth_mem by blast
  then show ?thesis unfolding R by simp
qed

text \<open>C26.  The error path of the constructor: when an intersection holds a
  variable that is not in the region, the C++ returns from the constructor
  early, so fewer position lists than intersections are built, \<open>m_var_sizes\<close>
  stays empty, and the region satisfies the region invariant over no arena.\<close>

theorem Region_ctor_missing_variable:
  assumes "\<exists>s\<in>set iinds. \<not> set (all_int ! s) \<subseteq> set rinds"
  shows "length (m_inds_of_intersects (Region rinds all_int iinds vs rint)) < length iinds
    \<and> r_var_sizes (Region rinds all_int iinds vs rint) = []
    \<and> (\<forall>shp. \<not> region_wf (Region rinds all_int iinds vs rint) shp)"
proof -
  have "length (m_inds_of_intersects (Region rinds all_int iinds vs rint)) < length iinds"
    using region_ctor_loop_fail [of iinds all_int rinds vs "[]" "[]"] assms
    by (simp add: Region_def case_prod_beta)
  moreover have "r_var_sizes (Region rinds all_int iinds vs rint) = []"
    using region_ctor_loop_fail [of iinds all_int rinds vs "[]" "[]"] assms
    by (simp add: Region_def case_prod_beta)
  moreover have "m_intersect_inds (Region rinds all_int iinds vs rint) = iinds"
    by (simp add: Region_def case_prod_beta)
  moreover have "length (m_inds_of_intersects r) = length (m_intersect_inds r)" if "region_wf r shp" for r shp
    using that by (simp add: region_wf_def Let_def)
  ultimately show ?thesis by fastforce
qed

theorem Region_ctor_success_witness:
  "length (m_inds_of_intersects (Region [0, 1] [[0], [1], [0, 1]] [0, 1] [2, 2] 2)) = 2
   \<and> r_var_sizes (Region [0, 1] [[0], [1], [0, 1]] [0, 1] [2, 2] 2) = [2, 2]
   \<and> map ((!) [0::nat, 1]) (m_inds_of_intersects (Region [0, 1] [[0], [1], [0, 1]] [0, 1] [2, 2] 2) ! 1) = [1]
   \<and> m_msgs_from_region (Region [0, 1] [[0], [1], [0, 1]] [0, 1] [2, 2] 2) ! 0 = MulDimArr_zero [2]"
proof -
  have h: "\<forall>s\<in>set [0, 1]. set ([[0], [1], [0, 1]] ! s) \<subseteq> set [0::nat, 1]" by simp
  note c = Region_ctor_success [OF h, of "[2, 2]" 2]
  have i1: "map ((!) [0::nat, 1]) (m_inds_of_intersects (Region [0, 1] [[0], [1], [0, 1]] [0, 1] [2, 2] 2) ! 1)
      = [[0], [1], [0, 1]] ! ([0, 1] ! 1)"
    using c [THEN conjunct2, THEN conjunct2, THEN conjunct2, rule_format, of 1] by simp
  have i0: "m_msgs_from_region (Region [0, 1] [[0], [1], [0, 1]] [0, 1] [2, 2] 2) ! 0
      = MulDimArr_zero (map ((!) [2, 2]) ([[0], [1], [0, 1]] ! ([0, 1] ! 0)))"
    using c [THEN conjunct2, THEN conjunct2, THEN conjunct2, rule_format, of 0] by simp
  show ?thesis using c i1 i0 by simp
qed

theorem Region_ctor_missing_variable_witness:
  "length (m_inds_of_intersects (Region [0] [[0], [1], [0, 1]] [0, 2] [2, 2] 1)) < 2
   \<and> r_var_sizes (Region [0] [[0], [1], [0, 1]] [0, 2] [2, 2] 1) = []
   \<and> \<not> region_wf (Region [0] [[0], [1], [0, 1]] [0, 2] [2, 2] 1) [[2], [2], [2, 2]]"
proof -
  have h: "\<exists>s\<in>set [0, 2]. \<not> set ([[0], [1], [0, 1]] ! s) \<subseteq> set [0::nat]" by simp
  show ?thesis using Region_ctor_missing_variable [OF h, of "[2, 2]" 1] by simp
qed

end
