(* ===== verification/VecOps.thy ===== *)
theory VecOps
  imports MulDimArr
begin

text \<open>
  The class \<open>mplpLib::Vec\<close> of \<open>matrix.cpp\<close> (lines 8--220) beyond the four
  operations the solver uses (\<open>vec_fill\<close>, \<open>vec_add\<close>, \<open>vec_sub\<close>, \<open>vec_scale\<close> and
  \<open>Vec_Max\<close> of theory \<open>MulDimArr\<close>).  A \<open>Vec\<close> is its array \<open>m_dat\<close> of
  \<open>m_size\<close> doubles, here a \<open>real list\<close>; an operation of the receiver returns
  its new contents.  Every loop runs over the receiver's own elements
  (\<open>p < m_ep\<close>) and reads an argument vector at the same offset.  Division is
  HOL's, where \<open>x / 0 = 0\<close>; the IEEE infinities are not modelled.  The I/O
  (\<open>Read\<close>, \<open>Write\<close>, \<open>Print\<close>), \<open>Rand\<close> and \<open>SetSize\<close> are in theory
  \<open>MatrixIO\<close>; \<open>Log\<close>, \<open>Exp\<close> and \<open>KL_Dist\<close> are commented out in the source.
\<close>

type_synonym vec = "real list"

section \<open>Reductions\<close>

text \<open>\<open>Vec::Min\<close> (lines 77--85): the running minimum from the first element.\<close>

definition Vec_Min :: "vec \<Rightarrow> real" where
  "Vec_Min xs = fold (\<lambda>v m. if v < m then v else m) (tl xs) (hd xs)"

text \<open>\<open>Vec::MaxMin\<close> (lines 87--99): both scans in one loop, through two
  reference parameters, here a pair.\<close>

definition Vec_MaxMin :: "vec \<Rightarrow> real \<times> real" where
  "Vec_MaxMin xs = fold (\<lambda>v (mx, mn). (if v > mx then v else mx, if v < mn then v else mn))
                        (tl xs) (hd xs, hd xs)"

text \<open>\<open>Vec::Sum\<close> (lines 101--107).\<close>

definition Vec_Sum :: "vec \<Rightarrow> real" where
  "Vec_Sum xs = fold (\<lambda>v s. s + v) xs 0"

section \<open>Element-wise operations\<close>

text \<open>\<open>Vec::operator=(Vec&)\<close> (lines 20--26): copy the argument's first
  \<open>size()\<close> elements.\<close>

definition Vec_copy :: "vec \<Rightarrow> vec \<Rightarrow> vec" where
  "Vec_copy p v = map (\<lambda>i. v ! i) [0..<length p]"

definition Vec_div_const :: "vec \<Rightarrow> real \<Rightarrow> vec" where
  "Vec_div_const p c = map (\<lambda>x. x / c) p"

definition Vec_Inv :: "vec \<Rightarrow> vec" where
  "Vec_Inv p = map (\<lambda>x. 1 / x) p"

definition Vec_add_const :: "vec \<Rightarrow> real \<Rightarrow> vec" where
  "Vec_add_const p c = map (\<lambda>x. x + c) p"

definition Vec_sub_const :: "vec \<Rightarrow> real \<Rightarrow> vec" where
  "Vec_sub_const p c = map (\<lambda>x. x - c) p"

definition Vec_mult :: "vec \<Rightarrow> vec \<Rightarrow> vec" where
  "Vec_mult p v = map (\<lambda>i. p ! i * v ! i) [0..<length p]"

definition Vec_div :: "vec \<Rightarrow> vec \<Rightarrow> vec" where
  "Vec_div p v = map (\<lambda>i. p ! i / v ! i) [0..<length p]"

text \<open>\<open>Vec::BackDiv\<close> (lines 197--204): the argument divided by the receiver.\<close>

definition Vec_BackDiv :: "vec \<Rightarrow> vec \<Rightarrow> vec" where
  "Vec_BackDiv p v = map (\<lambda>i. v ! i / p ! i) [0..<length p]"

section \<open>Lemmas\<close>

lemma fold_add_sum_list:
  fixes xs :: "real list"
  shows "fold (\<lambda>v s. s + v) xs a = a + sum_list xs"
  by (induction xs arbitrary: a) (simp_all add: algebra_simps)

lemma fold_add_map_sum_list:
  fixes f :: "'a \<Rightarrow> real"
  shows "fold (\<lambda>j s. s + f j) xs a = a + sum_list (map f xs)"
  by (induction xs arbitrary: a) (simp_all add: algebra_simps)

lemma sum_list_map_upt:
  fixes f :: "nat \<Rightarrow> real"
  shows "sum_list (map f [0..<n]) = (\<Sum>i<n. f i)"
  by (simp add: interv_sum_list_conv_sum_set_nat atLeast0LessThan)

lemma sum_list_concat_lists:
  fixes xss :: "real list list"
  shows "sum_list (concat xss) = sum_list (map sum_list xss)"
  by (induction xss) simp_all

lemma fold_update_upt_full:
  "length d = k \<Longrightarrow> fold (\<lambda>i d. d[i := f i]) [0..<k] d = map f [0..<k]"
  by (simp add: fold_update_upt)

lemma Vec_Sum_sum_list:
  "Vec_Sum xs = sum_list xs"
  by (simp add: Vec_Sum_def fold_add_sum_list)

lemma Vec_Min_Min:
  "xs \<noteq> [] \<Longrightarrow> Vec_Min xs = Min (set xs)"
proof (cases xs)
  case (Cons v vs)
  have "(\<lambda>w m. if w < m then w else m) = (min :: real \<Rightarrow> real \<Rightarrow> real)"
    by (auto simp: fun_eq_iff min_def)
  then have "Vec_Min xs = fold min vs v" using Cons by (simp add: Vec_Min_def)
  also have "\<dots> = Min (set (v # vs))" by (rule Min.set_eq_fold [symmetric])
  finally show ?thesis using Cons by simp
qed simp

lemma fold_pair_scan:
  "fold (\<lambda>v (a, b). (f v a, g v b)) xs (a, b) = (fold f xs a, fold g xs b)"
  by (induction xs arbitrary: a b) simp_all

text \<open>\<open>Vec::MaxMin\<close>'s one loop computes what \<open>Vec::Max\<close> and \<open>Vec::Min\<close>
  compute in two, on every vector; on a non-empty vector these are its largest
  and its smallest element.\<close>

theorem Vec_MaxMin_eq:
  "Vec_MaxMin xs = (Vec_Max xs, Vec_Min xs)
   \<and> (xs \<noteq> [] \<longrightarrow> Vec_MaxMin xs = (Max (set xs), Min (set xs)))"
proof -
  have e: "Vec_MaxMin xs = (Vec_Max xs, Vec_Min xs)"
    unfolding Vec_MaxMin_def Vec_Max_def Vec_Min_def by (rule fold_pair_scan)
  show ?thesis using e Vec_Max_Max Vec_Min_Min by simp
qed

theorem Vec_MaxMin_eq_witness:
  "Vec_MaxMin [3, -1, 4, 1] = (4, -1) \<and> Max (set [3, -1, 4, 1 :: real]) = 4"
proof -
  have "[3, -1, 4, 1 :: real] \<noteq> []" by simp
  then have "Vec_MaxMin [3, -1, 4, 1] = (Max (set [3, -1, 4, 1]), Min (set [3, -1, 4, 1]))"
    using Vec_MaxMin_eq [of "[3, -1, 4, 1]"] by blast
  then show ?thesis by simp
qed

end
