(* ===== verification/DenseMatrix.thy ===== *)
theory DenseMatrix
  imports VecOps
begin

text \<open>
  The class \<open>mplpLib::Matrix\<close> of \<open>matrix.cpp\<close> (lines 235--512): a dense
  \<open>m_nrows \<times> m_ncols\<close> matrix stored row-major in \<open>m_raw_dat\<close>, with the row
  pointers \<open>m_rows[i] = &m_raw_dat[i * m_ncols]\<close> set by the constructors.  The
  record \<open>matrix\<close> holds the two sizes and the \<open>rows * cols\<close> visible doubles;
  \<open>mat_get m i j\<close> is the element \<open>m_rows[i][j]\<close> that \<open>(*this)(i, j)\<close> reads.
  Operations of the receiver return its new value; the methods that fill an
  output \<open>Vec\<close> (\<open>GetRow\<close>, \<open>GetCol\<close>, \<open>SumRows\<close>, \<open>SumCols\<close>, \<open>VecMult\<close>,
  \<open>Vec::MatMult\<close>) take its old contents and return the new ones.  The nested
  loops are nested folds in the source's order.  The lemmas read every
  operation back through \<open>mat_get\<close>; the properties are the transpose round trip,
  the agreement of row sums, column sums and \<open>Sum\<close>, \<open>Vec::MatMult\<close> as
  \<open>VecMult\<close> of the transpose, the \<open>SetRow\<close>/\<open>GetRow\<close> round trip, and the undoing of
  \<open>ScaleRowsByVec\<close> by \<open>DivRowsByVec\<close>.
\<close>

record matrix =
  m_nrows :: nat
  m_ncols :: nat
  m_raw_dat :: vec

definition mat_wf :: "matrix \<Rightarrow> bool" where
  "mat_wf m \<longleftrightarrow> length (m_raw_dat m) = m_nrows m * m_ncols m"

section \<open>Construction and element access\<close>

text \<open>\<open>Matrix(rows, cols)\<close> (lines 235--242) allocates \<open>rows * cols\<close> doubles
  that it does not initialise; their indeterminate contents are the argument
  \<open>junk\<close>.\<close>

definition Matrix_new :: "nat \<Rightarrow> nat \<Rightarrow> (nat \<Rightarrow> real) \<Rightarrow> matrix" where
  "Matrix_new rows cols junk =
     \<lparr>m_nrows = rows, m_ncols = cols, m_raw_dat = map junk [0..<rows * cols]\<rparr>"


definition mat_get :: "matrix \<Rightarrow> nat \<Rightarrow> nat \<Rightarrow> real" where
  "mat_get m i j = m_raw_dat m ! (i * m_ncols m + j)"

text \<open>\<open>SetRow\<close> and \<open>GetRow\<close> (lines 278--287): a \<open>memcpy\<close> of \<open>m_ncols\<close> doubles
  between row \<open>i\<close> and the vector.\<close>

definition Matrix_SetRow :: "matrix \<Rightarrow> nat \<Rightarrow> vec \<Rightarrow> matrix" where
  "Matrix_SetRow m i v =
     m\<lparr>m_raw_dat := fold (\<lambda>j d. d[i * m_ncols m + j := v ! j]) [0..<m_ncols m] (m_raw_dat m)\<rparr>"

definition Matrix_GetRow :: "matrix \<Rightarrow> nat \<Rightarrow> vec \<Rightarrow> vec" where
  "Matrix_GetRow m i v = fold (\<lambda>j w. w[j := mat_get m i j]) [0..<m_ncols m] v"

text \<open>\<open>GetCol\<close> (lines 456--460).\<close>

definition Matrix_GetCol :: "matrix \<Rightarrow> nat \<Rightarrow> vec \<Rightarrow> vec" where
  "Matrix_GetCol m i v = fold (\<lambda>j w. w[j := mat_get m j i]) [0..<m_nrows m] v"

section \<open>Element-wise operations\<close>










text \<open>\<open>BackDiv\<close> (lines 369--375): \<open>this(i, j) = m(i, j) / this(i, j)\<close>, row by
  row.\<close>

definition Matrix_BackDiv :: "matrix \<Rightarrow> matrix \<Rightarrow> matrix" where
  "Matrix_BackDiv t m =
     t\<lparr>m_raw_dat := fold (\<lambda>i d. fold (\<lambda>j d. d[i * m_ncols t + j := mat_get m i j / d ! (i * m_ncols t + j)])
                                     [0..<m_ncols t] d) [0..<m_nrows t] (m_raw_dat t)\<rparr>"

section \<open>Row operations\<close>

text \<open>\<open>ScaleRow\<close> (lines 462--468), and the loops of \<open>ScaleRowsByVec\<close> and
  \<open>DivRowsByVec\<close> over it (lines 470--482).\<close>

definition Matrix_ScaleRow :: "matrix \<Rightarrow> nat \<Rightarrow> real \<Rightarrow> matrix" where
  "Matrix_ScaleRow m i s =
     m\<lparr>m_raw_dat := fold (\<lambda>j d. d[i * m_ncols m + j := d ! (i * m_ncols m + j) * s]) [0..<m_ncols m] (m_raw_dat m)\<rparr>"

definition Matrix_ScaleRowsByVec :: "matrix \<Rightarrow> vec \<Rightarrow> matrix" where
  "Matrix_ScaleRowsByVec m v = fold (\<lambda>i t. Matrix_ScaleRow t i (v ! i)) [0..<m_nrows m] m"

definition Matrix_DivRowsByVec :: "matrix \<Rightarrow> vec \<Rightarrow> matrix" where
  "Matrix_DivRowsByVec m v = fold (\<lambda>i t. Matrix_ScaleRow t i (1 / v ! i)) [0..<m_nrows m] m"

section \<open>Sums\<close>

text \<open>\<open>Sum\<close>, \<open>SumRow\<close>, \<open>SumCol\<close> (lines 429--454).  \<open>SumRow\<close> also opens an
  output file stream on a fixed Windows path on every call (line 442), which it
  never writes; that effect is not modelled.\<close>

definition Matrix_Sum :: "matrix \<Rightarrow> real" where
  "Matrix_Sum m = fold (\<lambda>x s. s + x) (m_raw_dat m) 0"

definition Matrix_SumRow :: "matrix \<Rightarrow> nat \<Rightarrow> real" where
  "Matrix_SumRow m i = fold (\<lambda>j s. s + mat_get m i j) [0..<m_ncols m] 0"

definition Matrix_SumCol :: "matrix \<Rightarrow> nat \<Rightarrow> real" where
  "Matrix_SumCol m i = fold (\<lambda>j s. s + mat_get m j i) [0..<m_nrows m] 0"

text \<open>\<open>SumRows\<close> and \<open>SumCols\<close> (lines 484--494).\<close>

definition Matrix_SumRows :: "matrix \<Rightarrow> vec \<Rightarrow> vec" where
  "Matrix_SumRows m v = fold (\<lambda>i w. w[i := Matrix_SumRow m i]) [0..<m_nrows m] v"

definition Matrix_SumCols :: "matrix \<Rightarrow> vec \<Rightarrow> vec" where
  "Matrix_SumCols m v = fold (\<lambda>i w. w[i := Matrix_SumCol m i]) [0..<m_ncols m] v"

section \<open>Products and transpose\<close>

text \<open>\<open>dot(a, b, n)\<close>, declared in \<open>matrix.h\<close>: the sum of the first \<open>n\<close>
  products, from the start of each array.\<close>

definition dot :: "vec \<Rightarrow> vec \<Rightarrow> nat \<Rightarrow> real" where
  "dot a b n = fold (\<lambda>k s. s + a ! k * b ! k) [0..<n] 0"

text \<open>\<open>VecMult\<close> (lines 377--384): \<open>v[i] = dot(m, row i, m_ncols)\<close>, the row
  pointer being the data from offset \<open>i * m_ncols\<close>.\<close>

definition Matrix_VecMult :: "matrix \<Rightarrow> vec \<Rightarrow> vec \<Rightarrow> vec" where
  "Matrix_VecMult m x v =
     fold (\<lambda>i w. w[i := dot x (drop (i * m_ncols m) (m_raw_dat m)) (m_ncols m)]) [0..<m_nrows m] v"

text \<open>\<open>Vec::MatMult\<close> (lines 206--220): \<open>v[i] = \<Sum>j this[j] * m(j, i)\<close> for
  each column \<open>i\<close>.\<close>

definition Vec_MatMult :: "vec \<Rightarrow> matrix \<Rightarrow> vec \<Rightarrow> vec" where
  "Vec_MatMult p m v =
     fold (\<lambda>i w. w[i := fold (\<lambda>j s. s + p ! j * mat_get m j i) [0..<m_nrows m] 0]) [0..<m_ncols m] v"

text \<open>\<open>Transpose\<close> (lines 506--512): \<open>dst(j, i) = this(i, j)\<close>, row by row of
  the receiver.\<close>

definition Matrix_Transpose :: "matrix \<Rightarrow> matrix \<Rightarrow> matrix" where
  "Matrix_Transpose m dst =
     dst\<lparr>m_raw_dat := fold (\<lambda>i d. fold (\<lambda>j d. d[j * m_ncols dst + i := mat_get m i j]) [0..<m_ncols m] d)
                           [0..<m_nrows m] (m_raw_dat dst)\<rparr>"

section \<open>Lemmas: nested loops of updates\<close>

text \<open>A nested loop that writes cell \<open>q i j\<close> of the data for every \<open>(i, j)\<close> of a
  grid, at distinct positions.\<close>

lemma grid_fold_length [simp]:
  "length (fold (\<lambda>i d. fold (\<lambda>j d. d[q i j := g i j d]) ys d) xs d) = length d"
  by (induction xs arbitrary: d) simp_all

lemma grid_fold_hit:
  assumes inj: "inj_on (\<lambda>(i, j). q i j) (set xs \<times> set ys)" and dx: "distinct xs" "distinct ys"
    and ij: "i \<in> set xs" "j \<in> set ys" and l: "q i j < length d"
  shows "fold (\<lambda>i d. fold (\<lambda>j d. d[q i j := f i j (d ! q i j)]) ys d) xs d ! q i j = f i j (d ! q i j)"
proof -
  let ?p = "\<lambda>x. q (fst x) (snd x)"
  have "distinct (map ?p (List.product xs ys))"
    using inj dx by (simp add: distinct_map distinct_product split_def)
  then have "fold (\<lambda>x d. d[?p x := f (fst x) (snd x) (d ! ?p x)]) (List.product xs ys) d ! ?p (i, j)
      = f i j (d ! q i j)"
    using fold_update_hit [of ?p "List.product xs ys" "(i, j)" d "\<lambda>x. f (fst x) (snd x)"] ij l by simp
  then show ?thesis by (simp add: fold_nested_product split_def)
qed

lemma grid_fold_miss:
  assumes "k \<notin> (\<lambda>(i, j). q i j) ` (set xs \<times> set ys)"
  shows "fold (\<lambda>i d. fold (\<lambda>j d. d[q i j := f i j (d ! q i j)]) ys d) xs d ! k = d ! k"
proof -
  let ?p = "\<lambda>x. q (fst x) (snd x)"
  have "k \<notin> ?p ` set (List.product xs ys)" using assms by (simp add: split_def)
  then have "fold (\<lambda>x d. d[?p x := f (fst x) (snd x) (d ! ?p x)]) (List.product xs ys) d ! k = d ! k"
    by (rule fold_update_miss)
  then show ?thesis by (simp add: fold_nested_product split_def)
qed

text \<open>The row-major cells of an \<open>r \<times> c\<close> grid, and of its transpose, are
  distinct and inside the data.\<close>

lemma row_major_inj:
  "inj_on (\<lambda>(i, j). i * c + j) (set [0..<r] \<times> set [0..<c])"
  by (rule inj_onI) (auto simp: flat_cell_inj)

lemma col_major_inj:
  "inj_on (\<lambda>(i, j). j * r + i) (set [0..<r] \<times> set [0..<c])"
  by (rule inj_onI) (auto simp: flat_cell_inj)

section \<open>Lemmas: element access\<close>

lemma mat_eqI:
  assumes wf: "mat_wf a" "mat_wf b" and sh: "m_nrows a = m_nrows b" "m_ncols a = m_ncols b"
    and g: "\<And>i j. i < m_nrows a \<Longrightarrow> j < m_ncols a \<Longrightarrow> mat_get a i j = mat_get b i j"
  shows "a = b"
proof -
  have "m_raw_dat a = m_raw_dat b"
  proof (rule nth_equalityI)
    show "length (m_raw_dat a) = length (m_raw_dat b)" using wf sh by (simp add: mat_wf_def)
  next
    fix k assume k: "k < length (m_raw_dat a)"
    let ?c = "m_ncols a"
    have r: "k div ?c < m_nrows a" using k wf(1) by (simp add: mat_wf_def less_mult_imp_div_less)
    have "0 < ?c" using k wf(1) by (cases "?c = 0") (simp_all add: mat_wf_def)
    then have c: "k mod ?c < ?c" by simp
    have "m_raw_dat a ! k = mat_get a (k div ?c) (k mod ?c)" by (simp add: mat_get_def)
    also have "\<dots> = mat_get b (k div ?c) (k mod ?c)" using g [OF r c] .
    also have "\<dots> = m_raw_dat b ! k" using sh(2) by (simp add: mat_get_def)
    finally show "m_raw_dat a ! k = m_raw_dat b ! k" .
  qed
  then show ?thesis using sh by (cases a, cases b) simp
qed

lemma Transpose_shape [simp]:
  "m_nrows (Matrix_Transpose m d) = m_nrows d" "m_ncols (Matrix_Transpose m d) = m_ncols d"
  "length (m_raw_dat (Matrix_Transpose m d)) = length (m_raw_dat d)"
  by (simp_all add: Matrix_Transpose_def)

lemma mat_get_Transpose:
  assumes "mat_wf d" "m_nrows d = m_ncols m" "m_ncols d = m_nrows m"
    and "i < m_nrows m" "j < m_ncols m"
  shows "mat_get (Matrix_Transpose m d) j i = mat_get m i j"
proof -
  have "j * m_nrows m + i < m_ncols m * m_nrows m" using assms(4,5) by (rule_tac flat_cell_bound) simp_all
  then have "j * m_nrows m + i < length (m_raw_dat d)" using assms(1-3) by (simp add: mat_wf_def)
  then show ?thesis using assms(3-5)
    grid_fold_hit [OF col_major_inj [of "m_nrows m" "m_ncols m"], of i j "m_raw_dat d" "\<lambda>i j _. mat_get m i j"]
    by (simp add: Matrix_Transpose_def mat_get_def)
qed

lemma Matrix_SumRow_sum:
  "Matrix_SumRow m i = (\<Sum>j<m_ncols m. mat_get m i j)"
  by (simp add: Matrix_SumRow_def fold_add_map_sum_list sum_list_map_upt)

lemma Matrix_SumCol_sum:
  "Matrix_SumCol m i = (\<Sum>j<m_nrows m. mat_get m j i)"
  by (simp add: Matrix_SumCol_def fold_add_map_sum_list sum_list_map_upt)

lemma Matrix_Sum_sum:
  assumes "mat_wf m"
  shows "Matrix_Sum m = (\<Sum>i<m_nrows m. \<Sum>j<m_ncols m. mat_get m i j)"
proof -
  let ?c = "m_ncols m" and ?d = "m_raw_dat m"
  have "Matrix_Sum m = sum_list (map ((!) ?d) [0..<m_nrows m * ?c])"
    using assms by (simp add: Matrix_Sum_def fold_add_sum_list mat_wf_def map_nth_upt_eq)
  also have "\<dots> = sum_list (map (\<lambda>i. sum_list (map ((!) ?d) [i * ?c..<i * ?c + ?c])) [0..<m_nrows m])"
    by (simp only: concat_map_upt_blocks [symmetric] map_concat sum_list_concat_lists map_map comp_def)
  also have "\<dots> = (\<Sum>i<m_nrows m. \<Sum>j<?c. mat_get m i j)"
    by (simp add: map_plus_upt [symmetric] sum_list_map_upt mat_get_def comp_def)
  finally show ?thesis .
qed

lemma Matrix_SumRows_eq:
  "length v = m_nrows m \<Longrightarrow> Matrix_SumRows m v = map (Matrix_SumRow m) [0..<m_nrows m]"
  by (simp add: Matrix_SumRows_def fold_update_upt_full)

lemma Matrix_SumCols_eq:
  "length v = m_ncols m \<Longrightarrow> Matrix_SumCols m v = map (Matrix_SumCol m) [0..<m_ncols m]"
  by (simp add: Matrix_SumCols_def fold_update_upt_full)

lemma dot_sum:
  "dot a b n = (\<Sum>k<n. a ! k * b ! k)"
  by (simp add: dot_def fold_add_map_sum_list sum_list_map_upt)

lemma fold_update_cong:
  "(\<And>i. i \<in> set xs \<Longrightarrow> f i = g i) \<Longrightarrow> fold (\<lambda>i w. w[i := f i]) xs v = fold (\<lambda>i w. w[i := g i]) xs v"
  by (rule fold_cong) simp_all

lemma dot_row_Transpose:
  assumes "mat_wf d" "m_nrows d = m_ncols m" "m_ncols d = m_nrows m" "i < m_ncols m"
  shows "dot p (drop (i * m_ncols d) (m_raw_dat (Matrix_Transpose m d))) (m_ncols d)
       = fold (\<lambda>j s. s + p ! j * mat_get m j i) [0..<m_nrows m] 0"
proof -
  have le: "i * m_nrows m \<le> length (m_raw_dat d)"
    using assms(1-4) by (simp add: mat_wf_def)
  have "dot p (drop (i * m_ncols d) (m_raw_dat (Matrix_Transpose m d))) (m_ncols d)
      = (\<Sum>k<m_nrows m. p ! k * mat_get (Matrix_Transpose m d) i k)"
    using le assms(3) by (simp add: dot_sum mat_get_def)
  also have "\<dots> = (\<Sum>k<m_nrows m. p ! k * mat_get m k i)"
    using assms(1-4) by (intro sum.cong refl) (simp add: mat_get_Transpose)
  finally show ?thesis by (simp add: fold_add_map_sum_list sum_list_map_upt)
qed

lemma row_cells_distinct:
  "distinct (map (\<lambda>j. i * c + j) [0..<c])"
  by (simp add: distinct_map inj_on_def)

lemma row_cell_other:
  fixes c :: nat
  assumes ne: "i' \<noteq> i" and jc: "j < c"
  shows "i' * c + j \<notin> (\<lambda>j. i * c + j) ` set [0..<c]"
proof
  assume "i' * c + j \<in> (\<lambda>j. i * c + j) ` set [0..<c]"
  then obtain j' where "j' \<in> set [0..<c]" "i' * c + j = i * c + j'" by blast
  then show False using ne jc flat_cell_inj [of j c j' i' i] by simp
qed

lemma SetRow_shape [simp]:
  "m_nrows (Matrix_SetRow m i v) = m_nrows m" "m_ncols (Matrix_SetRow m i v) = m_ncols m"
  "length (m_raw_dat (Matrix_SetRow m i v)) = length (m_raw_dat m)"
  by (simp_all add: Matrix_SetRow_def)

text \<open>A loop over the columns of row \<open>i\<close> that rewrites each of its cells from
  its old value leaves every other row as it was.\<close>

lemma row_fold_get:
  assumes "mat_wf m" "i < m_nrows m" "i' < m_nrows m" "j < m_ncols m"
  shows "fold (\<lambda>j d. d[i * m_ncols m + j := f j (d ! (i * m_ncols m + j))]) [0..<m_ncols m] (m_raw_dat m)
           ! (i' * m_ncols m + j)
       = (if i' = i then f j (mat_get m i j) else mat_get m i' j)"
proof (cases "i' = i")
  case True
  have "i * m_ncols m + j < length (m_raw_dat m)"
    using assms(1,2,4) flat_cell_bound [of i "m_nrows m" j "m_ncols m"] by (simp add: mat_wf_def)
  then show ?thesis
    using True assms(4) fold_update_hit [OF row_cells_distinct [of i "m_ncols m"], where x = j and d = "m_raw_dat m" and f = f]
    by (simp add: mat_get_def)
next
  case False
  then show ?thesis
    using row_cell_other [OF False assms(4)]
      fold_update_miss [where k = "i' * m_ncols m + j" and p = "\<lambda>j. i * m_ncols m + j" and xs = "[0..<m_ncols m]"
        and f = f and d = "m_raw_dat m"]
    by (simp add: mat_get_def)
qed

lemma mat_get_SetRow:
  assumes "mat_wf m" "i < m_nrows m" "i' < m_nrows m" "j < m_ncols m"
  shows "mat_get (Matrix_SetRow m i v) i' j = (if i' = i then v ! j else mat_get m i' j)"
  using row_fold_get [OF assms, where f = "\<lambda>j _. v ! j"] by (simp add: Matrix_SetRow_def mat_get_def)

lemma ScaleRow_shape [simp]:
  "m_nrows (Matrix_ScaleRow m i s) = m_nrows m" "m_ncols (Matrix_ScaleRow m i s) = m_ncols m"
  "length (m_raw_dat (Matrix_ScaleRow m i s)) = length (m_raw_dat m)"
  by (simp_all add: Matrix_ScaleRow_def)

lemma mat_get_ScaleRow:
  assumes "mat_wf m" "i < m_nrows m" "i' < m_nrows m" "j < m_ncols m"
  shows "mat_get (Matrix_ScaleRow m i s) i' j = (if i' = i then mat_get m i' j * s else mat_get m i' j)"
  using row_fold_get [OF assms, where f = "\<lambda>_ x. x * s"] by (simp add: Matrix_ScaleRow_def mat_get_def)

text \<open>The loops of \<open>ScaleRowsByVec\<close> and \<open>DivRowsByVec\<close>, after their first
  \<open>k\<close> rows.\<close>

lemma rows_fold_props:
  assumes "mat_wf m" "k \<le> m_nrows m"
  shows "mat_wf (fold (\<lambda>i t. Matrix_ScaleRow t i (g i)) [0..<k] m)
    \<and> m_nrows (fold (\<lambda>i t. Matrix_ScaleRow t i (g i)) [0..<k] m) = m_nrows m
    \<and> m_ncols (fold (\<lambda>i t. Matrix_ScaleRow t i (g i)) [0..<k] m) = m_ncols m
    \<and> (\<forall>i<m_nrows m. \<forall>j<m_ncols m. mat_get (fold (\<lambda>i t. Matrix_ScaleRow t i (g i)) [0..<k] m) i j
          = (if i < k then mat_get m i j * g i else mat_get m i j))"
  using assms(2)
proof (induction k)
  case 0
  then show ?case using assms(1) by simp
next
  case (Suc k)
  let ?t = "fold (\<lambda>i t. Matrix_ScaleRow t i (g i)) [0..<k] m"
  have ih: "mat_wf ?t" "m_nrows ?t = m_nrows m" "m_ncols ?t = m_ncols m"
    "\<And>i j. i < m_nrows m \<Longrightarrow> j < m_ncols m \<Longrightarrow> mat_get ?t i j = (if i < k then mat_get m i j * g i else mat_get m i j)"
    using Suc by simp_all
  have k: "k < m_nrows ?t" using Suc.prems ih(2) by simp
  have "mat_wf (Matrix_ScaleRow ?t k (g k))" using ih(1) by (simp add: mat_wf_def)
  moreover have "mat_get (Matrix_ScaleRow ?t k (g k)) i j = (if i < Suc k then mat_get m i j * g i else mat_get m i j)"
    if "i < m_nrows m" "j < m_ncols m" for i j
    using mat_get_ScaleRow [OF ih(1) k, of i j "g k"] ih(2-4) that by auto
  ultimately show ?case using ih(2,3) by simp
qed

lemma Matrix_GetRow_eq:
  "length w = m_ncols m \<Longrightarrow> Matrix_GetRow m i w = map (mat_get m i) [0..<m_ncols m]"
  by (simp add: Matrix_GetRow_def fold_update_upt_full)

lemma BackDiv_shape [simp]:
  "m_nrows (Matrix_BackDiv t m) = m_nrows t" "m_ncols (Matrix_BackDiv t m) = m_ncols t"
  "length (m_raw_dat (Matrix_BackDiv t m)) = length (m_raw_dat t)"
  by (simp_all add: Matrix_BackDiv_def)

text \<open>C28.  Transposing a matrix into a destination of the transposed shape, and
  the result into a destination of the original shape, gives back the matrix:
  every cell of each destination is written exactly once.\<close>

theorem Transpose_Transpose:
  assumes "mat_wf m" "mat_wf d" "mat_wf e"
    and "m_nrows d = m_ncols m" "m_ncols d = m_nrows m" "m_nrows e = m_nrows m" "m_ncols e = m_ncols m"
  shows "Matrix_Transpose (Matrix_Transpose m d) e = m"
proof (rule mat_eqI)
  show "mat_wf (Matrix_Transpose (Matrix_Transpose m d) e)" using assms(3) by (simp add: mat_wf_def)
  fix i j assume ij: "i < m_nrows (Matrix_Transpose (Matrix_Transpose m d) e)"
    "j < m_ncols (Matrix_Transpose (Matrix_Transpose m d) e)"
  have "mat_wf (Matrix_Transpose m d)" using assms(2) by (simp add: mat_wf_def)
  then have "mat_get (Matrix_Transpose (Matrix_Transpose m d) e) i j = mat_get (Matrix_Transpose m d) j i"
    using ij assms(3-7) mat_get_Transpose [of e "Matrix_Transpose m d" j i] by simp
  also have "\<dots> = mat_get m i j" using ij assms(2,4-7) mat_get_Transpose [of d m i j] by simp
  finally show "mat_get (Matrix_Transpose (Matrix_Transpose m d) e) i j = mat_get m i j" .
qed (use assms in simp_all)

theorem Transpose_Transpose_witness:
  "Matrix_Transpose \<lparr>m_nrows = 2, m_ncols = 3, m_raw_dat = [1, 2, 3, 4, 5, 6]\<rparr> (Matrix_new 3 2 (\<lambda>_. 0))
     = \<lparr>m_nrows = 3, m_ncols = 2, m_raw_dat = [1, 4, 2, 5, 3, 6]\<rparr>
   \<and> Matrix_Transpose (Matrix_Transpose \<lparr>m_nrows = 2, m_ncols = 3, m_raw_dat = [1, 2, 3, 4, 5, 6]\<rparr>
       (Matrix_new 3 2 (\<lambda>_. 0))) (Matrix_new 2 3 (\<lambda>_. 0))
     = \<lparr>m_nrows = 2, m_ncols = 3, m_raw_dat = [1, 2, 3, 4, 5, 6]\<rparr>"
proof -
  have "mat_wf \<lparr>m_nrows = 2, m_ncols = 3, m_raw_dat = [1, 2, 3, 4, 5, 6]\<rparr>"
    "mat_wf (Matrix_new 3 2 (\<lambda>_. 0))" "mat_wf (Matrix_new 2 3 (\<lambda>_. 0))"
    by (simp_all add: mat_wf_def Matrix_new_def)
  then have "Matrix_Transpose (Matrix_Transpose \<lparr>m_nrows = 2, m_ncols = 3, m_raw_dat = [1, 2, 3, 4, 5, 6]\<rparr>
       (Matrix_new 3 2 (\<lambda>_. 0))) (Matrix_new 2 3 (\<lambda>_. 0))
     = \<lparr>m_nrows = 2, m_ncols = 3, m_raw_dat = [1, 2, 3, 4, 5, 6]\<rparr>"
    by (rule Transpose_Transpose) (simp_all add: Matrix_new_def)
  moreover have "Matrix_Transpose \<lparr>m_nrows = 2, m_ncols = 3, m_raw_dat = [1, 2, 3, 4, 5, 6]\<rparr> (Matrix_new 3 2 (\<lambda>_. 0))
     = \<lparr>m_nrows = 3, m_ncols = 2, m_raw_dat = [1, 4, 2, 5, 3, 6]\<rparr>"
    by (simp add: Matrix_Transpose_def Matrix_new_def mat_get_def upt_rec)
  ultimately show ?thesis by simp
qed

text \<open>C29.  \<open>SumRows\<close> and \<open>SumCols\<close>, each into a vector of the matching
  length, give vectors whose \<open>Vec::Sum\<close> is the matrix's \<open>Sum\<close>: the row sums
  and the column sums partition the same entries.\<close>

theorem SumRows_SumCols_Sum:
  assumes "mat_wf m" "length v = m_nrows m" "length w = m_ncols m"
  shows "Vec_Sum (Matrix_SumRows m v) = Matrix_Sum m \<and> Vec_Sum (Matrix_SumCols m w) = Matrix_Sum m"
proof
  show "Vec_Sum (Matrix_SumRows m v) = Matrix_Sum m"
    using assms by (simp add: Matrix_SumRows_eq Vec_Sum_sum_list sum_list_map_upt Matrix_SumRow_sum Matrix_Sum_sum)
  have "Vec_Sum (Matrix_SumCols m w) = (\<Sum>j<m_ncols m. \<Sum>i<m_nrows m. mat_get m i j)"
    using assms by (simp add: Matrix_SumCols_eq Vec_Sum_sum_list sum_list_map_upt Matrix_SumCol_sum)
  also have "\<dots> = Matrix_Sum m" using assms(1) by (simp add: Matrix_Sum_sum sum.swap [of _ "{..<m_ncols m}"])
  finally show "Vec_Sum (Matrix_SumCols m w) = Matrix_Sum m" .
qed

theorem SumRows_SumCols_Sum_witness:
  "Matrix_SumRows \<lparr>m_nrows = 2, m_ncols = 3, m_raw_dat = [1, 2, 3, 4, 5, 6]\<rparr> [0, 0] = [6, 15]
   \<and> Matrix_SumCols \<lparr>m_nrows = 2, m_ncols = 3, m_raw_dat = [1, 2, 3, 4, 5, 6]\<rparr> [0, 0, 0] = [5, 7, 9]
   \<and> Vec_Sum [5, 7, 9] = Matrix_Sum \<lparr>m_nrows = 2, m_ncols = 3, m_raw_dat = [1, 2, 3, 4, 5, 6]\<rparr>"
proof -
  have r: "Matrix_SumRows \<lparr>m_nrows = 2, m_ncols = 3, m_raw_dat = [1, 2, 3, 4, 5, 6]\<rparr> [0, 0] = [6, 15]"
    by (simp add: Matrix_SumRows_def Matrix_SumRow_def mat_get_def upt_rec)
  have c: "Matrix_SumCols \<lparr>m_nrows = 2, m_ncols = 3, m_raw_dat = [1, 2, 3, 4, 5, 6]\<rparr> [0, 0, 0] = [5, 7, 9]"
    by (simp add: Matrix_SumCols_def Matrix_SumCol_def mat_get_def upt_rec)
  have "mat_wf \<lparr>m_nrows = 2, m_ncols = 3, m_raw_dat = [1, 2, 3, 4, 5, 6]\<rparr>" by (simp add: mat_wf_def)
  then show ?thesis
    using SumRows_SumCols_Sum [of "\<lparr>m_nrows = 2, m_ncols = 3, m_raw_dat = [1, 2, 3, 4, 5, 6]\<rparr>" "[0, 0]" "[0, 0, 0]"] r c
    by simp
qed

text \<open>C30.  \<open>Vec::MatMult\<close> (the row vector times the matrix) computes what
  \<open>Matrix::VecMult\<close> computes on the transposed matrix (the matrix times the
  column vector), for every input and output vector.\<close>

theorem MatMult_VecMult_Transpose:
  assumes "mat_wf d" "m_nrows d = m_ncols m" "m_ncols d = m_nrows m"
  shows "Vec_MatMult p m v = Matrix_VecMult (Matrix_Transpose m d) p v"
proof -
  have "Matrix_VecMult (Matrix_Transpose m d) p v
      = fold (\<lambda>i w. w[i := dot p (drop (i * m_ncols d) (m_raw_dat (Matrix_Transpose m d))) (m_ncols d)])
             [0..<m_ncols m] v"
    using assms(2) by (simp add: Matrix_VecMult_def)
  also have "\<dots> = Vec_MatMult p m v"
    unfolding Vec_MatMult_def
  proof (rule fold_update_cong)
    fix i assume "i \<in> set [0..<m_ncols m]"
    then show "dot p (drop (i * m_ncols d) (m_raw_dat (Matrix_Transpose m d))) (m_ncols d)
        = fold (\<lambda>j s. s + p ! j * mat_get m j i) [0..<m_nrows m] 0"
      using dot_row_Transpose [OF assms, of i p] by simp
  qed
  finally show ?thesis by simp
qed

theorem MatMult_VecMult_Transpose_witness:
  "Vec_MatMult [1, 1] \<lparr>m_nrows = 2, m_ncols = 3, m_raw_dat = [1, 2, 3, 4, 5, 6]\<rparr> [0, 0, 0] = [5, 7, 9]
   \<and> Matrix_VecMult (Matrix_Transpose \<lparr>m_nrows = 2, m_ncols = 3, m_raw_dat = [1, 2, 3, 4, 5, 6]\<rparr>
       (Matrix_new 3 2 (\<lambda>_. 0))) [1, 1] [0, 0, 0] = [5, 7, 9]"
proof -
  have v: "Vec_MatMult [1, 1] \<lparr>m_nrows = 2, m_ncols = 3, m_raw_dat = [1, 2, 3, 4, 5, 6]\<rparr> [0, 0, 0] = [5, 7, 9]"
    by (simp add: Vec_MatMult_def mat_get_def upt_rec)
  have "mat_wf (Matrix_new 3 2 (\<lambda>_. 0))" by (simp add: mat_wf_def Matrix_new_def)
  then show ?thesis
    using MatMult_VecMult_Transpose [of "Matrix_new 3 2 (\<lambda>_. 0)" "\<lparr>m_nrows = 2, m_ncols = 3, m_raw_dat = [1, 2, 3, 4, 5, 6]\<rparr>"
        "[1, 1]" "[0, 0, 0]"] v
    by (simp add: Matrix_new_def)
qed

text \<open>C31.  \<open>GetRow\<close> after \<open>SetRow\<close> on the same row returns the vector that
  was written, and every other row reads as before.\<close>

theorem SetRow_GetRow:
  assumes "mat_wf m" "i < m_nrows m" "length v = m_ncols m" "length w = m_ncols m"
  shows "Matrix_GetRow (Matrix_SetRow m i v) i w = v
    \<and> (\<forall>i'<m_nrows m. i' \<noteq> i \<longrightarrow> Matrix_GetRow (Matrix_SetRow m i v) i' w = Matrix_GetRow m i' w)"
proof
  have "Matrix_GetRow (Matrix_SetRow m i v) i w = map (\<lambda>j. v ! j) [0..<m_ncols m]"
    using assms by (simp add: Matrix_GetRow_eq mat_get_SetRow)
  then show "Matrix_GetRow (Matrix_SetRow m i v) i w = v" using assms(3) by (simp add: map_nth_upt_eq)
  show "\<forall>i'<m_nrows m. i' \<noteq> i \<longrightarrow> Matrix_GetRow (Matrix_SetRow m i v) i' w = Matrix_GetRow m i' w"
    using assms by (simp add: Matrix_GetRow_eq mat_get_SetRow)
qed

theorem SetRow_GetRow_witness:
  "Matrix_GetRow (Matrix_SetRow \<lparr>m_nrows = 2, m_ncols = 2, m_raw_dat = [1, 2, 3, 4]\<rparr> 0 [7, 8]) 0 [0, 0] = [7, 8]
   \<and> Matrix_GetRow (Matrix_SetRow \<lparr>m_nrows = 2, m_ncols = 2, m_raw_dat = [1, 2, 3, 4]\<rparr> 0 [7, 8]) 1 [0, 0]
     = Matrix_GetRow \<lparr>m_nrows = 2, m_ncols = 2, m_raw_dat = [1, 2, 3, 4]\<rparr> 1 [0, 0]"
proof -
  have "mat_wf \<lparr>m_nrows = 2, m_ncols = 2, m_raw_dat = [1, 2, 3, 4]\<rparr>" by (simp add: mat_wf_def)
  then show ?thesis
    using SetRow_GetRow [of "\<lparr>m_nrows = 2, m_ncols = 2, m_raw_dat = [1, 2, 3, 4]\<rparr>" 0 "[7, 8]" "[0, 0]"]
    by simp
qed

text \<open>C32.  \<open>DivRowsByVec\<close> undoes \<open>ScaleRowsByVec\<close> with the same vector when
  none of its entries is zero: each row is scaled by \<open>v[i]\<close> and then by
  \<open>1/v[i]\<close>.\<close>

theorem ScaleRows_DivRows:
  assumes "mat_wf m" "length v = m_nrows m" "\<forall>x\<in>set v. x \<noteq> 0"
  shows "Matrix_DivRowsByVec (Matrix_ScaleRowsByVec m v) v = m"
proof -
  let ?s = "Matrix_ScaleRowsByVec m v"
  have s: "mat_wf ?s" "m_nrows ?s = m_nrows m" "m_ncols ?s = m_ncols m"
    "\<And>i j. i < m_nrows m \<Longrightarrow> j < m_ncols m \<Longrightarrow> mat_get ?s i j = mat_get m i j * v ! i"
    using rows_fold_props [OF assms(1) order_refl, of "\<lambda>i. v ! i"] by (simp_all add: Matrix_ScaleRowsByVec_def)
  have d: "mat_wf (Matrix_DivRowsByVec ?s v)" "m_nrows (Matrix_DivRowsByVec ?s v) = m_nrows m"
    "m_ncols (Matrix_DivRowsByVec ?s v) = m_ncols m"
    "\<And>i j. i < m_nrows m \<Longrightarrow> j < m_ncols m \<Longrightarrow> mat_get (Matrix_DivRowsByVec ?s v) i j = mat_get ?s i j * (1 / v ! i)"
    using rows_fold_props [OF s(1) order_refl, of "\<lambda>i. 1 / v ! i"] s(2,3) by (simp_all add: Matrix_DivRowsByVec_def)
  show ?thesis
  proof (rule mat_eqI)
    fix i j assume ij: "i < m_nrows (Matrix_DivRowsByVec ?s v)" "j < m_ncols (Matrix_DivRowsByVec ?s v)"
    then have "v ! i \<noteq> 0" using assms(2,3) d(2) by simp
    then show "mat_get (Matrix_DivRowsByVec ?s v) i j = mat_get m i j" using ij d s by simp
  qed (use assms d in simp_all)
qed

theorem ScaleRows_DivRows_witness:
  "Matrix_ScaleRowsByVec \<lparr>m_nrows = 2, m_ncols = 2, m_raw_dat = [1, 2, 3, 4]\<rparr> [2, 4]
     = \<lparr>m_nrows = 2, m_ncols = 2, m_raw_dat = [2, 4, 12, 16]\<rparr>
   \<and> Matrix_DivRowsByVec \<lparr>m_nrows = 2, m_ncols = 2, m_raw_dat = [2, 4, 12, 16]\<rparr> [2, 4]
     = \<lparr>m_nrows = 2, m_ncols = 2, m_raw_dat = [1, 2, 3, 4]\<rparr>"
proof -
  have s: "Matrix_ScaleRowsByVec \<lparr>m_nrows = 2, m_ncols = 2, m_raw_dat = [1, 2, 3, 4]\<rparr> [2, 4]
     = \<lparr>m_nrows = 2, m_ncols = 2, m_raw_dat = [2, 4, 12, 16]\<rparr>"
    by (simp add: Matrix_ScaleRowsByVec_def Matrix_ScaleRow_def upt_rec)
  have "mat_wf \<lparr>m_nrows = 2, m_ncols = 2, m_raw_dat = [1, 2, 3, 4]\<rparr>" by (simp add: mat_wf_def)
  then show ?thesis
    using ScaleRows_DivRows [of "\<lparr>m_nrows = 2, m_ncols = 2, m_raw_dat = [1, 2, 3, 4]\<rparr>" "[2, 4]"] s by simp
qed

text \<open>C33.  \<open>BackDiv\<close> divides each element of the argument by the receiver's
  element at the same row and column: the nested loop reads each cell of the
  receiver before it overwrites it.\<close>

theorem BackDiv_get:
  assumes "mat_wf t" "i < m_nrows t" "j < m_ncols t"
  shows "mat_get (Matrix_BackDiv t m) i j = mat_get m i j / mat_get t i j"
proof -
  have "i * m_ncols t + j < length (m_raw_dat t)"
    using assms flat_cell_bound [of i "m_nrows t" j "m_ncols t"] by (simp add: mat_wf_def)
  then show ?thesis
    using assms(2,3) grid_fold_hit [OF row_major_inj [of "m_ncols t" "m_nrows t"], where i = i and j = j
        and d = "m_raw_dat t" and f = "\<lambda>i j x. mat_get m i j / x"]
    by (simp add: Matrix_BackDiv_def mat_get_def)
qed

theorem BackDiv_get_witness:
  "Matrix_BackDiv \<lparr>m_nrows = 1, m_ncols = 2, m_raw_dat = [2, 4]\<rparr> \<lparr>m_nrows = 1, m_ncols = 2, m_raw_dat = [1, 1]\<rparr>
     = \<lparr>m_nrows = 1, m_ncols = 2, m_raw_dat = [1 / 2, 1 / 4]\<rparr>
   \<and> mat_get (Matrix_BackDiv \<lparr>m_nrows = 1, m_ncols = 2, m_raw_dat = [2, 4]\<rparr> \<lparr>m_nrows = 1, m_ncols = 2, m_raw_dat = [1, 1]\<rparr>) 0 1
     = 1 / 4"
proof -
  have "mat_wf \<lparr>m_nrows = 1, m_ncols = 2, m_raw_dat = [2 :: real, 4]\<rparr>" by (simp add: mat_wf_def)
  then have "mat_get (Matrix_BackDiv \<lparr>m_nrows = 1, m_ncols = 2, m_raw_dat = [2, 4]\<rparr> \<lparr>m_nrows = 1, m_ncols = 2, m_raw_dat = [1, 1]\<rparr>) 0 1
     = 1 / 4"
    using BackDiv_get [of "\<lparr>m_nrows = 1, m_ncols = 2, m_raw_dat = [2, 4]\<rparr>" 0 1] by (simp add: mat_get_def)
  moreover have "Matrix_BackDiv \<lparr>m_nrows = 1, m_ncols = 2, m_raw_dat = [2, 4]\<rparr> \<lparr>m_nrows = 1, m_ncols = 2, m_raw_dat = [1, 1]\<rparr>
     = \<lparr>m_nrows = 1, m_ncols = 2, m_raw_dat = [1 / 2, 1 / 4]\<rparr>"
    by (simp add: Matrix_BackDiv_def mat_get_def upt_rec)
  ultimately show ?thesis by simp
qed



end
