(* ===== verification/Sparse.thy ===== *)
theory Sparse
  imports VecOps "HOL-Library.Word"
begin

text \<open>
  The class \<open>mplpLib::SparseMatrix\<close> of \<open>matrix.cpp\<close> (lines 528--593): a
  matrix of \<open>m_nrows \<times> m_ncols\<close> entries of which \<open>m_nelem\<close> are listed, with
  values \<open>m_dat\<close> at rows \<open>m_rind\<close> and columns \<open>m_cind\<close>, and every unlisted entry
  equal to the background value \<open>m_thr\<close>.  The index type \<open>MPLPIndexType\<close> is
  unsigned and its width is not fixed by the sources, so the record is
  parametric in the index type and the operations take \<open>'w word\<close> indices of an
  arbitrary width: the conversion \<open>row - 1\<close> of the file's
  1-based indices and the count \<open>m_nrows - count\<close> wrap around as the C++ does.
  \<open>Read\<close> is modelled from the tokens it reads (the file's contents are its
  arguments); its \<open>cout\<close> of the threshold is not modelled.

  \<open>sparse_entry\<close> is the matrix the data represent: the value of the first
  listed element at a position, or the background.  The lemmas show that
  \<open>SumCol\<close> and \<open>SumRow\<close> are the column and row sums of that matrix when the
  listed positions are distinct and inside the matrix, and that \<open>Read\<close>
  normalises the represented entries to total mass one.
\<close>

record 'i sparse =
  sm_nrows :: 'i
  sm_ncols :: 'i
  sm_nelem :: 'i
  sm_dat :: "real list"
  sm_rind :: "'i list"
  sm_cind :: "'i list"
  sm_thr :: real

section \<open>Operations\<close>

text \<open>\<open>SparseMatrix::Read\<close> (lines 528--564): \<open>rows\<close>, \<open>cols\<close>, \<open>nelem\<close> and
  the \<open>nelem\<close> triples \<open>(row, col, val)\<close> it reads, and the threshold argument.
  The normaliser \<open>Z\<close> adds the listed values and \<open>thr\<close> once per unlisted
  position, counted in \<open>MPLPIndexType\<close> arithmetic.\<close>

definition Sparse_Read ::
  "'w::len word \<Rightarrow> 'w word \<Rightarrow> 'w word \<Rightarrow> ('w word \<times> 'w word \<times> real) list \<Rightarrow> real \<Rightarrow> 'w word sparse" where
  "Sparse_Read rows cols nelem trips thr =
     (let ts = map (\<lambda>i. trips ! i) [0..<unat nelem];
          Z = fold (\<lambda>t z. z + snd (snd t)) ts 0 + thr * real (unat (rows * cols - nelem))
      in \<lparr>sm_nrows = rows, sm_ncols = cols, sm_nelem = nelem,
          sm_dat = map (\<lambda>t. snd (snd t) / Z) ts,
          sm_rind = map (\<lambda>t. fst t - 1) ts, sm_cind = map (\<lambda>t. fst (snd t) - 1) ts,
          sm_thr = thr / Z\<rparr>)"

text \<open>\<open>SumCol\<close> and \<open>SumRow\<close> (lines 566--593): the listed values of the line,
  and the background once for each of its positions not listed.\<close>

definition Sparse_SumCol :: "'w::len word sparse \<Rightarrow> 'w word \<Rightarrow> real" where
  "Sparse_SumCol sm i =
     (let (s, count) = fold (\<lambda>el (s, count). if sm_cind sm ! el = i then (s + sm_dat sm ! el, count + 1) else (s, count))
                            [0..<unat (sm_nelem sm)] (0, 0)
      in s + real (unat (sm_nrows sm - count)) * sm_thr sm)"

definition Sparse_SumRow :: "'w::len word sparse \<Rightarrow> 'w word \<Rightarrow> real" where
  "Sparse_SumRow sm i =
     (let (s, count) = fold (\<lambda>el (s, count). if sm_rind sm ! el = i then (s + sm_dat sm ! el, count + 1) else (s, count))
                            [0..<unat (sm_nelem sm)] (0, 0)
      in s + real (unat (sm_ncols sm - count)) * sm_thr sm)"

section \<open>The represented matrix\<close>

definition sparse_entry :: "'w::len word sparse \<Rightarrow> 'w word \<Rightarrow> 'w word \<Rightarrow> real" where
  "sparse_entry sm r c =
     (case find (\<lambda>el. sm_rind sm ! el = r \<and> sm_cind sm ! el = c) [0..<unat (sm_nelem sm)] of
        Some el \<Rightarrow> sm_dat sm ! el
      | None \<Rightarrow> sm_thr sm)"

text \<open>The listed positions are distinct and inside the matrix.\<close>

definition sparse_wf :: "'w::len word sparse \<Rightarrow> bool" where
  "sparse_wf sm \<longleftrightarrow>
     distinct (map (\<lambda>el. (sm_rind sm ! el, sm_cind sm ! el)) [0..<unat (sm_nelem sm)])
     \<and> (\<forall>el\<in>set [0..<unat (sm_nelem sm)]. sm_rind sm ! el < sm_nrows sm \<and> sm_cind sm ! el < sm_ncols sm)"

section \<open>Lemmas\<close>

lemma fold_sum_count:
  fixes f :: "nat \<Rightarrow> real" and c0 :: "'w::len word"
  shows "fold (\<lambda>el (s, count). if P el then (s + f el, count + 1) else (s, count)) xs (s0, c0)
    = (s0 + sum_list (map f (filter P xs)), c0 + word_of_nat (length (filter P xs)))"
  by (induction xs arbitrary: s0 c0) (simp_all add: algebra_simps)

lemma word_eq_of_nat_iff:
  "r < 2 ^ LENGTH('w) \<Longrightarrow> (x = (word_of_nat r :: 'w::len word)) = (unat x = r)"
  by (simp add: word_unat_eq_iff unat_of_nat)

lemma find_unique:
  assumes "x \<in> set xs" "P x" "\<And>y. y \<in> set xs \<Longrightarrow> P y \<Longrightarrow> y = x"
  shows "find P xs = Some x"
  using assms
proof (induction xs)
  case Nil
  then show ?case by simp
next
  case (Cons y ys)
  show ?case
  proof (cases "P y")
    case True
    have "y \<in> set (y # ys)" by simp
    then have "y = x" using Cons.prems(3) True by blast
    then show ?thesis using True by simp
  next
    case False
    then have "x \<noteq> y" using Cons.prems(2) by blast
    then have "x \<in> set ys" using Cons.prems(1) by simp
    moreover have "z = x" if "z \<in> set ys" "P z" for z
    proof -
      have "z \<in> set (y # ys)" using that(1) by simp
      then show ?thesis using Cons.prems(3) that(2) by blast
    qed
    ultimately have "find P ys = Some x" using Cons.IH Cons.prems(2) by blast
    then show ?thesis using False by simp
  qed
qed

text \<open>One line of the matrix: the elements \<open>E\<close> listed on it are at distinct
  positions \<open>oth\<close> across it, all inside its length \<open>N\<close>.\<close>

lemma line_count_le:
  fixes key oth :: "nat \<Rightarrow> 'w::len word"
  assumes inj: "inj_on (\<lambda>el. (oth el, key el)) {..<n}" and rng: "\<forall>el<n. oth el < N"
  shows "length (filter (\<lambda>el. key el = i) [0..<n]) \<le> unat N"
proof -
  let ?E = "filter (\<lambda>el. key el = i) [0..<n]"
  have "inj_on (\<lambda>el. unat (oth el)) (set ?E)"
  proof (rule inj_onI)
    fix a b assume "a \<in> set ?E" "b \<in> set ?E" "unat (oth a) = unat (oth b)"
    then show "a = b" using inj by (auto simp: inj_on_def word_unat_eq_iff)
  qed
  moreover have "(\<lambda>el. unat (oth el)) ` set ?E \<subseteq> {..<unat N}" using rng by (auto simp: word_less_nat_alt)
  ultimately have "card (set ?E) \<le> card {..<unat N}" by (intro card_inj_on_le) simp_all
  moreover have "card (set ?E) = length ?E" by (intro distinct_card) simp
  moreover have "card {..<unat N} = unat N" by (rule card_lessThan)
  ultimately show ?thesis by linarith
qed

lemma line_sum_core:
  fixes key oth :: "nat \<Rightarrow> 'w::len word" and val :: "nat \<Rightarrow> real"
  assumes inj: "inj_on (\<lambda>el. (oth el, key el)) {..<n}" and rng: "\<forall>el<n. oth el < N"
    and P: "\<And>r el. P r el = (oth el = word_of_nat r \<and> key el = i)"
  shows "(\<Sum>r<unat N. case find (P r) [0..<n] of Some el \<Rightarrow> val el | None \<Rightarrow> t)
    = sum_list (map val (filter (\<lambda>el. key el = i) [0..<n]))
      + real (unat N - length (filter (\<lambda>el. key el = i) [0..<n])) * t"
proof -
  let ?E = "filter (\<lambda>el. key el = i) [0..<n]"
  let ?g = "\<lambda>el. val el - t" and ?o = "\<lambda>el. unat (oth el)"
  have line: "(case find (P r) [0..<n] of Some el \<Rightarrow> val el | None \<Rightarrow> t)
      = t + (\<Sum>el\<in>{el \<in> set ?E. ?o el = r}. ?g el)" if r: "r < unat N" for r
  proof -
    have "unat N < 2 ^ LENGTH('w)" by simp
    then have r2: "r < 2 ^ LENGTH('w)" using r by linarith
    have Pr: "P r el = (key el = i \<and> ?o el = r)" for el
      using word_eq_of_nat_iff [OF r2, of "oth el"] by (simp add: P conj_commute)
    show ?thesis
    proof (cases "\<exists>el\<in>set ?E. ?o el = r")
      case True
      then obtain e where e: "e \<in> set ?E" "?o e = r" by blast
      have uniq: "y = e" if "y \<in> set ?E" "?o y = r" for y
        using that e inj by (auto simp: inj_on_def word_unat_eq_iff)
      then have "{el \<in> set ?E. ?o el = r} = {e}" using e by blast
      moreover have "find (P r) [0..<n] = Some e"
      proof (rule find_unique)
        show "e \<in> set [0..<n]" "P r e" using e Pr by simp_all
        fix y assume y: "y \<in> set [0..<n]" "P r y"
        then have "y \<in> set ?E" "?o y = r" using Pr by simp_all
        then show "y = e" by (rule uniq)
      qed
      ultimately show ?thesis by simp
    next
      case False
      then have z: "{el \<in> set ?E. ?o el = r} = {}" by blast
      have "\<not> P r el" if "el \<in> set [0..<n]" for el using False that Pr by simp
      then have "find (P r) [0..<n] = None" by (simp add: find_None_iff)
      then show ?thesis unfolding z by simp
    qed
  qed
  have "(\<Sum>r<unat N. case find (P r) [0..<n] of Some el \<Rightarrow> val el | None \<Rightarrow> t)
      = real (unat N) * t + (\<Sum>r<unat N. \<Sum>el\<in>{el \<in> set ?E. ?o el = r}. ?g el)"
  proof -
    have "(\<Sum>r<unat N. case find (P r) [0..<n] of Some el \<Rightarrow> val el | None \<Rightarrow> t)
        = (\<Sum>r<unat N. t + (\<Sum>el\<in>{el \<in> set ?E. ?o el = r}. ?g el))"
    proof (rule sum.cong)
      fix r assume "r \<in> {..<unat N}"
      then have "r < unat N" by simp
      then show "(case find (P r) [0..<n] of Some el \<Rightarrow> val el | None \<Rightarrow> t)
          = t + (\<Sum>el\<in>{el \<in> set ?E. ?o el = r}. ?g el)" by (rule line)
    qed simp
    also have "\<dots> = (\<Sum>r<unat N. t) + (\<Sum>r<unat N. \<Sum>el\<in>{el \<in> set ?E. ?o el = r}. ?g el)"
      by (rule sum.distrib)
    also have "(\<Sum>r<unat N. t) = real (unat N) * t" by (simp only: sum_constant card_lessThan)
    finally show ?thesis .
  qed
  also have "(\<Sum>r<unat N. \<Sum>el\<in>{el \<in> set ?E. ?o el = r}. ?g el) = (\<Sum>el\<in>set ?E. ?g el)"
    using rng by (intro sum.group) (auto simp: word_less_nat_alt)
  also have "(\<Sum>el\<in>set ?E. ?g el) = sum_list (map ?g ?E)"
    by (rule sum_list_distinct_conv_sum_set [symmetric]) simp
  also have "\<dots> = sum_list (map val ?E) - real (length ?E) * t"
    by (simp add: sum_list_subtractf sum_list_triv)
  finally show ?thesis
    using line_count_le [OF inj rng, of i] by (simp add: of_nat_diff algebra_simps)
qed

lemma unat_sub_count:
  "k \<le> unat N \<Longrightarrow> unat (N - word_of_nat k) = unat N - k"
  by (simp add: unat_sub word_le_nat_alt le_unat_uoi)

lemma sparse_wf_inj:
  assumes "sparse_wf sm"
  shows "inj_on (\<lambda>el. (sm_rind sm ! el, sm_cind sm ! el)) {..<unat (sm_nelem sm)}"
    and "inj_on (\<lambda>el. (sm_cind sm ! el, sm_rind sm ! el)) {..<unat (sm_nelem sm)}"
proof -
  show i: "inj_on (\<lambda>el. (sm_rind sm ! el, sm_cind sm ! el)) {..<unat (sm_nelem sm)}"
    using assms by (simp add: sparse_wf_def distinct_map lessThan_atLeast0)
  show "inj_on (\<lambda>el. (sm_cind sm ! el, sm_rind sm ! el)) {..<unat (sm_nelem sm)}"
    using i by (auto simp: inj_on_def)
qed

lemma Sparse_SumCol_eq:
  assumes "sparse_wf sm"
  shows "Sparse_SumCol sm i = sum_list (map (\<lambda>el. sm_dat sm ! el) (filter (\<lambda>el. sm_cind sm ! el = i) [0..<unat (sm_nelem sm)]))
    + real (unat (sm_nrows sm) - length (filter (\<lambda>el. sm_cind sm ! el = i) [0..<unat (sm_nelem sm)])) * sm_thr sm"
proof -
  have "length (filter (\<lambda>el. sm_cind sm ! el = i) [0..<unat (sm_nelem sm)]) \<le> unat (sm_nrows sm)"
    using assms by (intro line_count_le [OF sparse_wf_inj(1)]) (simp_all add: sparse_wf_def)
  then have "real (unat (sm_nrows sm - word_of_nat (length (filter (\<lambda>el. sm_cind sm ! el = i) [0..<unat (sm_nelem sm)]))))
      = real (unat (sm_nrows sm) - length (filter (\<lambda>el. sm_cind sm ! el = i) [0..<unat (sm_nelem sm)]))"
    by (simp only: unat_sub_count)
  then show ?thesis by (simp add: Sparse_SumCol_def fold_sum_count del: of_nat_diff)
qed

lemma Sparse_SumRow_eq:
  assumes "sparse_wf sm"
  shows "Sparse_SumRow sm i = sum_list (map (\<lambda>el. sm_dat sm ! el) (filter (\<lambda>el. sm_rind sm ! el = i) [0..<unat (sm_nelem sm)]))
    + real (unat (sm_ncols sm) - length (filter (\<lambda>el. sm_rind sm ! el = i) [0..<unat (sm_nelem sm)])) * sm_thr sm"
proof -
  have "length (filter (\<lambda>el. sm_rind sm ! el = i) [0..<unat (sm_nelem sm)]) \<le> unat (sm_ncols sm)"
    using assms by (intro line_count_le [OF sparse_wf_inj(2)]) (simp_all add: sparse_wf_def)
  then have "real (unat (sm_ncols sm - word_of_nat (length (filter (\<lambda>el. sm_rind sm ! el = i) [0..<unat (sm_nelem sm)]))))
      = real (unat (sm_ncols sm) - length (filter (\<lambda>el. sm_rind sm ! el = i) [0..<unat (sm_nelem sm)]))"
    by (simp only: unat_sub_count)
  then show ?thesis by (simp add: Sparse_SumRow_def fold_sum_count del: of_nat_diff)
qed

text \<open>C35.  On data whose listed positions are distinct and inside the matrix,
  \<open>SumCol\<close> and \<open>SumRow\<close> are the column and row sums of the matrix the data
  represent: the count of listed elements on a line never exceeds its length,
  so the unsigned \<open>m_nrows - count\<close> does not wrap.\<close>

theorem Sparse_line_sums:
  assumes "sparse_wf sm"
  shows "Sparse_SumCol sm i = (\<Sum>r<unat (sm_nrows sm). sparse_entry sm (word_of_nat r) i)
    \<and> Sparse_SumRow sm i = (\<Sum>c<unat (sm_ncols sm). sparse_entry sm i (word_of_nat c))"
proof
  have rng: "\<forall>el<unat (sm_nelem sm). sm_rind sm ! el < sm_nrows sm" "\<forall>el<unat (sm_nelem sm). sm_cind sm ! el < sm_ncols sm"
    using assms by (simp_all add: sparse_wf_def)
  show "Sparse_SumCol sm i = (\<Sum>r<unat (sm_nrows sm). sparse_entry sm (word_of_nat r) i)"
    unfolding Sparse_SumCol_eq [OF assms] sparse_entry_def
    by (rule line_sum_core [OF sparse_wf_inj(1) [OF assms] rng(1), symmetric]) simp
  show "Sparse_SumRow sm i = (\<Sum>c<unat (sm_ncols sm). sparse_entry sm i (word_of_nat c))"
    unfolding Sparse_SumRow_eq [OF assms] sparse_entry_def
    by (rule line_sum_core [OF sparse_wf_inj(2) [OF assms] rng(2), symmetric]) auto
qed

lemma sum_list_map_divide:
  fixes f :: "'a \<Rightarrow> real"
  shows "sum_list (map (\<lambda>x. f x / z) xs) = sum_list (map f xs) / z"
  by (induction xs) (simp_all add: add_divide_distrib)

lemma map_nth_take:
  "k \<le> length xs \<Longrightarrow> map (\<lambda>i. xs ! i) [0..<k] = take k xs"
  by (rule nth_equalityI) simp_all

text \<open>C36.  \<open>Read\<close> normalises the matrix it reads: when the file holds the
  \<open>nelem\<close> triples it announces and the normaliser is not zero, the listed
  values and the background counted once per unlisted position (in the same
  unsigned arithmetic as the code) add up to one.\<close>

theorem Sparse_Read_normalised:
  assumes "unat nelem \<le> length trips"
    and "sum_list (map (\<lambda>t. snd (snd t)) (take (unat nelem) trips)) + thr * real (unat (rows * cols - nelem)) \<noteq> 0"
  shows "sum_list (sm_dat (Sparse_Read rows cols nelem trips thr))
         + sm_thr (Sparse_Read rows cols nelem trips thr) * real (unat (rows * cols - nelem)) = 1"
proof -
  let ?ts = "take (unat nelem) trips" and ?K = "real (unat (rows * cols - nelem))"
  let ?Z = "sum_list (map (\<lambda>t. snd (snd t)) ?ts) + thr * ?K"
  have Z: "fold (\<lambda>t z. z + snd (snd t)) ?ts 0 = sum_list (map (\<lambda>t. snd (snd t)) ?ts)"
    by (simp add: fold_add_map_sum_list)
  have "sum_list (sm_dat (Sparse_Read rows cols nelem trips thr))
         + sm_thr (Sparse_Read rows cols nelem trips thr) * ?K
      = sum_list (map (\<lambda>t. snd (snd t)) ?ts) / ?Z + thr / ?Z * ?K"
    using assms(1) Z by (simp add: Sparse_Read_def Let_def map_nth_take sum_list_map_divide)
  also have "\<dots> = ?Z / ?Z" by (simp only: times_divide_eq_left add_divide_distrib)
  also have "\<dots> = 1" using assms(2) by simp
  finally show ?thesis .
qed

theorem Sparse_Read_normalised_witness:
  "sm_rind (Sparse_Read (2 :: 8 word) 2 1 [(1, 2, 3)] 1) = [0]
   \<and> sm_cind (Sparse_Read (2 :: 8 word) 2 1 [(1, 2, 3)] 1) = [1]
   \<and> sum_list (sm_dat (Sparse_Read (2 :: 8 word) 2 1 [(1, 2, 3)] 1))
     + sm_thr (Sparse_Read (2 :: 8 word) 2 1 [(1, 2, 3)] 1) * 3 = 1"
proof -
  have "unat (1 :: 8 word) \<le> length [(1 :: 8 word, 2 :: 8 word, 3 :: real)]" by simp
  moreover have "sum_list (map (\<lambda>t. snd (snd t)) (take (unat (1 :: 8 word)) [(1 :: 8 word, 2 :: 8 word, 3 :: real)]))
      + 1 * real (unat (2 * 2 - 1 :: 8 word)) \<noteq> 0" by simp
  ultimately have "sum_list (sm_dat (Sparse_Read (2 :: 8 word) 2 1 [(1, 2, 3)] 1))
     + sm_thr (Sparse_Read (2 :: 8 word) 2 1 [(1, 2, 3)] 1) * real (unat (2 * 2 - 1 :: 8 word)) = 1"
    by (rule Sparse_Read_normalised)
  moreover have "real (unat (2 * 2 - 1 :: 8 word)) = 3" by simp
  moreover have "sm_rind (Sparse_Read (2 :: 8 word) 2 1 [(1, 2, 3)] 1) = [0]"
    "sm_cind (Sparse_Read (2 :: 8 word) 2 1 [(1, 2, 3)] 1) = [1]"
    by (simp_all add: Sparse_Read_def)
  ultimately show ?thesis by simp
qed

theorem Sparse_line_sums_witness:
  "Sparse_SumCol \<lparr>sm_nrows = 2 :: 8 word, sm_ncols = 2, sm_nelem = 1, sm_dat = [5], sm_rind = [0], sm_cind = [1], sm_thr = 1\<rparr> 1
     = sparse_entry \<lparr>sm_nrows = 2 :: 8 word, sm_ncols = 2, sm_nelem = 1, sm_dat = [5], sm_rind = [0], sm_cind = [1], sm_thr = 1\<rparr> 0 1
     + sparse_entry \<lparr>sm_nrows = 2 :: 8 word, sm_ncols = 2, sm_nelem = 1, sm_dat = [5], sm_rind = [0], sm_cind = [1], sm_thr = 1\<rparr> 1 1
   \<and> Sparse_SumCol \<lparr>sm_nrows = 2 :: 8 word, sm_ncols = 2, sm_nelem = 1, sm_dat = [5], sm_rind = [0], sm_cind = [1], sm_thr = 1\<rparr> 1 = 6"
proof -
  have w: "sparse_wf \<lparr>sm_nrows = 2 :: 8 word, sm_ncols = 2, sm_nelem = 1, sm_dat = [5], sm_rind = [0], sm_cind = [1], sm_thr = 1\<rparr>"
    by (simp add: sparse_wf_def)
  have "unat (2 :: 8 word) = 2" by simp
  then have s: "Sparse_SumCol \<lparr>sm_nrows = 2 :: 8 word, sm_ncols = 2, sm_nelem = 1, sm_dat = [5], sm_rind = [0], sm_cind = [1], sm_thr = 1\<rparr> 1
     = sparse_entry \<lparr>sm_nrows = 2 :: 8 word, sm_ncols = 2, sm_nelem = 1, sm_dat = [5], sm_rind = [0], sm_cind = [1], sm_thr = 1\<rparr> 0 1
     + sparse_entry \<lparr>sm_nrows = 2 :: 8 word, sm_ncols = 2, sm_nelem = 1, sm_dat = [5], sm_rind = [0], sm_cind = [1], sm_thr = 1\<rparr> 1 1"
    using Sparse_line_sums [OF w, of 1] by (simp add: numeral_2_eq_2)
  moreover have "sparse_entry \<lparr>sm_nrows = 2 :: 8 word, sm_ncols = 2, sm_nelem = 1, sm_dat = [5], sm_rind = [0], sm_cind = [1], sm_thr = 1\<rparr> 0 1 = 5"
    "sparse_entry \<lparr>sm_nrows = 2 :: 8 word, sm_ncols = 2, sm_nelem = 1, sm_dat = [5], sm_rind = [0], sm_cind = [1], sm_thr = 1\<rparr> 1 1 = 1"
    by (simp_all add: sparse_entry_def)
  ultimately show ?thesis by simp
qed

end
