(* ===== verification/MatrixIO.thy ===== *)
theory MatrixIO
  imports DenseMatrix
begin

text \<open>
  The allocation, random fill and text input and output of \<open>Vec\<close> and
  \<open>Matrix\<close> (\<open>matrix.cpp\<close>: \<open>Vec::Read\<close>, \<open>Write\<close>, \<open>SetSize\<close>, \<open>Rand\<close>, \<open>Print\<close>,
  lines 28--65 and 109--114; \<open>Matrix::SetSize\<close>, \<open>Rand\<close>, \<open>Read\<close>, \<open>Write\<close>,
  \<open>Print\<close>, lines 262--276, 299--332 and 496--504).

  A text file is the list of its lines, each the list of its numeric fields;
  the blanks and line ends that separate fields are not represented, since
  \<open>operator>>\<close> skips them.  A field is an unsigned integer literal (\<open>Idx\<close>),
  as \<open>operator<<\<close> writes an \<open>MPLPIndexType\<close>, or a floating literal (\<open>Val\<close>),
  as it writes a \<open>double\<close>: at the stream's default precision, so the value
  read back is \<open>fmt x\<close> for a rendering function \<open>fmt\<close> given as a parameter.
  An input stream (\<open>istream\<close>) is the fields not yet read and the stream's
  \<open>good()\<close> flag; a file that cannot be opened gives a failed empty stream.
  Extraction follows C++11 \<open>num_get\<close>: on a failed stream the target keeps its
  value; on an exhausted one it becomes \<open>0\<close> and the stream fails.  A \<open>Val\<close>
  field in an index position (which the C++ would read as its integer prefix)
  is outside the files modelled here and fails the stream.

  \<open>new double[n]\<close> and an uninitialised local are indeterminate: their values
  are parameters (\<open>junk\<close>, \<open>s0\<close>, \<open>r0\<close>, \<open>c0\<close>).  \<open>rand()\<close> is a stream \<open>rnd\<close>
  indexed by the number of calls made so far, \<open>RAND_MAX\<close> the parameter
  \<open>rmax\<close>.  The buffers as allocated objects, their ownership and the
  destructors are in theory \<open>MatrixHeap\<close>.
\<close>

section \<open>Streams\<close>

datatype field = Idx nat | Val real

type_synonym text_file = "field list list"

record istream =
  is_fields :: "field list"
  is_good :: bool

text \<open>\<open>ifstream ifs(fname)\<close>: the file's fields, or a failed stream.\<close>

definition ifstream_open :: "text_file option \<Rightarrow> istream" where
  "ifstream_open f =
     (case f of None \<Rightarrow> \<lparr>is_fields = [], is_good = False\<rparr>
      | Some ls \<Rightarrow> \<lparr>is_fields = concat ls, is_good = True\<rparr>)"

definition field_val :: "field \<Rightarrow> real" where
  "field_val t = (case t of Idx n \<Rightarrow> real n | Val x \<Rightarrow> x)"

text \<open>\<open>ifs >> x\<close> for a \<open>double\<close> \<open>x\<close> holding \<open>old\<close>.\<close>

definition ext_double :: "istream \<Rightarrow> real \<Rightarrow> real \<times> istream" where
  "ext_double is old =
     (if \<not> is_good is then (old, is)
      else case is_fields is of
        [] \<Rightarrow> (0, is\<lparr>is_good := False\<rparr>)
      | t # ts \<Rightarrow> (field_val t, is\<lparr>is_fields := ts\<rparr>))"

text \<open>\<open>ifs >> n\<close> for an \<open>MPLPIndexType\<close> \<open>n\<close> holding \<open>old\<close>.\<close>

definition ext_index :: "istream \<Rightarrow> nat \<Rightarrow> nat \<times> istream" where
  "ext_index is old =
     (if \<not> is_good is then (old, is)
      else case is_fields is of
        [] \<Rightarrow> (0, is\<lparr>is_good := False\<rparr>)
      | Idx n # ts \<Rightarrow> (n, is\<lparr>is_fields := ts\<rparr>)
      | Val x # ts \<Rightarrow> (0, is\<lparr>is_good := False\<rparr>))"

text \<open>The reading loop shared by both \<open>Read\<close>s: \<open>ifs >> m_dat[p]\<close> for each
  position in turn.\<close>

definition read_step :: "nat \<Rightarrow> vec \<times> istream \<Rightarrow> vec \<times> istream" where
  "read_step p di = (case di of (d, is) \<Rightarrow> (case ext_double is (d ! p) of (x, is') \<Rightarrow> (d[p := x], is')))"

section \<open>Vec\<close>

text \<open>\<open>Vec::SetSize\<close> (lines 52--59): a fresh uninitialised array of \<open>n\<close> doubles.\<close>

definition Vec_SetSize :: "(nat \<Rightarrow> real) \<Rightarrow> nat \<Rightarrow> vec" where
  "Vec_SetSize junk n = map junk [0..<n]"

text \<open>\<open>Vec::Read\<close> (lines 28--41): the size, then \<open>SetSize\<close>, then one value per
  element.\<close>

definition Vec_Read :: "nat \<Rightarrow> (nat \<Rightarrow> real) \<Rightarrow> text_file option \<Rightarrow> vec" where
  "Vec_Read s0 junk f =
     (case ext_index (ifstream_open f) s0 of (s, is) \<Rightarrow>
        fst (fold read_step [0..<s] (Vec_SetSize junk s, is)))"

text \<open>\<open>Vec::Write\<close> (lines 43--50): the size on a line, then the values.\<close>

definition Vec_Write :: "(real \<Rightarrow> real) \<Rightarrow> vec \<Rightarrow> text_file" where
  "Vec_Write fmt v = [[Idx (length v)], map (\<lambda>x. Val (fmt x)) v]"

text \<open>\<open>Vec::Print\<close> (lines 109--114): the values on one line of \<open>cout\<close>.\<close>

definition Vec_Print :: "(real \<Rightarrow> real) \<Rightarrow> vec \<Rightarrow> text_file" where
  "Vec_Print fmt v = [map (\<lambda>x. Val (fmt x)) v]"

text \<open>\<open>Vec::Rand\<close> (lines 61--65): \<open>2.0 * rand() / RAND_MAX - 1\<close> per element.\<close>

definition Vec_Rand :: "real \<Rightarrow> (nat \<Rightarrow> nat) \<Rightarrow> nat \<Rightarrow> vec \<Rightarrow> vec \<times> nat" where
  "Vec_Rand rmax rnd k v =
     (map (\<lambda>i. 2 * real (rnd (k + i)) / rmax - 1) [0..<length v], k + length v)"

section \<open>Matrix\<close>

text \<open>\<open>Matrix::SetSize\<close> (lines 262--276): the old buffer is released and a
  fresh uninitialised \<open>rows \<times> cols\<close> one allocated.\<close>

definition Matrix_SetSize :: "nat \<Rightarrow> nat \<Rightarrow> (nat \<Rightarrow> real) \<Rightarrow> matrix" where
  "Matrix_SetSize rows cols junk = Matrix_new rows cols junk"

text \<open>\<open>Matrix::Rand\<close> (lines 299--304): row by row, one \<open>rand()\<close> per element.\<close>

definition Matrix_Rand :: "real \<Rightarrow> (nat \<Rightarrow> nat) \<Rightarrow> nat \<Rightarrow> matrix \<Rightarrow> matrix \<times> nat" where
  "Matrix_Rand rmax rnd k m =
     (case fold (\<lambda>i. fold (\<lambda>j (d, k). (d[i * m_ncols m + j := 2 * real (rnd k) / rmax - 1], Suc k))
                   [0..<m_ncols m]) [0..<m_nrows m] (m_raw_dat m, k) of
        (d, k') \<Rightarrow> (m\<lparr>m_raw_dat := d\<rparr>, k'))"

text \<open>\<open>Matrix::Read\<close> (lines 306--318): the two sizes, \<open>SetSize\<close>, then the
  elements row by row.\<close>

definition Matrix_Read :: "nat \<Rightarrow> nat \<Rightarrow> (nat \<Rightarrow> real) \<Rightarrow> text_file option \<Rightarrow> matrix" where
  "Matrix_Read r0 c0 junk f =
     (case ext_index (ifstream_open f) r0 of (rows, is1) \<Rightarrow>
      case ext_index is1 c0 of (cols, is2) \<Rightarrow>
        (let m = Matrix_SetSize rows cols junk in
         m\<lparr>m_raw_dat := fst (fold (\<lambda>i. fold (\<lambda>j. read_step (i * cols + j)) [0..<cols]) [0..<rows]
                                 (m_raw_dat m, is2))\<rparr>))"

text \<open>\<open>Matrix::Print\<close> (lines 496--504): one line per row.\<close>

definition Matrix_Print :: "(real \<Rightarrow> real) \<Rightarrow> matrix \<Rightarrow> text_file" where
  "Matrix_Print fmt m = map (\<lambda>i. map (\<lambda>j. Val (fmt (mat_get m i j))) [0..<m_ncols m]) [0..<m_nrows m]"

text \<open>\<open>Matrix::Write\<close> (lines 320--332): the sizes on a line, then the rows.\<close>

definition Matrix_Write :: "(real \<Rightarrow> real) \<Rightarrow> matrix \<Rightarrow> text_file" where
  "Matrix_Write fmt m =
     [Idx (m_nrows m), Idx (m_ncols m)]
     # map (\<lambda>i. map (\<lambda>j. Val (fmt (mat_get m i j))) [0..<m_ncols m]) [0..<m_nrows m]"

section \<open>Lemmas\<close>

text \<open>A row-major double loop is one loop over the flat positions.\<close>

lemma fold_row_major:
  "fold (\<lambda>i. fold (\<lambda>j. g (i * c + j)) [0..<c]) [0..<r] x = fold g [0..<r * c] x"
proof -
  have "fold (\<lambda>i. fold (\<lambda>j. g (i * c + j)) [0..<c]) xs x = fold g (concat (map (\<lambda>i. [i * c..<i * c + c]) xs)) x"
    for xs
  proof (induction xs arbitrary: x)
    case (Cons i xs)
    have "fold (\<lambda>j. g (i * c + j)) [0..<c] = fold g [i * c..<i * c + c]"
      by (simp only: map_add_upt [symmetric] fold_map comp_def add.commute)
    then show ?case using Cons by simp
  qed simp
  then show ?thesis by (simp add: concat_map_upt_blocks)
qed

lemma concat_row_major:
  "concat (map (\<lambda>i. map (\<lambda>j. f (i * c + j)) [0..<c]) [0..<r]) = map f [0..<r * c]"
proof -
  have "concat (map (\<lambda>i. map (\<lambda>j. f (i * c + j)) [0..<c]) [0..<r])
      = concat (map (\<lambda>i. map f [i * c..<i * c + c]) [0..<r])"
    by (simp add: map_add_upt [symmetric] comp_def add.commute)
  also have "\<dots> = map f (concat (map (\<lambda>i. [i * c..<i * c + c]) [0..<r]))"
    by (simp add: map_concat comp_def)
  finally show ?thesis by (simp add: concat_map_upt_blocks)
qed

text \<open>The reading loop on a good stream: position \<open>i < n\<close> gets the
  \<open>i\<close>-th field while there is one, the first position past the fields gets
  \<open>0\<close>, the rest keep their values; the stream stays good while fields remain.\<close>

lemma fold_read_step:
  assumes "n \<le> length d"
  shows "fold read_step [0..<n] (d, \<lparr>is_fields = fs, is_good = True\<rparr>) =
    (map (\<lambda>i. if i < n \<and> i < length fs then field_val (fs ! i)
              else if i < n \<and> i = length fs then 0 else d ! i) [0..<length d],
     \<lparr>is_fields = drop n fs, is_good = (n \<le> length fs)\<rparr>)"
  using assms
proof (induction n)
  case 0
  then show ?case by (simp add: map_nth_upt_eq)
next
  case (Suc n)
  let ?d = "map (\<lambda>i. if i < n \<and> i < length fs then field_val (fs ! i)
                     else if i < n \<and> i = length fs then 0 else d ! i) [0..<length d]"
  let ?v = "if n < length fs then field_val (fs ! n) else if n = length fs then 0 else d ! n"
  have step: "fold read_step [0..<Suc n] (d, \<lparr>is_fields = fs, is_good = True\<rparr>)
      = read_step n (?d, \<lparr>is_fields = drop n fs, is_good = (n \<le> length fs)\<rparr>)"
    using Suc by (simp only: fold_upt_Suc)
  have upd: "?d[n := ?v] = map (\<lambda>i. if i < Suc n \<and> i < length fs then field_val (fs ! i)
                     else if i < Suc n \<and> i = length fs then 0 else d ! i) [0..<length d]"
    using Suc.prems by (intro nth_equalityI) (auto simp: nth_list_update less_Suc_eq)
  have dn: "?d ! n = d ! n" using Suc.prems by simp
  consider (more) "n < length fs" | (last) "n = length fs" | (past) "length fs < n" by linarith
  then have r: "read_step n (?d, \<lparr>is_fields = drop n fs, is_good = (n \<le> length fs)\<rparr>)
      = (?d[n := ?v], \<lparr>is_fields = drop (Suc n) fs, is_good = (Suc n \<le> length fs)\<rparr>)"
  proof cases
    case more
    then have "drop n fs = fs ! n # drop (Suc n) fs" by (simp add: Cons_nth_drop_Suc)
    then show ?thesis using more by (simp add: read_step_def ext_double_def)
  next
    case last
    then show ?thesis by (simp add: read_step_def ext_double_def)
  next
    case past
    then show ?thesis using dn by (simp add: read_step_def ext_double_def)
  qed
  show ?case by (simp only: step r upd)
qed

text \<open>On a failed stream the loop changes nothing.\<close>

lemma fold_read_step_failed:
  "fold read_step xs (d, \<lparr>is_fields = fs, is_good = False\<rparr>) = (d, \<lparr>is_fields = fs, is_good = False\<rparr>)"
  by (induction xs) (simp_all add: read_step_def ext_double_def)

text \<open>\<open>Vec::Read\<close> of a file whose first field is the size \<open>n\<close>.\<close>

lemma Vec_Read_fields:
  assumes "concat ls = Idx n # fs"
  shows "Vec_Read s0 junk (Some ls) =
    map (\<lambda>i. if i < length fs then field_val (fs ! i) else if i = length fs then 0 else junk i) [0..<n]"
proof -
  have "ext_index (ifstream_open (Some ls)) s0 = (n, \<lparr>is_fields = fs, is_good = True\<rparr>)"
    using assms by (simp add: ifstream_open_def ext_index_def)
  then show ?thesis using fold_read_step [of n "Vec_SetSize junk n" fs]
    by (simp add: Vec_Read_def Vec_SetSize_def cong: if_cong)
qed

text \<open>A file that cannot be opened: the size is the uninitialised local.\<close>

lemma Vec_Read_missing:
  "Vec_Read s0 junk None = map junk [0..<s0]"
  by (simp add: Vec_Read_def ifstream_open_def ext_index_def fold_read_step_failed Vec_SetSize_def)

lemma Vec_Read_Write:
  "Vec_Read s0 junk (Some (Vec_Write fmt v)) = map fmt v"
proof -
  have c: "concat (Vec_Write fmt v) = Idx (length v) # map (\<lambda>x. Val (fmt x)) v"
    by (simp add: Vec_Write_def)
  show ?thesis unfolding Vec_Read_fields [OF c]
    by (rule nth_equalityI) (simp_all add: field_val_def)
qed

lemma Matrix_Read_missing:
  "Matrix_Read r0 c0 junk None = Matrix_new r0 c0 junk"
  by (simp add: Matrix_Read_def ifstream_open_def ext_index_def fold_row_major fold_read_step_failed
                Matrix_SetSize_def Matrix_new_def)

lemma Matrix_Read_Write:
  assumes "mat_wf m"
  shows "Matrix_Read r0 c0 junk (Some (Matrix_Write fmt m)) = m\<lparr>m_raw_dat := map fmt (m_raw_dat m)\<rparr>"
proof -
  let ?r = "m_nrows m" and ?c = "m_ncols m" and ?fs = "map (\<lambda>x. Val (fmt x)) (m_raw_dat m)"
  have rows: "concat (map (\<lambda>i. map (\<lambda>j. Val (fmt (mat_get m i j))) [0..<?c]) [0..<?r]) = ?fs"
  proof -
    have "concat (map (\<lambda>i. map (\<lambda>j. Val (fmt (mat_get m i j))) [0..<?c]) [0..<?r])
        = map (\<lambda>p. Val (fmt (m_raw_dat m ! p))) [0..<?r * ?c]"
      using concat_row_major [of "\<lambda>p. Val (fmt (m_raw_dat m ! p))" ?c ?r] by (simp add: mat_get_def)
    also have "\<dots> = ?fs" using assms by (intro nth_equalityI) (simp_all add: mat_wf_def)
    finally show ?thesis .
  qed
  have o: "ifstream_open (Some (Matrix_Write fmt m)) = \<lparr>is_fields = Idx ?r # Idx ?c # ?fs, is_good = True\<rparr>"
    using rows by (simp add: ifstream_open_def Matrix_Write_def)
  have "fst (fold read_step [0..<?r * ?c] (map junk [0..<?r * ?c], \<lparr>is_fields = ?fs, is_good = True\<rparr>))
      = map (\<lambda>i. if i < ?r * ?c \<and> i < length ?fs then field_val (?fs ! i)
                else if i < ?r * ?c \<and> i = length ?fs then 0 else map junk [0..<?r * ?c] ! i) [0..<?r * ?c]"
    using fold_read_step [of "?r * ?c" "map junk [0..<?r * ?c]" ?fs] by simp
  also have "\<dots> = map fmt (m_raw_dat m)"
    using assms by (intro nth_equalityI) (simp_all add: mat_wf_def field_val_def)
  finally have f: "fst (fold read_step [0..<?r * ?c] (map junk [0..<?r * ?c], \<lparr>is_fields = ?fs, is_good = True\<rparr>))
      = map fmt (m_raw_dat m)" .
  show ?thesis using o f
    by (cases m) (simp add: Matrix_Read_def ext_index_def Matrix_SetSize_def Matrix_new_def fold_row_major)
qed

text \<open>One value of the random fill lies in \<open>[-1, 1]\<close> when \<open>rand()\<close> stays
  within \<open>RAND_MAX\<close>.\<close>

lemma rand_unit:
  assumes "0 < rmax" "real r \<le> rmax"
  shows "-1 \<le> 2 * real r / rmax - 1 \<and> 2 * real r / rmax - 1 \<le> 1"
  using assms by (simp add: divide_simps)

lemma Vec_Rand_bounds:
  assumes "0 < rmax" "\<forall>j. real (rnd j) \<le> rmax"
  shows "length (fst (Vec_Rand rmax rnd k v)) = length v \<and> snd (Vec_Rand rmax rnd k v) = k + length v
    \<and> (\<forall>x\<in>set (fst (Vec_Rand rmax rnd k v)). -1 \<le> x \<and> x \<le> 1)"
  using assms rand_unit by (auto simp: Vec_Rand_def)

lemma fold_rand_fill:
  "n \<le> length d \<Longrightarrow> fold (\<lambda>p (d, k). (d[p := f k], Suc k)) [0..<n] (d, k)
     = (map (\<lambda>i. if i < n then f (k + i) else d ! i) [0..<length d], k + n)"
proof (induction n)
  case 0
  then show ?case by (simp add: map_nth_upt_eq)
next
  case (Suc n)
  then have "fold (\<lambda>p (d, k). (d[p := f k], Suc k)) [0..<Suc n] (d, k)
      = ((map (\<lambda>i. if i < n then f (k + i) else d ! i) [0..<length d])[n := f (k + n)], Suc (k + n))"
    by simp
  also have "\<dots> = (map (\<lambda>i. if i < Suc n then f (k + i) else d ! i) [0..<length d], k + Suc n)"
    using Suc.prems by (auto intro!: nth_equalityI simp: nth_list_update less_Suc_eq)
  finally show ?case .
qed

text \<open>\<open>Matrix::Rand\<close> gives the element at flat position \<open>p\<close> the \<open>p\<close>-th
  \<open>rand()\<close> of the call.\<close>

lemma Matrix_Rand_eq:
  assumes "mat_wf m"
  shows "Matrix_Rand rmax rnd k m =
    (m\<lparr>m_raw_dat := map (\<lambda>p. 2 * real (rnd (k + p)) / rmax - 1) [0..<m_nrows m * m_ncols m]\<rparr>,
     k + m_nrows m * m_ncols m)"
proof -
  have "fold (\<lambda>p (d, k). (d[p := 2 * real (rnd k) / rmax - 1], Suc k)) [0..<m_nrows m * m_ncols m] (m_raw_dat m, k)
      = (map (\<lambda>p. 2 * real (rnd (k + p)) / rmax - 1) [0..<m_nrows m * m_ncols m], k + m_nrows m * m_ncols m)"
    using assms fold_rand_fill [of "m_nrows m * m_ncols m" "m_raw_dat m" "\<lambda>k. 2 * real (rnd k) / rmax - 1" k]
    by (simp add: mat_wf_def)
  then show ?thesis
    unfolding Matrix_Rand_def fold_row_major [where g = "\<lambda>p (d, k). (d[p := 2 * real (rnd k) / rmax - 1], Suc k)"]
    by simp
qed

lemma Matrix_Rand_bounds:
  assumes "mat_wf m" "0 < rmax" "\<forall>j. real (rnd j) \<le> rmax"
  shows "mat_wf (fst (Matrix_Rand rmax rnd k m)) \<and> (\<forall>x\<in>set (m_raw_dat (fst (Matrix_Rand rmax rnd k m))). -1 \<le> x \<and> x \<le> 1)"
  using assms rand_unit by (auto simp: Matrix_Rand_eq mat_wf_def)

end
