(* ===== verification/MatrixHeap.thy ===== *)
theory MatrixHeap
  imports MatrixIO
begin

text \<open>
  The ownership of the \<open>Vec\<close> and \<open>Matrix\<close> buffers (\<open>matrix.cpp\<close>: \<open>Vec::~Vec\<close>
  and \<open>Vec::SetSize\<close>, lines 8--11 and 52--59; the \<open>Matrix\<close> constructors, its
  destructor and \<open>SetSize\<close>, lines 235--276).  Buffers live in an explicit store
  (\<open>heap\<close>): a map from addresses to the doubles of the buffer, \<open>None\<close> for an
  address not allocated, and the next fresh address.  \<open>new double[n]\<close> is
  \<open>heap_alloc\<close> of \<open>n\<close> indeterminate values, \<open>delete []\<close> is \<open>heap_free\<close>.  A
  \<open>Matrix\<close> object (\<open>mat_obj\<close>) holds its sizes, the address \<open>m_raw_dat\<close> of its
  data and the flag \<open>m_bDelete\<close> saying whether it owns that buffer; the row
  pointer array \<open>m_rows\<close>, allocated and freed with every object, is not
  represented.  A \<open>Vec\<close> object holds its size and its data address, \<open>None\<close> for
  a null pointer.  \<open>mat_view\<close> reads an object through the store as a value of
  theory \<open>DenseMatrix\<close>, so that its operations act on objects by
  \<open>Matrix_obj_apply\<close>, which writes the result back into the buffer, where
  every object sharing that buffer sees it.
\<close>

record heap =
  h_next :: nat
  h_mem :: "nat \<rightharpoonup> vec"

text \<open>The store invariant: every allocated address is below the next fresh one.\<close>

definition heap_wf :: "heap \<Rightarrow> bool" where
  "heap_wf h \<longleftrightarrow> (\<forall>a. a \<in> dom (h_mem h) \<longrightarrow> a < h_next h)"

definition heap_alloc :: "vec \<Rightarrow> heap \<Rightarrow> nat \<times> heap" where
  "heap_alloc v h = (h_next h, h\<lparr>h_next := Suc (h_next h), h_mem := (h_mem h)(h_next h \<mapsto> v)\<rparr>)"

definition heap_free :: "nat \<Rightarrow> heap \<Rightarrow> heap" where
  "heap_free a h = h\<lparr>h_mem := (h_mem h)(a := None)\<rparr>"

section \<open>Vec objects\<close>

record vec_obj =
  v_size :: nat
  v_dat :: "nat option"

text \<open>\<open>Vec::~Vec\<close> (lines 8--11): \<open>delete [] m_dat\<close>, a no-op on null.\<close>

definition Vec_obj_delete :: "vec_obj \<Rightarrow> heap \<Rightarrow> heap" where
  "Vec_obj_delete v h = (case v_dat v of None \<Rightarrow> h | Some a \<Rightarrow> heap_free a h)"

text \<open>\<open>Vec::SetSize\<close> (lines 52--59): free the old array if there is one, then
  allocate \<open>n\<close> fresh doubles.\<close>

definition Vec_obj_SetSize :: "vec_obj \<Rightarrow> nat \<Rightarrow> (nat \<Rightarrow> real) \<Rightarrow> heap \<Rightarrow> vec_obj \<times> heap" where
  "Vec_obj_SetSize v n junk h =
     (let h1 = (if v_dat v \<noteq> None then heap_free (the (v_dat v)) h else h) in
      case heap_alloc (Vec_SetSize junk n) h1 of (a, h2) \<Rightarrow> (v\<lparr>v_size := n, v_dat := Some a\<rparr>, h2))"

section \<open>Matrix objects\<close>

record mat_obj =
  mo_nrows :: nat
  mo_ncols :: nat
  mo_raw :: nat
  mo_bDelete :: bool

text \<open>\<open>Matrix(rows, cols)\<close> (lines 235--242): a fresh owned buffer.\<close>

definition Matrix_obj_new :: "nat \<Rightarrow> nat \<Rightarrow> (nat \<Rightarrow> real) \<Rightarrow> heap \<Rightarrow> mat_obj \<times> heap" where
  "Matrix_obj_new rows cols junk h =
     (case heap_alloc (m_raw_dat (Matrix_new rows cols junk)) h of
        (a, h') \<Rightarrow> (\<lparr>mo_nrows = rows, mo_ncols = cols, mo_raw = a, mo_bDelete = True\<rparr>, h'))"

text \<open>\<open>Matrix(rows, cols, p_dat)\<close> (lines 252--260): the caller's buffer, not owned.\<close>

definition Matrix_obj_wrap :: "nat \<Rightarrow> nat \<Rightarrow> nat \<Rightarrow> mat_obj" where
  "Matrix_obj_wrap rows cols p = \<lparr>mo_nrows = rows, mo_ncols = cols, mo_raw = p, mo_bDelete = False\<rparr>"

text \<open>\<open>Matrix::~Matrix\<close> (lines 244--250): the data is freed only when owned.\<close>

definition Matrix_obj_delete :: "mat_obj \<Rightarrow> heap \<Rightarrow> heap" where
  "Matrix_obj_delete m h = (if mo_bDelete m then heap_free (mo_raw m) h else h)"

text \<open>\<open>Matrix::SetSize\<close> (lines 262--276): the destructor, then new sizes and a
  fresh buffer; \<open>m_bDelete\<close> is left as it was.\<close>

definition Matrix_obj_SetSize :: "mat_obj \<Rightarrow> nat \<Rightarrow> nat \<Rightarrow> (nat \<Rightarrow> real) \<Rightarrow> heap \<Rightarrow> mat_obj \<times> heap" where
  "Matrix_obj_SetSize m rows cols junk h =
     (case heap_alloc (m_raw_dat (Matrix_SetSize rows cols junk)) (Matrix_obj_delete m h) of
        (a, h') \<Rightarrow> (m\<lparr>mo_nrows := rows, mo_ncols := cols, mo_raw := a\<rparr>, h'))"

text \<open>The matrix an object denotes: its first \<open>rows * cols\<close> doubles, when its
  buffer is allocated and large enough (otherwise every access is undefined).\<close>

definition mat_view :: "heap \<Rightarrow> mat_obj \<Rightarrow> matrix option" where
  "mat_view h m =
     (case h_mem h (mo_raw m) of
        None \<Rightarrow> None
      | Some buf \<Rightarrow> if mo_nrows m * mo_ncols m \<le> length buf
                   then Some \<lparr>m_nrows = mo_nrows m, m_ncols = mo_ncols m,
                              m_raw_dat = take (mo_nrows m * mo_ncols m) buf\<rparr>
                   else None)"

text \<open>A method of the object that rewrites its elements through
  \<open>m_rows[i][j]\<close>: the operation on the matrix it denotes, written back into
  the buffer.\<close>

definition Matrix_obj_apply :: "(matrix \<Rightarrow> matrix) \<Rightarrow> mat_obj \<Rightarrow> heap \<Rightarrow> heap option" where
  "Matrix_obj_apply f m h =
     (case (mat_view h m, h_mem h (mo_raw m)) of
        (Some x, Some buf) \<Rightarrow>
          Some (h\<lparr>h_mem := (h_mem h)(mo_raw m \<mapsto> m_raw_dat (f x) @ drop (mo_nrows m * mo_ncols m) buf)\<rparr>)
      | _ \<Rightarrow> None)"

section \<open>Lemmas\<close>

lemma heap_alloc_fresh:
  "heap_wf h \<Longrightarrow> h_mem h (fst (heap_alloc v h)) = None"
  by (auto simp: heap_wf_def heap_alloc_def)

lemma heap_alloc_wf:
  "heap_wf h \<Longrightarrow> heap_wf (snd (heap_alloc v h))"
  by (auto simp: heap_wf_def heap_alloc_def)

lemma heap_free_wf:
  "heap_wf h \<Longrightarrow> heap_wf (heap_free a h)"
  by (auto simp: heap_wf_def heap_free_def)

lemma dom_heap_alloc:
  "dom (h_mem (snd (heap_alloc v h))) = insert (fst (heap_alloc v h)) (dom (h_mem h))"
  by (simp add: heap_alloc_def)

lemma dom_heap_free:
  "dom (h_mem (heap_free a h)) = dom (h_mem h) - {a}"
  by (simp add: heap_free_def)

lemmas heap_dom_simps = dom_heap_alloc dom_heap_free

text \<open>The view of a buffer just written with exactly \<open>rows * cols\<close> doubles.\<close>

lemma mat_view_exact:
  assumes "h_mem h (mo_raw m) = Some buf" "length buf = mo_nrows m * mo_ncols m"
  shows "mat_view h m = Some \<lparr>m_nrows = mo_nrows m, m_ncols = mo_ncols m, m_raw_dat = buf\<rparr>"
  using assms by (simp add: mat_view_def)

text \<open>An owned matrix: constructed, it denotes \<open>Matrix_new\<close> in a buffer no
  earlier object holds; destroyed, the store's allocation is as before.\<close>

lemma Matrix_obj_new_delete:
  assumes "heap_wf h" "Matrix_obj_new rows cols junk h = (m, h1)"
  shows "mat_view h1 m = Some (Matrix_new rows cols junk) \<and> mo_raw m \<notin> dom (h_mem h)
    \<and> heap_wf h1 \<and> h_mem (Matrix_obj_delete m h1) = h_mem h"
proof -
  have a: "mo_raw m = fst (heap_alloc (m_raw_dat (Matrix_new rows cols junk)) h)"
    and h1: "h1 = snd (heap_alloc (m_raw_dat (Matrix_new rows cols junk)) h)" and o: "mo_bDelete m"
    using assms(2) by (auto simp: Matrix_obj_new_def split: prod.splits)
  have fresh: "h_mem h (mo_raw m) = None" using heap_alloc_fresh [OF assms(1)] a by simp
  have "mat_view h1 m = Some (Matrix_new rows cols junk)"
    using assms(2) by (auto simp: Matrix_obj_new_def heap_alloc_def mat_view_def Matrix_new_def split: prod.splits)
  moreover have "h_mem (Matrix_obj_delete m h1) = h_mem h"
    using a h1 o fresh by (auto simp: Matrix_obj_delete_def heap_free_def heap_alloc_def fun_eq_iff)
  ultimately show ?thesis using fresh h1 heap_alloc_wf [OF assms(1)] by auto
qed

text \<open>\<open>SetSize\<close> of an owned matrix: its old buffer is released and replaced
  by a fresh one holding \<open>Matrix_SetSize\<close>; nothing else changes.\<close>

lemma Matrix_obj_SetSize_owned:
  assumes "heap_wf h" "mo_bDelete m" "Matrix_obj_SetSize m rows cols junk h = (m', h')"
  shows "dom (h_mem h') = insert (mo_raw m') (dom (h_mem h) - {mo_raw m}) \<and> mo_raw m' \<notin> dom (h_mem h)
    \<and> mat_view h' m' = Some (Matrix_SetSize rows cols junk) \<and> mo_bDelete m' \<and> heap_wf h'"
proof -
  let ?h0 = "heap_free (mo_raw m) h"
  have wf0: "heap_wf ?h0" using assms(1) by (rule heap_free_wf)
  have a: "mo_raw m' = fst (heap_alloc (m_raw_dat (Matrix_SetSize rows cols junk)) ?h0)"
    and h': "h' = snd (heap_alloc (m_raw_dat (Matrix_SetSize rows cols junk)) ?h0)"
    and f: "mo_bDelete m' = mo_bDelete m" "mo_nrows m' = rows" "mo_ncols m' = cols"
    using assms(2,3) by (auto simp: Matrix_obj_SetSize_def Matrix_obj_delete_def split: prod.splits)
  have "mo_raw m' = h_next h" using a by (simp add: heap_alloc_def heap_free_def)
  then have fresh: "mo_raw m' \<notin> dom (h_mem h)" using assms(1) by (auto simp: heap_wf_def)
  have "h_mem h' (mo_raw m') = Some (m_raw_dat (Matrix_SetSize rows cols junk))"
    using a h' by (simp add: heap_alloc_def)
  then have "mat_view h' m' = Some (Matrix_SetSize rows cols junk)"
    using f by (simp add: mat_view_def Matrix_SetSize_def Matrix_new_def)
  then show ?thesis using a h' fresh f assms(2) heap_alloc_wf [OF wf0]
    by (simp add: heap_dom_simps)
qed

text \<open>\<open>SetSize\<close> of a matrix wrapping a caller's buffer leaks: the caller's
  buffer is kept, a fresh one is allocated, and destroying the matrix does not
  free it, so the store ends with one more allocated buffer that no object
  owns.\<close>

lemma Matrix_obj_SetSize_wrapped_leaks:
  assumes "heap_wf h" "mo_raw m \<in> dom (h_mem h)"
    and "Matrix_obj_SetSize (Matrix_obj_wrap r c (mo_raw m)) rows cols junk h = (m', h')"
  shows "dom (h_mem (Matrix_obj_delete m' h')) = insert (mo_raw m') (dom (h_mem h))
    \<and> mo_raw m' \<notin> dom (h_mem h)
    \<and> h_mem (Matrix_obj_delete m' h') (mo_raw m') = Some (m_raw_dat (Matrix_SetSize rows cols junk))
    \<and> h_mem (Matrix_obj_delete m' h') (mo_raw m) = h_mem h (mo_raw m)"
proof -
  have a: "mo_raw m' = h_next h" and h': "h' = snd (heap_alloc (m_raw_dat (Matrix_SetSize rows cols junk)) h)"
    and f: "\<not> mo_bDelete m'"
    using assms(3) by (auto simp: Matrix_obj_SetSize_def Matrix_obj_delete_def Matrix_obj_wrap_def
                                  heap_alloc_def split: prod.splits)
  have fresh: "mo_raw m' \<notin> dom (h_mem h)" using a assms(1) by (auto simp: heap_wf_def)
  then have "mo_raw m \<noteq> mo_raw m'" using assms(2) by auto
  then show ?thesis using a h' f fresh by (auto simp: Matrix_obj_delete_def heap_alloc_def)
qed

text \<open>A write through an object rewrites its buffer only; it fails (undefined
  behaviour) exactly when the object does not denote a matrix.\<close>

lemma Matrix_obj_apply_frame:
  assumes "Matrix_obj_apply f m h = Some h'" "a \<noteq> mo_raw m"
  shows "h_mem h' a = h_mem h a"
  using assms by (auto simp: Matrix_obj_apply_def split: option.splits)

lemma Matrix_obj_apply_defined:
  "(\<exists>h'. Matrix_obj_apply f m h = Some h') \<longleftrightarrow> mat_view h m \<noteq> None"
  by (auto simp: Matrix_obj_apply_def mat_view_def split: option.splits)

text \<open>Aliasing: an operation that keeps the shape, applied through one object,
  is what every object of the same shape on the same buffer then denotes; in
  particular the object itself (functional refinement of the operation on
  \<open>matrix\<close>).\<close>

lemma Matrix_obj_apply_alias:
  assumes "mat_view h m1 = Some x" "mo_raw m2 = mo_raw m1"
    and "mo_nrows m2 = mo_nrows m1" "mo_ncols m2 = mo_ncols m1"
    and "m_nrows (f x) = m_nrows x" "m_ncols (f x) = m_ncols x" "mat_wf (f x)"
  shows "\<exists>h'. Matrix_obj_apply f m1 h = Some h' \<and> mat_view h' m2 = Some (f x)"
proof -
  obtain buf where b: "h_mem h (mo_raw m1) = Some buf" "mo_nrows m1 * mo_ncols m1 \<le> length buf"
    and x: "x = \<lparr>m_nrows = mo_nrows m1, m_ncols = mo_ncols m1, m_raw_dat = take (mo_nrows m1 * mo_ncols m1) buf\<rparr>"
    using assms(1) by (auto simp: mat_view_def split: option.splits if_splits)
  have l: "length (m_raw_dat (f x)) = mo_nrows m1 * mo_ncols m1"
    using assms(5-7) x by (simp add: mat_wf_def)
  have fx: "f x = \<lparr>m_nrows = mo_nrows m1, m_ncols = mo_ncols m1, m_raw_dat = m_raw_dat (f x)\<rparr>"
    using assms(5,6) x by simp
  let ?h' = "h\<lparr>h_mem := (h_mem h)(mo_raw m1 \<mapsto> m_raw_dat (f x) @ drop (mo_nrows m1 * mo_ncols m1) buf)\<rparr>"
  have "Matrix_obj_apply f m1 h = Some ?h'" using assms(1) b by (simp add: Matrix_obj_apply_def)
  moreover have "mat_view ?h' m2 = Some (f x)"
    using assms(2-4) b l fx by (simp add: mat_view_def)
  ultimately show ?thesis by blast
qed

text \<open>After the destructor of an owning object its buffer is gone: every later
  access through it (or through a wrapper of the same buffer) is undefined.\<close>

lemma Matrix_obj_use_after_delete:
  "mo_bDelete m \<Longrightarrow> mo_raw m' = mo_raw m \<Longrightarrow> mat_view (Matrix_obj_delete m h) m' = None"
  by (simp add: Matrix_obj_delete_def heap_free_def mat_view_def)

text \<open>\<open>Vec::SetSize\<close> and the destructor never leak: a vector created by
  \<open>SetSize\<close> and destroyed leaves the store as it was less its old array.\<close>

lemma Vec_obj_SetSize_delete:
  assumes "heap_wf h" "Vec_obj_SetSize v n junk h = (v', h')"
  shows "dom (h_mem (Vec_obj_delete v' h')) = dom (h_mem h) - set_option (v_dat v)
    \<and> h_mem h' (the (v_dat v')) = Some (Vec_SetSize junk n) \<and> v_size v' = n \<and> heap_wf h'"
proof -
  let ?h1 = "if v_dat v \<noteq> None then heap_free (the (v_dat v)) h else h"
  have wf1: "heap_wf ?h1" using assms(1) heap_free_wf by simp
  have a: "v_dat v' = Some (h_next ?h1)" and h': "h' = snd (heap_alloc (Vec_SetSize junk n) ?h1)"
    and sz: "v_size v' = n"
    using assms(2) by (auto simp: Vec_obj_SetSize_def Let_def heap_alloc_def split: prod.splits)
  have "h_mem ?h1 (h_next ?h1) = None" using wf1 unfolding heap_wf_def by (metis domIff less_irrefl)
  then show ?thesis using a h' sz heap_alloc_wf [OF wf1]
    by (cases "v_dat v") (auto simp: Vec_obj_delete_def heap_alloc_def heap_free_def)
qed

end
