(* ===== verification/SolverIO.thy ===== *)
theory SolverIO
  imports MPLP_Solver "HOL-Library.Word"
begin

text \<open>
  The file-based construction of the solver (\<open>mplp_alg.cpp\<close> lines 202--252):
  the constructor \<open>MPLPAlg::MPLPAlg(start, time_limit, model_file, evid_file,
  log_file, uaiCompetition)\<close>, which names and opens the result file, writes
  its \<open>MPE\<close> header and dispatches on the model file's suffix to \<open>Init(fn,
  evid_fn)\<close> or \<open>Init2(fn, evid_fn)\<close>, each of which reads the model and calls
  \<open>Init\<close> of theory \<open>MPLP_Solver\<close>.  The readers \<open>read_model_file\<close> and
  \<open>read_model_file2\<close> are not in the sources: they are parameters of type
  \<open>model_reader\<close>, yielding the domain sizes, the evidence (written into the
  member \<open>evidence\<close>) and the factors with their tables, as the spec describes
  the model loader.  The result file is its name and the lines written to it.
  \<open>std::string\<close> is a \<open>string\<close>; its \<open>size_t\<close> positions are 64-bit words where
  their arithmetic wraps.  The start time, the log file and the clock are not
  modelled.
\<close>

type_synonym model_reader = "string \<Rightarrow> string \<Rightarrow> nat list \<times> (var \<rightharpoonup> nat) \<times> (var list \<times> real list) list"

datatype ctor_error = Out_of_range

text \<open>\<open>std::string::find_last_of(c)\<close>: the last position holding \<open>c\<close>, or
  \<open>npos\<close> (\<open>None\<close>).\<close>

definition find_last_of :: "string \<Rightarrow> char \<Rightarrow> nat option" where
  "find_last_of s c =
     (let ps = filter (\<lambda>i. s ! i = c) [0..<length s] in if ps = [] then None else Some (last ps))"

text \<open>\<open>std::string::substr(pos, n)\<close>: \<open>std::out_of_range\<close> when \<open>pos > size()\<close>.\<close>

definition substr :: "string \<Rightarrow> 64 word \<Rightarrow> nat \<Rightarrow> ctor_error + string" where
  "substr s pos n = (if length s < unat pos then Inl Out_of_range else Inr (take n (drop (unat pos) s)))"

text \<open>The result file name (lines 204--205): the model file's base name, after
  its last \<open>/\<close>, with \<open>.MPE\<close> appended.\<close>

definition res_fname :: "string \<Rightarrow> string" where
  "res_fname f = drop (case find_last_of f CHR ''/'' of None \<Rightarrow> 0 | Some n \<Rightarrow> Suc n) f @ ''.MPE''"

text \<open>The suffix test of line 214: \<open>model_file.length() - 6\<close> in \<open>size_t\<close>.\<close>

definition model_suffix :: "string \<Rightarrow> ctor_error + string" where
  "model_suffix f = substr f (of_nat (length f) - 6) 6"

text \<open>\<open>MPLPAlg::Init(fn, evid_fn)\<close> (lines 225--238) with \<open>read_model_file\<close>.\<close>

definition Init_fn :: "model_reader \<Rightarrow> bool \<Rightarrow> (nat \<Rightarrow> nat \<Rightarrow> real) \<Rightarrow> string \<Rightarrow> string \<Rightarrow> mplp_state \<Rightarrow> mplp_state" where
  "Init_fn rd uai noise fn evid_fn s =
     (case rd fn evid_fn of (vs, ev, regs) \<Rightarrow> Init uai noise vs regs (s\<lparr>evidence := ev\<rparr>))"

text \<open>\<open>MPLPAlg::Init2(fn, evid_fn)\<close> (lines 240--252), the same with
  \<open>read_model_file2\<close>.\<close>

definition Init2_fn :: "model_reader \<Rightarrow> bool \<Rightarrow> (nat \<Rightarrow> nat \<Rightarrow> real) \<Rightarrow> string \<Rightarrow> string \<Rightarrow> mplp_state \<Rightarrow> mplp_state" where
  "Init2_fn rd2 uai noise fn evid_fn s =
     (case rd2 fn evid_fn of (vs, ev, regs) \<Rightarrow> Init uai noise vs regs (s\<lparr>evidence := ev\<rparr>))"

text \<open>The constructor (lines 202--223): the member initialisers, the result
  file created with its \<open>MPE\<close> line, then the suffix test and the dispatch.  A
  thrown \<open>out_of_range\<close> is \<open>Inl\<close>, with the result file as it was left.\<close>

definition MPLPAlg_ctor ::
  "model_reader \<Rightarrow> model_reader \<Rightarrow> int \<Rightarrow> real \<Rightarrow> real \<Rightarrow> bool \<Rightarrow> (nat \<Rightarrow> nat \<Rightarrow> real) \<Rightarrow> string \<Rightarrow> string
   \<Rightarrow> (ctor_error \<times> (string \<times> string list)) + ((string \<times> string list) \<times> mplp_state)" where
  "MPLPAlg_ctor rd rd2 tlim hg mat uai noise model_file evid_file =
     (let s0 = MPLPAlg_new tlim hg mat Map.empty;
          out = (res_fname model_file, [''MPE''])
      in case model_suffix model_file of
           Inl e \<Rightarrow> Inl (e, out)
         | Inr tmp \<Rightarrow> Inr (out, if tmp = ''UAI.LG'' then Init2_fn rd2 uai noise model_file evid_file s0
                               else Init_fn rd uai noise model_file evid_file s0))"

section \<open>Lemmas\<close>

lemma unat_length_minus_6:
  assumes "length f < 2 ^ 64"
  shows "unat (of_nat (length f) - 6 :: 64 word)
         = (if 6 \<le> length f then length f - 6 else length f + 2 ^ 64 - 6)"
proof -
  have l: "unat (of_nat (length f) :: 64 word) = length f" using assms by (simp add: unat_of_nat)
  have s: "unat (6 :: 64 word) = 6" by simp
  show ?thesis using l s by (simp add: unat_sub_if')
qed

text \<open>The suffix test throws exactly on names shorter than six characters
  (the subtraction wraps to a position past the end); otherwise it gives the
  last six characters.\<close>

lemma model_suffix_eq:
  assumes "length f < 2 ^ 64"
  shows "model_suffix f = (if length f < 6 then Inl Out_of_range else Inr (drop (length f - 6) f))"
proof (cases "length f < 6")
  case True
  then show ?thesis using unat_length_minus_6 [OF assms] by (simp add: model_suffix_def substr_def)
next
  case False
  then show ?thesis using unat_length_minus_6 [OF assms] by (simp add: model_suffix_def substr_def)
qed

lemma find_last_of_None:
  "find_last_of s c = None \<longleftrightarrow> c \<notin> set s"
  by (auto simp: find_last_of_def Let_def filter_empty_conv in_set_conv_nth)

lemma sorted_le_last:
  "sorted xs \<Longrightarrow> x \<in> set xs \<Longrightarrow> x \<le> last xs"
  by (induction xs) (auto simp: last_in_set)

lemma find_last_of_Some:
  assumes "find_last_of s c = Some n"
  shows "n < length s \<and> s ! n = c \<and> c \<notin> set (drop (Suc n) s)"
proof -
  let ?ps = "filter (\<lambda>i. s ! i = c) [0..<length s]"
  have ne: "?ps \<noteq> []" and n: "n = last ?ps" using assms by (auto simp: find_last_of_def Let_def split: if_splits)
  have mem: "n \<in> set ?ps" using ne n last_in_set by blast
  have "c \<noteq> s ! j" if "n < j" "j < length s" for j
  proof
    assume "c = s ! j"
    then have "j \<in> set ?ps" using that by simp
    moreover have "sorted ?ps" using sorted_filter [of "\<lambda>x. x" "[0..<length s]"] by simp
    ultimately have "j \<le> n" using n by (simp add: sorted_le_last)
    then show False using that by simp
  qed
  moreover have "n < length s" "s ! n = c" using mem by simp_all
  ultimately show ?thesis
    by (auto simp: in_set_conv_nth) (metis add_Suc less_add_Suc1 less_diff_conv add.commute)
qed

text \<open>The result file name has no directory part and ends in \<open>.MPE\<close>.\<close>

lemma res_fname_basename:
  "CHR ''/'' \<notin> set (res_fname f) \<and> (\<exists>a b. res_fname f = b @ ''.MPE'' \<and> f = a @ b)"
proof (cases "find_last_of f CHR ''/''")
  case None
  moreover have "CHR ''/'' \<notin> set f" using None find_last_of_None by blast
  ultimately show ?thesis by (simp add: res_fname_def)
next
  case (Some n)
  then show ?thesis using find_last_of_Some [OF Some] by (simp add: res_fname_def) (metis append_take_drop_id)
qed

text \<open>The constructor on every model file name: it throws, after creating the
  result file with its \<open>MPE\<close> line, exactly when the name is shorter than six
  characters; otherwise it initialises from \<open>read_model_file2\<close> for a name
  ending in \<open>UAI.LG\<close> and from \<open>read_model_file\<close> for any other.\<close>

lemma MPLPAlg_ctor_eq:
  assumes "length f < 2 ^ 64"
  shows "MPLPAlg_ctor rd rd2 tlim hg mat uai noise f e =
    (if length f < 6 then Inl (Out_of_range, res_fname f, [''MPE''])
     else Inr ((res_fname f, [''MPE'']),
        case (if drop (length f - 6) f = ''UAI.LG'' then rd2 else rd) f e of (vs, ev, regs) \<Rightarrow>
          Init uai noise vs regs ((MPLPAlg_new tlim hg mat Map.empty)\<lparr>evidence := ev\<rparr>)))"
  by (simp add: MPLPAlg_ctor_def model_suffix_eq [OF assms] Init_fn_def Init2_fn_def)

lemma MPLPAlg_ctor_short_name:
  "MPLPAlg_ctor rd rd2 tlim hg mat uai noise ''m.uai'' e = Inl (Out_of_range, ''m.uai.MPE'', [''MPE''])"
proof -
  have "length ''m.uai'' < (2 :: nat) ^ 64" by simp
  from MPLPAlg_ctor_eq [OF this] show ?thesis by (simp add: res_fname_def find_last_of_def)
qed

end
