(* ===== verification/InitWf.thy ===== *)
theory InitWf
  imports RegionCtor Scenarios SolverIO
begin

text \<open>
  What \<open>MPLPAlg::Init\<close> (lines 255--379) establishes on a well-formed model,
  and its composition with the file constructor and \<open>RunMPLP\<close>.  A model is
  well formed (\<open>model_wf\<close>) when every domain size is positive and every factor
  lists distinct variables of the model and comes with a table: the model loader
  of the spec yields tables for all its factors, and theorem
  \<open>Init_missing_potential_desync\<close> of the root theory shows what \<open>Init\<close> does
  with a factor given none.  The invariant of \<open>Init\<close>'s region loop
  (\<open>init_inv\<close>) adds to \<open>solver_inv\<close> that the catalogue and the arena have the
  same length and start with one singleton per variable, of its domain size.
\<close>

definition model_wf :: "nat list \<Rightarrow> (var list \<times> real list) list \<Rightarrow> bool" where
  "model_wf vs regs \<longleftrightarrow> (\<forall>d\<in>set vs. 0 < d)
     \<and> (\<forall>(inds, lams)\<in>set regs. distinct inds \<and> (\<forall>i\<in>set inds. i < length vs) \<and> lams \<noteq> [])"

definition init_inv :: "nat list \<Rightarrow> mplp_state \<Rightarrow> bool" where
  "init_inv vs s \<longleftrightarrow> m_var_sizes s = vs
     \<and> length (m_all_intersects s) = length (m_sum_into_intersects s)
     \<and> length vs \<le> length (m_all_intersects s)
     \<and> (\<forall>i<length vs. m_all_intersects s ! i = [i] \<and> m_sizes (m_sum_into_intersects s ! i) = [vs ! i])
     \<and> solver_inv s"

section \<open>Lemmas\<close>

text \<open>Growing the arena keeps every region well formed.\<close>

lemma region_wf_append:
  assumes "region_wf r shp"
  shows "region_wf r (shp @ ys)"
proof -
  have "\<forall>s\<in>set (m_intersect_inds r). s < length shp" and "m_region_intersect r < length shp"
    using assms by (simp_all add: region_wf_def Let_def)
  then show ?thesis using assms by (auto simp: region_wf_def Let_def nth_append)
qed

text \<open>The position list of a singleton intersection inside a region with
  distinct variables.\<close>

lemma find_pos_distinct:
  "distinct xs \<Longrightarrow> i < length xs \<Longrightarrow> find_pos (xs ! i) xs = Some i"
proof -
  assume d: "distinct xs" and i: "i < length xs"
  have "find_pos (xs ! i) xs \<noteq> None" using i by (simp add: find_pos_None)
  then obtain k where k: "find_pos (xs ! i) xs = Some k" by blast
  then have "k < length xs" "xs ! k = xs ! i" using find_pos_Some by blast+
  then have "k = i" using d i by (simp add: nth_eq_iff_index_eq)
  then show ?thesis using k by simp
qed

lemma intersect_positions_singleton:
  "distinct xs \<Longrightarrow> i < length xs \<Longrightarrow> intersect_positions [xs ! i] xs = Some [i]"
  by (simp add: find_pos_distinct)

text \<open>The region \<open>Init\<close> appends for a factor of several variables (its
  intersection sets are the singletons of its variables, its own set the new
  last one) is well formed in the grown arena.\<close>

lemma Init_new_region_wf:
  assumes inv: "init_inv vs s" and d: "distinct inds" and r: "\<forall>i\<in>set inds. i < length vs"
    and pos: "\<forall>x\<in>set vs. 0 < x"
  shows "region_wf (Region inds (m_all_intersects s @ [inds]) inds vs (length (m_all_intersects s)))
           (shapes (m_sum_into_intersects s) @ [map ((!) vs) inds])"
proof -
  let ?ai = "m_all_intersects s @ [inds]" and ?S = "shapes (m_sum_into_intersects s) @ [map ((!) vs) inds]"
  let ?loc = "length (m_all_intersects s)"
  have len: "length (m_all_intersects s) = length (m_sum_into_intersects s)" "length vs \<le> length (m_all_intersects s)"
    and sing: "\<forall>i<length vs. m_all_intersects s ! i = [i] \<and> m_sizes (m_sum_into_intersects s ! i) = [vs ! i]"
    using inv by (simp_all add: init_inv_def)
  have ai: "?ai ! x = [x]" if "x \<in> set inds" for x
    using that r len sing by (auto simp: nth_append)
  have shp: "?S ! x = [vs ! x]" if "x \<in> set inds" for x
    using that r len sing by (auto simp: nth_append)
  have "region_ctor_loop inds ?ai vs inds ([], [])
      = ((map (\<lambda>x. the (intersect_positions (?ai ! x) inds)) inds,
          map (\<lambda>x. MulDimArr_zero (map ((!) vs) (?ai ! x))) inds), True)"
    using region_ctor_loop_ok [of inds ?ai inds vs "[]" "[]"] ai by simp
  also have "\<dots> = ((map (\<lambda>si. [si]) [0..<length inds],
                    map (\<lambda>si. MulDimArr_zero [vs ! (inds ! si)]) [0..<length inds]), True)"
  proof -
    have "map (\<lambda>x. the (intersect_positions (?ai ! x) inds)) inds = map (\<lambda>si. [si]) [0..<length inds]"
      by (rule nth_equalityI) (simp_all add: ai find_pos_distinct [OF d])
    moreover have "map (\<lambda>x. MulDimArr_zero (map ((!) vs) (?ai ! x))) inds
        = map (\<lambda>si. MulDimArr_zero [vs ! (inds ! si)]) [0..<length inds]"
      by (rule nth_equalityI) (simp_all add: ai)
    ultimately show ?thesis by simp
  qed
  finally have loop: "region_ctor_loop inds ?ai vs inds ([], []) = ((map (\<lambda>si. [si]) [0..<length inds],
                    map (\<lambda>si. MulDimArr_zero [vs ! (inds ! si)]) [0..<length inds]), True)" .
  have p: "?S ! ?loc = map ((!) vs) inds" "?loc < length ?S" using len by (simp_all add: nth_append)
  have dp: "?loc \<notin> set inds" using r len by fastforce
  have one: "[si] = [0..<length inds]" if "Suc 0 = length inds" "si < length inds" for si
    using that by (simp add: that(1) [symmetric])
  show ?thesis
    using loop p dp d r pos shp len one
    by (auto simp: region_wf_def Region_def Let_def sub_assign_def mda_wf_def MulDimArr_zero_def less_Suc_eq)
qed

lemma MulDimArr_of_wf [simp]: "mda_wf (MulDimArr_of ds vs)" "m_sizes (MulDimArr_of ds vs) = ds"
  by (simp_all add: MulDimArr_of_def mda_wf_def)

text \<open>One iteration of \<open>Init\<close>'s region loop keeps \<open>init_inv\<close> for a factor of
  the model.\<close>

lemma Init_region_step_inv:
  assumes inv: "init_inv vs s" and d: "distinct inds" and r: "\<forall>i\<in>set inds. i < length vs"
    and l: "lams \<noteq> []" and pos: "\<forall>x\<in>set vs. 0 < x"
  shows "init_inv vs (Init_region_step (inds, lams) s)"
proof (cases "length inds = 1")
  case True
  let ?S = "m_sum_into_intersects s" and ?v = "inds ! 0"
  let ?t = "vec_add (?S ! ?v) (MulDimArr_of (map ((!) vs) inds) lams)"
  have vs: "m_var_sizes s = vs" and len: "length (m_all_intersects s) = length ?S" "length vs \<le> length (m_all_intersects s)"
    and sing: "\<forall>i<length vs. m_all_intersects s ! i = [i] \<and> m_sizes (?S ! i) = [vs ! i]"
    and si: "solver_inv s"
    using inv by (simp_all add: init_inv_def)
  have v: "?v < length ?S" using r True len by (metis One_nat_def less_le_trans nth_mem zero_less_one)
  have f: "m_sum_into_intersects (Init_region_step (inds, lams) s) = ?S[?v := ?t]"
    "m_all_intersects (Init_region_step (inds, lams) s) = m_all_intersects s"
    "m_all_regions (Init_region_step (inds, lams) s) = m_all_regions s"
    "m_var_sizes (Init_region_step (inds, lams) s) = m_var_sizes s"
    using True l vs by (simp_all add: Init_region_step_def Let_def)
  have shp: "shapes (?S[?v := ?t]) = shapes ?S" using v by (simp add: map_update) (metis list_update_id nth_map)
  have tw: "tables_wf (?S[?v := ?t])"
    using si v set_update_subset_insert [of ?S ?v ?t] vec_ops_wf(1) [of "?S ! ?v"]
    by (auto simp: solver_inv_def tables_wf_def)
  have sz: "m_sizes (?S[?v := ?t] ! i) = m_sizes (?S ! i)" for i
    using v by (cases "i = ?v") simp_all
  show ?thesis using inv f shp tw sz by (simp add: init_inv_def solver_inv_def)
next
  case False
  let ?S = "m_sum_into_intersects s" and ?ai = "m_all_intersects s @ [inds]"
  let ?t = "MulDimArr_of (map ((!) vs) inds) lams"
  let ?reg = "Region inds ?ai inds vs (length (m_all_intersects s))"
  have vs: "m_var_sizes s = vs" and len: "length (m_all_intersects s) = length ?S" "length vs \<le> length (m_all_intersects s)"
    and sing: "\<forall>i<length vs. m_all_intersects s ! i = [i] \<and> m_sizes (?S ! i) = [vs ! i]"
    and si: "solver_inv s"
    using inv by (simp_all add: init_inv_def)
  have f: "m_sum_into_intersects (Init_region_step (inds, lams) s) = ?S @ [?t]"
    "m_all_intersects (Init_region_step (inds, lams) s) = ?ai"
    "m_all_regions (Init_region_step (inds, lams) s) = m_all_regions s @ [?reg]"
    "m_var_sizes (Init_region_step (inds, lams) s) = m_var_sizes s"
    using False l vs by (simp_all add: Init_region_step_def Let_def)
  have old: "region_wf r (shapes ?S @ [map ((!) vs) inds])" if "r \<in> set (m_all_regions s)" for r
    using si that region_wf_append by (simp add: solver_inv_def)
  have new: "region_wf ?reg (shapes ?S @ [map ((!) vs) inds])"
    by (rule Init_new_region_wf [OF inv d r pos])
  have "solver_inv (Init_region_step (inds, lams) s)"
    using si f old new by (auto simp: solver_inv_def tables_wf_def)
  moreover have "\<forall>i<length vs. ?ai ! i = [i] \<and> m_sizes ((?S @ [?t]) ! i) = [vs ! i]"
    using sing len by (auto simp: nth_append)
  ultimately show ?thesis using f len vs by (simp add: init_inv_def)
qed

lemma model_wf_Cons:
  "model_wf vs ((inds, lams) # regs) \<longleftrightarrow>
     model_wf vs regs \<and> distinct inds \<and> (\<forall>i\<in>set inds. i < length vs) \<and> lams \<noteq> []"
  by (auto simp: model_wf_def)

lemma Init_region_fold_inv:
  "model_wf vs regs \<Longrightarrow> init_inv vs s \<Longrightarrow> init_inv vs (fold Init_region_step regs s)"
proof (induction regs arbitrary: s)
  case (Cons r regs)
  obtain inds lams where r: "r = (inds, lams)" by (cases r)
  have "init_inv vs (Init_region_step (inds, lams) s)"
    using Cons.prems r Init_region_step_inv [of vs s inds lams] by (simp add: model_wf_Cons model_wf_def)
  then show ?case using Cons r by (simp add: model_wf_Cons)
qed simp

text \<open>The singletons \<open>Init\<close> starts from satisfy the loop invariant.\<close>

lemma Init_singletons_inv:
  assumes "m_all_regions s0 = []"
  shows "init_inv vs (s0\<lparr>m_var_sizes := vs, m_all_intersects := map (\<lambda>si. [si]) [0..<length vs],
              m_sum_into_intersects := map (\<lambda>si. MulDimArr_zero [vs ! si]) [0..<length vs],
              m_single_node_lambdas := map (\<lambda>si. MulDimArr_zero [vs ! si]) [0..<length vs]\<rparr>)"
  using assms
  by (auto simp: init_inv_def solver_inv_def tables_wf_def mda_wf_def MulDimArr_zero_def)

text \<open>The solver invariant depends on the arena and the regions only.\<close>

lemma solver_inv_cong:
  assumes "solver_inv s" "m_all_regions t = m_all_regions s"
    and "shapes (m_sum_into_intersects t) = shapes (m_sum_into_intersects s)" "tables_wf (m_sum_into_intersects t)"
  shows "solver_inv t"
  using assms by (simp add: solver_inv_def)

text \<open>The competition-mode block of \<open>Init\<close> perturbs values only.\<close>

lemma Init_uai_inv:
  assumes "solver_inv s"
  shows "solver_inv (Init_uai noise s)"
proof -
  obtain obj s2 where ld: "LocalDecode (snd (UpdateResult s)) = (obj, s2)" by (cases "LocalDecode (snd (UpdateResult s))")
  have fr: "m_sum_into_intersects s2 = m_sum_into_intersects s" "m_all_regions s2 = m_all_regions s"
    using LocalDecode_frame(3,4) [of "snd (UpdateResult s)"] ld by simp_all
  let ?S = "m_sum_into_intersects s2" and ?n = "length (m_var_sizes s2)"
  let ?P = "map (\<lambda>si. if si < ?n then
              (?S ! si)\<lparr>m_dat := map (\<lambda>loc. m_dat (?S ! si) ! loc + 0.01 * noise si loc) [0..<length (m_dat (?S ! si))]\<rparr>
              else ?S ! si) [0..<length ?S]"
  have sh: "shapes ?P = shapes ?S" by (rule nth_equalityI) simp_all
  have "\<forall>x<length ?S. mda_wf (?S ! x)"
    using assms fr by (simp add: solver_inv_def tables_wf_def all_set_conv_all_nth)
  then have tw: "tables_wf ?P" by (auto simp: tables_wf_def mda_wf_def in_set_conv_nth)
  have s2: "solver_inv s2" using assms fr by (simp add: solver_inv_def)
  have e: "m_sum_into_intersects (s2\<lparr>CSP_instance := b, m_sum_into_intersects := ?P\<rparr>) = ?P" for b
    by simp
  have "solver_inv (s2\<lparr>CSP_instance := b, m_sum_into_intersects := ?P\<rparr>)" for b
  proof (rule solver_inv_cong [OF s2])
    show "m_all_regions (s2\<lparr>CSP_instance := b, m_sum_into_intersects := ?P\<rparr>) = m_all_regions s2" by simp
    show "shapes (m_sum_into_intersects (s2\<lparr>CSP_instance := b, m_sum_into_intersects := ?P\<rparr>)) = shapes ?S"
      unfolding e by (rule sh)
    show "tables_wf (m_sum_into_intersects (s2\<lparr>CSP_instance := b, m_sum_into_intersects := ?P\<rparr>))"
      unfolding e by (rule tw)
  qed
  moreover have "solver_inv (s2\<lparr>CSP_instance := b\<rparr>)" for b using s2 by (simp add: solver_inv_def)
  ultimately show ?thesis using s2 ld by (simp add: Init_uai_def Let_def)
qed

text \<open>\<open>Init\<close> establishes the solver invariant on every well-formed model.\<close>

lemma Init_solver_inv:
  assumes "model_wf vs regs" "m_all_regions s0 = []"
  shows "solver_inv (Init uai noise vs regs s0)"
proof -
  let ?s1 = "s0\<lparr>m_var_sizes := vs, m_all_intersects := map (\<lambda>si. [si]) [0..<length vs],
              m_sum_into_intersects := map (\<lambda>si. MulDimArr_zero [vs ! si]) [0..<length vs],
              m_single_node_lambdas := map (\<lambda>si. MulDimArr_zero [vs ! si]) [0..<length vs]\<rparr>"
  have "init_inv vs (fold Init_region_step regs ?s1)"
    using Init_region_fold_inv [OF assms(1) Init_singletons_inv [OF assms(2)]] .
  then have i: "solver_inv (fold Init_region_step regs ?s1\<lparr>m_decoded_res := d, m_best_decoded_res := d'\<rparr>)" for d d'
    by (simp add: init_inv_def solver_inv_def)
  show ?thesis using i Init_uai_inv [OF i] by (simp add: Init_def Let_def)
qed

text \<open>C27.  From a model file to the solver loop: for any model file name of at
  least six characters and readers that yield well-formed models, the
  constructor \<open>MPLPAlg(start, time_limit, model_file, ...)\<close> does not throw; it
  names the result file after the model and writes its \<open>MPE\<close> line; the solver
  it builds (by \<open>Init\<close> or \<open>Init2\<close>) satisfies the solver invariant; and
  \<open>RunMPLP\<close> on it, with a global decoding that keeps its interface, keeps the
  invariant, never raises the dual objective and never lowers the incumbent.\<close>

theorem MPLPAlg_ctor_RunMPLP:
  fixes f :: string and rd rd2 :: model_reader
  assumes "length f < 2 ^ 64" "6 \<le> length f"
    and "\<forall>fn ev. model_wf (fst (rd fn ev)) (snd (snd (rd fn ev)))"
    and "\<forall>fn ev. model_wf (fst (rd2 fn ev)) (snd (snd (rd2 fn ev)))"
    and "gd_interface gd"
  shows "\<exists>s. MPLPAlg_ctor rd rd2 tlim hg mat uai noise f e = Inr ((res_fname f, [''MPE'']), s)
    \<and> solver_inv s \<and> solver_inv (RunMPLP gd clk niter t1 t2 s)
    \<and> dual_obj (m_sum_into_intersects (RunMPLP gd clk niter t1 t2 s)) \<le> dual_obj (m_sum_into_intersects s)
    \<and> m_best_val s \<le> m_best_val (RunMPLP gd clk niter t1 t2 s)"
proof -
  let ?rd = "if drop (length f - 6) f = ''UAI.LG'' then rd2 else rd"
  obtain vs ev regs where r: "?rd f e = (vs, ev, regs)" using prod_cases3 by blast
  have "model_wf (fst (?rd f e)) (snd (snd (?rd f e)))" using assms(3,4) by simp
  then have wf: "model_wf vs regs" using r by simp
  let ?s = "Init uai noise vs regs ((MPLPAlg_new tlim hg mat Map.empty)\<lparr>evidence := ev\<rparr>)"
  have i: "solver_inv ?s" by (rule Init_solver_inv [OF wf]) (simp add: MPLPAlg_new_def)
  have c: "MPLPAlg_ctor rd rd2 tlim hg mat uai noise f e = Inr ((res_fname f, [''MPE'']), ?s)"
    using MPLPAlg_ctor_eq [OF assms(1), of rd rd2 tlim hg mat uai noise e] assms(2) r by simp
  have "solver_inv (RunMPLP gd clk niter t1 t2 ?s)
    \<and> dual_obj (m_sum_into_intersects (RunMPLP gd clk niter t1 t2 ?s)) \<le> dual_obj (m_sum_into_intersects ?s)
    \<and> m_best_val ?s \<le> m_best_val (RunMPLP gd clk niter t1 t2 ?s)"
    using RunMPLP_loop_props [OF i assms(5), of clk t1 t2 0 niter] unfolding RunMPLP_def by blast
  then show ?thesis using c i by blast
qed

section \<open>Witnesses\<close>

theorem MPLPAlg_ctor_RunMPLP_witness:
  "\<exists>s. MPLPAlg_ctor (\<lambda>_ _. ([2, 2], Map.empty, [([0, 1], [2, 0, 0, 2])])) (\<lambda>_ _. ([2], Map.empty, []))
         100 (10^40) 1 False (\<lambda>_ _. 0) ''model.uai'' ''model.evid''
       = Inr ((res_fname ''model.uai'', [''MPE'']), s)
    \<and> solver_inv s \<and> solver_inv (RunMPLP id (\<lambda>_. 0) 3 0.0002 0.0002 s)
    \<and> dual_obj (m_sum_into_intersects (RunMPLP id (\<lambda>_. 0) 3 0.0002 0.0002 s)) \<le> dual_obj (m_sum_into_intersects s)
    \<and> m_best_val s \<le> m_best_val (RunMPLP id (\<lambda>_. 0) 3 0.0002 0.0002 s)"
proof -
  have l: "length ''model.uai'' < (2 :: nat) ^ 64" "6 \<le> length ''model.uai''" by simp_all
  have m1: "\<forall>fn ev. model_wf (fst ((\<lambda>_ _. ([2, 2], Map.empty, [([0, 1], [2, 0, 0, 2])])) fn ev))
      (snd (snd ((\<lambda>(_ :: string) (_ :: string). ([2 :: nat, 2], Map.empty :: var \<rightharpoonup> nat, [([0 :: nat, 1], [2 :: real, 0, 0, 2])])) fn ev)))"
    by (simp add: model_wf_def)
  have m2: "\<forall>fn ev. model_wf (fst ((\<lambda>(_ :: string) (_ :: string). ([2 :: nat], Map.empty :: var \<rightharpoonup> nat, [] :: (var list \<times> real list) list)) fn ev))
      (snd (snd ((\<lambda>(_ :: string) (_ :: string). ([2 :: nat], Map.empty :: var \<rightharpoonup> nat, [] :: (var list \<times> real list) list)) fn ev)))"
    by (simp add: model_wf_def)
  have g: "gd_interface id" by (simp add: gd_interface_def)
  show ?thesis by (rule MPLPAlg_ctor_RunMPLP [OF l m1 m2 g])
qed

end
