(* ===== verification/Spec2Isabelle.thy ===== *)
theory Spec2Isabelle
  imports GlobalDecoding2 Sweeps RegionCtor DenseMatrix Sparse MatrixHeap InitWf
begin

text \<open>
  \<^bold>\<open>MPLP: a verification development.\<close>

  The program (\<open>src/src/mplp_alg.cpp\<close>, \<open>src/src/matrix.cpp\<close>) computes MAP
  assignments of discrete graphical models by MPLP, a block-coordinate descent
  on the dual of the MAP linear program.  Regions (cliques of variables) send
  messages to their intersection sets; the solver keeps one aggregated belief
  table per intersection (an arena shared by all regions), sweeps the regions,
  decodes an assignment from the singleton beliefs and keeps the best one, and
  may fix variables by decimation or global decoding.  Theories, leaves first:

  \<^item> \<open>MPLP_Prelude\<close>: the model's types (\<open>var\<close>, \<open>handle\<close>, assignments), and
    generic lemmas on lists, sums, folds of conditional list updates and linear
    search shared by the components.
  \<^item> \<open>MulDimArr\<close>, the \<^emph>\<open>potential tables\<close> (\<open>MulDimArr\<close>, declared in \<open>matrix.h\<close>,
    which is not in the sources; the vector operations it inherits are
    \<open>mplpLib::Vec\<close> of \<open>matrix.cpp\<close>): a record \<open>mdarr\<close> of the dimension sizes and
    the flat row-major data; \<open>GetVal\<close> reads a joint state, \<open>ExpandAndAdd\<close> and
    \<open>ExpandAndSubtract\<close> broadcast a sub-table, \<open>max_into_subset\<close> and
    \<open>max_into_multiple_subsets_special\<close> max-marginalise, \<open>Max_at\<close> is
    \<open>Max(max_at)\<close> with its first-index tie-break, and \<open>vec_add\<close>, \<open>vec_sub\<close>,
    \<open>vec_scale\<close>, \<open>vec_fill\<close> the in-place \<open>Vec\<close> arithmetic.  The multi-dimensional
    operations are modelled from their use in \<open>mplp_alg.cpp\<close> and spec section
    4.1.  Lemmas: each operation read back through \<open>GetVal\<close> on every joint
    state, broadcast followed by max-marginalisation (C10), the identity
    projection (C11), the first-maximum law of \<open>Max_at\<close> and its agreement with
    \<open>Vec::Max\<close> (C12).
  \<^item> \<open>Region\<close>, the \<^emph>\<open>regions\<close> (\<open>Region::Region\<close>, \<open>Region::AddIntersectionSet\<close>,
    \<open>Region::UpdateMsgs\<close>, lines 33--196): a record \<open>region\<close> holding handles into
    the arena (the C++ \<open>sum_into_intersects\<close> vector, passed by reference, here a
    \<open>mdarr list\<close> passed and returned).  The constructor is \<open>find_pos\<close>
    (\<open>std::find\<close>), \<open>intersect_positions\<close> and \<open>region_ctor_loop\<close>, with the early
    \<open>return\<close> as a flag; \<open>UpdateMsgs\<close> is written as its three loops (\<open>um_undo\<close>,
    \<open>um_collect\<close>, \<open>um_send\<close>) and the final copy.  The invariant \<open>region_wf\<close>
    says that handles, positions and message shapes fit the arena.  Lemmas: the
    update preserves the total reparameterised potential at every joint state
    (C2), equalises the intersections' maxima (C3), never raises the sum of the
    tables' maxima (\<open>dual_obj\<close>), and preserves shapes and the invariant.
  \<^item> \<open>RegionCtor\<close>: the constructor's success path (C25) and its error path, a
    variable missing from the region (C26).
  \<^item> \<open>MPLP_Solver\<close>, the \<^emph>\<open>solver\<close> (\<open>MPLPAlg\<close>, lines 198--1020): a record
    \<open>mplp_state\<close> of the members, with \<open>Init\<close>, \<open>IntVal\<close>, \<open>UpdateResult\<close>,
    \<open>LocalDecode\<close>, \<open>RunMPLP\<close>, the catalogue operations (\<open>AddIntersectionSet\<close>,
    \<open>FindIntersectionSet\<close>, \<open>AddRegion\<close>, \<open>AddAllEdgeIntersections\<close>) and
    decimation (\<open>gap\<close>, \<open>dec_gaps\<close>, \<open>fix_variable\<close>, \<open>RunDecimation\<close>).  The
    invariant \<open>solver_inv\<close> lifts \<open>region_wf\<close> to every region.  Lemmas: every
    round and the whole loop keep the invariant and never raise the dual
    objective (C1); decoding reads the singleton beliefs and respects evidence
    (C4), is idempotent (C5); the incumbent only improves (C6); the gap is
    non-negative, bounded and taken at the first maximiser (C13, C14); a
    decimation step fixes at least one undecoded variable (C15).
  \<^item> \<open>Catalogue\<close>: lookup after insertion in the intersection catalogue (C16,
    C17).
  \<^item> \<open>Scenarios\<close>: runs whose every variable is evidenced (C18, C19) or whose
    regions are all singletons (C20).
  \<^item> \<open>GlobalDecoding\<close>: \<open>RunGlobalDecoding\<close> (lines 640--758) as a loop of
    selection (\<open>gd_select\<close>) and ten MPLP rounds (\<open>gd_rounds\<close>), written
    \<open>partial_function (option)\<close> (\<open>gd_loop\<close>) since the C++ loop has no bound;
    it is proved to return (C21), and \<open>RunMPLP\<close> with it as its global decoding
    keeps the properties of C1 (C22).
  \<^item> \<open>GlobalDecoding2\<close>: the heuristics \<open>RunGlobalDecoding2\<close> (lines 762--884)
    and \<open>RunGlobalDecoding3\<close> (lines 888--947), which no path of the solver calls.
    \<open>rand()\<close> is a stream \<open>rnd\<close> indexed by the number of calls made so far,
    threaded through and returned; \<open>RAND_MAX\<close> and \<open>MPLP_GAP_THR\<close> are
    parameters; the never-initialised \<open>max_at\<close> array is a parameter \<open>ma0\<close>.
    A pass (\<open>gd2_scan\<close>) selects the undecided variable of smallest gap, ties
    broken by \<open>rand() % 2\<close>, and fixes it followed by ten MPLP rounds; the loop
    \<open>gd2_loop\<close> is \<open>partial_function (option)\<close>, since in exhaustive mode it
    has no bound.  \<open>RunGlobalDecoding3\<close> is eleven trials (\<open>gd3_trials\<close>) of a
    perturbation of the singleton beliefs (\<open>gd3_perturb\<close>), \<open>RunGlobalDecoding\<close>
    and \<open>RunGlobalDecoding2\<close>, the last trial exhaustive.  Lemmas: outside
    exhaustive mode the loop returns, its budget of 1000 bounding it, with the
    beliefs restored and the incumbent no lower (C37); the selection picks an
    undecided variable of smallest gap when one is below \<open>MPLP_huge\<close> (C40);
    but the selection's initial index \<open>0\<close> survives ties with \<open>MPLP_huge\<close>, so
    with variable \<open>0\<close> decided and single-state variables left the exhaustive
    loop re-fixes variable \<open>0\<close> forever (C38), and \<open>RunGlobalDecoding3\<close> does
    not return (C39).
  \<^item> \<open>Sweeps\<close>: an \<open>inductive\<close> step relation \<open>arena_step\<close>, any region's update
    in any order; every reachable arena keeps the invariant and never raises
    the dual objective (C23), and the sweep of \<open>RunMPLP\<close> is a run of it (C24).
  \<^item> \<open>VecOps\<close>, \<open>DenseMatrix\<close>, \<open>Sparse\<close>: the utilities of \<open>matrix.cpp\<close> that the
    solver does not call.  \<open>VecOps\<close> holds the rest of \<open>Vec\<close> (\<open>Min\<close>, \<open>MaxMin\<close>,
    \<open>Sum\<close>, the element-wise arithmetic); \<open>MaxMin\<close> agrees with \<open>Max\<close> and \<open>Min\<close>
    (\<open>Vec_MaxMin_eq\<close>).  \<open>DenseMatrix\<close> models \<open>Matrix\<close> as a record \<open>matrix\<close> of its sizes and
    row-major data, read through \<open>mat_get\<close>, with its invariant \<open>mat_wf\<close>; its
    nested loops are nested folds, read back through the generic lemmas on
    folds of updates at distinct positions of \<open>MPLP_Prelude\<close>.  Lemmas: the
    transpose round trip (C28), row sums, column sums and \<open>Sum\<close> agree (C29),
    \<open>Vec::MatMult\<close> is \<open>VecMult\<close> of the transpose (C30), the \<open>SetRow\<close>/\<open>GetRow\<close>
    round trip (C31), \<open>DivRowsByVec\<close> undoes \<open>ScaleRowsByVec\<close> (C32), \<open>BackDiv\<close>
    reads each cell before writing it (C33), and every operation keeps
    \<open>mat_wf\<close> (C34).  \<open>Sparse\<close> models \<open>SparseMatrix\<close> with \<open>MPLPIndexType\<close> as a
    machine word of arbitrary width, so that its unsigned arithmetic wraps as
    the C++ does; \<open>SumCol\<close> and \<open>SumRow\<close> refine the line sums of the represented
    matrix \<open>sparse_entry\<close> (C35) and \<open>Read\<close> normalises to mass one (C36).
  \<^item> \<open>MatrixIO\<close>: the allocation, random fill and text I/O of \<open>Vec\<close> and
    \<open>Matrix\<close> (\<open>SetSize\<close>, \<open>Rand\<close>, \<open>Read\<close>, \<open>Write\<close>, \<open>Print\<close>).  A text file is
    its lines of numeric fields; an input stream is the unread fields and its
    \<open>good()\<close> flag, with the C++11 extraction rules (a failed stream leaves the
    target unchanged, an exhausted one stores \<open>0\<close> and fails); the printed
    rendering of a \<open>double\<close> is a parameter \<open>fmt\<close>.  Lemmas: \<open>Read\<close> after
    \<open>Write\<close> gives back the rendered values, for \<open>Vec\<close> and for \<open>Matrix\<close>; a short
    file leaves a \<open>0\<close> and then uninitialised values; a file that cannot be
    opened gives a size taken from an uninitialised local; the random fills
    draw one \<open>rand()\<close> per element in row-major order and stay in \<open>[-1, 1]\<close>.
  \<^item> \<open>MatrixHeap\<close>: the buffers of \<open>Vec\<close> and \<open>Matrix\<close> in an explicit store
    (addresses to arrays, with a fresh-address counter), the objects as records
    of their sizes, data address and (for \<open>Matrix\<close>) the ownership flag
    \<open>m_bDelete\<close>; the constructors, destructors and \<open>SetSize\<close>.  An object
    denotes a \<open>DenseMatrix\<close> value through \<open>mat_view\<close>, and an operation
    applied through it is written back into the shared buffer.  Lemmas: an
    owned matrix's lifetime leaves the store as it was; \<open>SetSize\<close> of an owned
    matrix swaps its buffer for a fresh one; \<open>SetSize\<close> of a wrapping matrix
    leaks the new buffer; a write through one object is seen through every
    object on the same buffer and leaves other buffers alone; after an owning
    destructor the buffer is gone; \<open>Vec::SetSize\<close> never leaks.
  \<^item> \<open>SolverIO\<close>: the constructor \<open>MPLPAlg(start, time_limit, model_file, ...)\<close>,
    \<open>Init(fn, evid_fn)\<close> and \<open>Init2\<close>, with the external model readers as
    parameters and \<open>size_t\<close> as a 64-bit word.  Lemmas: the result file is the
    base name with \<open>.MPE\<close>; the suffix test throws \<open>out_of_range\<close> exactly for
    names shorter than six characters (the subtraction wraps), after the result
    file has been created; otherwise the reader is chosen by the \<open>UAI.LG\<close>
    suffix.
  \<^item> \<open>InitWf\<close>: what \<open>Init\<close> establishes.  A model is well formed
    (\<open>model_wf\<close>) when its domain sizes are positive and each factor lists
    distinct variables of the model and has a table.  The loop invariant
    \<open>init_inv\<close> of \<open>Init\<close>'s region loop (catalogue and arena of equal length,
    one singleton of the right shape per variable, the solver invariant) is
    kept by every factor, and the competition-mode block only perturbs values,
    so \<open>Init\<close> establishes \<open>solver_inv\<close> on every well-formed model.
    Composed with the constructor of \<open>SolverIO\<close> and the loop theorem of
    \<open>MPLP_Solver\<close>: from a model file to the guarantees of \<open>RunMPLP\<close> (C27).

  Effects are explicit.  The result file is the field \<open>written\<close>; the wall clock
  is a function from the iteration count to seconds (\<open>clk\<close>), stored in
  \<open>elapsed\<close>; \<open>rand()\<close> is the function \<open>noise\<close> given to \<open>Init\<close>, and
  elsewhere a stream \<open>rnd\<close> indexed by the number of calls made so far.  The global
  decoding called by \<open>RunMPLP\<close> is a parameter \<open>gd\<close> constrained by
  \<open>gd_interface\<close> (it restores what it provisionally changes); \<open>global_decoding\<close>
  of theory \<open>GlobalDecoding\<close> is shown to meet it.  \<open>RunMPLP\<close>'s loop is bounded
  by its iteration count, so it is a structural recursion and needs no fuel.
  \<open>gd_loop\<close>'s termination follows from the number of undecoded variables,
  which each selection strictly lowers.

  Numbers: the C++ \<open>double\<close>s are \<open>real\<close>s, so the theorems hold of exact
  arithmetic; the floating-point rounding is not modelled.  Indices are \<open>nat\<close>,
  except where unsigned arithmetic wraps (\<open>Sparse\<close>, \<open>SolverIO\<close>): there they
  are machine words.
  Undefined behaviour of the C++ (an uninitialised variable in \<open>RunDecimation\<close>,
  an erase while iterating in \<open>RunGlobalDecoding\<close>) is modelled by the
  behaviour the surrounding code intends, as documented at each definition.

  Not modelled: the model-file readers \<open>read_model_file\<close> and
  \<open>read_model_file2\<close> (not in the sources; parameters of \<open>SolverIO\<close>), the
  character-level formatting of the streams and of \<open>MPLPAlg::Write\<close>, the
  logging and the clock, the row-pointer array \<open>m_rows\<close> of a \<open>Matrix\<close>
  (allocated and freed with the object), the IEEE
  infinities of a division by zero (HOL's \<open>x / 0 = 0\<close>), and the writes of
  \<open>RunGlobalDecoding2\<close> (lines 834--839) through an uninitialised \<open>max_at\<close>
  value that is out of range.

  This theory holds the properties that span the components: the loop theorem
  (C1), the two-variable scenario of the spec (C7), a defect of \<open>Init\<close> (C8)
  and a counterexample to the spec's mass conservation of the sum of maxima (C9).
\<close>

text \<open>C1.  Under the solver invariant and a global decoding that keeps its
  interface, \<open>RunMPLP\<close> keeps the invariant, never raises the dual objective (the
  sum over intersections of the maximum aggregated belief), never lowers the
  incumbent score, and after at least one round its recorded objective
  \<open>last_obj\<close> is the dual objective of the final beliefs.\<close>

theorem RunMPLP_dual_monotone:
  assumes "solver_inv s" and "gd_interface gd"
  shows "solver_inv (RunMPLP gd clk niter t1 t2 s)
    \<and> dual_obj (m_sum_into_intersects (RunMPLP gd clk niter t1 t2 s)) \<le> dual_obj (m_sum_into_intersects s)
    \<and> m_best_val s \<le> m_best_val (RunMPLP gd clk niter t1 t2 s)
    \<and> (0 < niter \<longrightarrow> last_obj (RunMPLP gd clk niter t1 t2 s)
                      = dual_obj (m_sum_into_intersects (RunMPLP gd clk niter t1 t2 s)))"
  unfolding RunMPLP_def using RunMPLP_loop_props [OF assms] .

theorem RunMPLP_dual_monotone_witness:
  "solver_inv (Init False (\<lambda>_ _. 0) [2,2] [([0,1],[2,0,0,2])] (MPLPAlg_new 100 (10^40) 1 Map.empty))
   \<and> gd_interface id
   \<and> dual_obj (m_sum_into_intersects (RunMPLP id (\<lambda>_. 0) 3 0.0002 0.0002
        (Init False (\<lambda>_ _. 0) [2,2] [([0,1],[2,0,0,2])] (MPLPAlg_new 100 (10^40) 1 Map.empty))))
     \<le> dual_obj (m_sum_into_intersects (Init False (\<lambda>_ _. 0) [2,2] [([0,1],[2,0,0,2])] (MPLPAlg_new 100 (10^40) 1 Map.empty)))"
proof -
  have i: "solver_inv (Init False (\<lambda>_ _. 0) [2,2] [([0,1],[2,0,0,2])] (MPLPAlg_new 100 (10^40) 1 Map.empty))"
    by code_simp
  have g: "gd_interface id" by (simp add: gd_interface_def)
  show ?thesis using RunMPLP_dual_monotone [OF i g, of "\<lambda>_. 0" 3 "0.0002" "0.0002"] i g by simp
qed




end
